(* ===== verification/Prelude.thy ===== *)
theory Prelude
  imports Main "HOL-Library.Word"
begin

text \<open>
  Shared foundations of the Quekka development: what a C function does beyond returning
  a value, as an explicit state-passing program; the reasoning rules every component
  uses; and generic facts about lists.

  A modelled C function is a function from its state to an outcome and a state.
  \<open>Ret x\<close> is a return with value \<open>x\<close>, \<open>Exit n\<close> is a call of \<open>exit(n)\<close>,
  \<open>Fault f\<close> is undefined behaviour (an access outside an object, a dereference of NULL
  or of a freed object, a read of an indeterminate value) and \<open>Out_of_fuel\<close> marks a loop that
  was still running when the iterations granted to it were used up.
\<close>

section \<open>Programs\<close>

datatype fault =
    Out_of_bounds
  | Null_deref
  | Dangling
  | Unterminated
  | Uninitialised
  | Bad_arguments
  | Deadlock

datatype 'a outcome = Ret 'a | Exit int | Fault fault | Out_of_fuel

type_synonym ('s, 'a) prog = "'s \<Rightarrow> 'a outcome \<times> 's"

definition return_c :: "'a \<Rightarrow> ('s, 'a) prog" where
  "return_c x s = (Ret x, s)"

definition exit_c :: "int \<Rightarrow> ('s, 'a) prog" where
  "exit_c n s = (Exit n, s)"

definition fault_c :: "fault \<Rightarrow> ('s, 'a) prog" where
  "fault_c f s = (Fault f, s)"

definition fuel_c :: "('s, 'a) prog" where
  "fuel_c s = (Out_of_fuel, s)"

definition bind_c :: "('s, 'a) prog \<Rightarrow> ('a \<Rightarrow> ('s, 'b) prog) \<Rightarrow> ('s, 'b) prog" where
  "bind_c m f s =
     (case m s of
        (Ret x, s') \<Rightarrow> f x s'
      | (Exit n, s') \<Rightarrow> (Exit n, s')
      | (Fault e, s') \<Rightarrow> (Fault e, s')
      | (Out_of_fuel, s') \<Rightarrow> (Out_of_fuel, s'))"

definition then_c :: "('s, 'a) prog \<Rightarrow> ('s, 'b) prog \<Rightarrow> ('s, 'b) prog" where
  "then_c m k = bind_c m (\<lambda>_. k)"

definition get_c :: "('s \<Rightarrow> 'a) \<Rightarrow> ('s, 'a) prog" where
  "get_c f s = (Ret (f s), s)"

definition modify_c :: "('s \<Rightarrow> 's) \<Rightarrow> ('s, unit) prog" where
  "modify_c f s = (Ret (), f s)"

text \<open>A partial operation of the C library: its failure is undefined behaviour.\<close>

definition require_c :: "fault \<Rightarrow> 'a option \<Rightarrow> ('s, 'a) prog" where
  "require_c e v = (case v of None \<Rightarrow> fault_c e | Some x \<Rightarrow> return_c x)"

primrec skip_all :: "('s, unit) prog list \<Rightarrow> ('s, unit) prog" where
  "skip_all [] = return_c ()"
| "skip_all (m # ms) = then_c m (skip_all ms)"

lemmas prog_defs = return_c_def exit_c_def fault_c_def fuel_c_def bind_c_def then_c_def
  get_c_def modify_c_def require_c_def

text \<open>
  Symbolic execution: applied to a state, every construct reduces to a pair. The rules for
  \<open>bind_c\<close> and \<open>then_c\<close> fire once the first program has been reduced. They are a
  collection and not simp rules, because the simplifier would contract
  \<open>return_c x s = (Ret x, s)\<close> to an equation between programs.
\<close>

named_theorems run_simps "rules that run a program on a state"

lemma return_c_run [run_simps]: "return_c x s = (Ret x, s)"
  and exit_c_run [run_simps]: "exit_c n s = (Exit n, s)"
  and fault_c_run [run_simps]: "fault_c e s = (Fault e, s)"
  and fuel_c_run [run_simps]: "fuel_c s = (Out_of_fuel, s)"
  and get_c_run [run_simps]: "get_c f s = (Ret (f s), s)"
  and modify_c_run [run_simps]: "modify_c g s = (Ret (), g s)"
  by (simp_all add: prog_defs)

lemma require_c_run [run_simps]:
  "require_c e None s = (Fault e, s)" "require_c e (Some x) s = (Ret x, s)"
  by (simp_all add: prog_defs)

lemma bind_c_run [run_simps]:
  "m s = (Ret x, s') \<Longrightarrow> bind_c m f s = f x s'"
  "m s = (Exit n, s') \<Longrightarrow> bind_c m f s = (Exit n, s')"
  "m s = (Fault e, s') \<Longrightarrow> bind_c m f s = (Fault e, s')"
  "m s = (Out_of_fuel, s') \<Longrightarrow> bind_c m f s = (Out_of_fuel, s')"
  by (simp_all add: bind_c_def)

lemma then_c_run [run_simps]:
  "m s = (Ret x, s') \<Longrightarrow> then_c m k s = k s'"
  "m s = (Exit n, s') \<Longrightarrow> then_c m k s = (Exit n, s')"
  "m s = (Fault e, s') \<Longrightarrow> then_c m k s = (Fault e, s')"
  "m s = (Out_of_fuel, s') \<Longrightarrow> then_c m k s = (Out_of_fuel, s')"
  by (simp_all add: then_c_def bind_c_def)

lemma if_c_run [run_simps]: "(if b then m else k) s = (if b then m s else k s)"
  by simp

lemma let_c_run [run_simps]: "(let x = t in f x) s = f t s"
  by simp

lemma option_c_run [run_simps]:
  "(case v of None \<Rightarrow> m | Some x \<Rightarrow> f x) s = (case v of None \<Rightarrow> m s | Some x \<Rightarrow> f x s)"
  by (cases v) simp_all

lemma bind_c_return: "bind_c (return_c x) f = f x"
  by (rule ext) (simp add: prog_defs)

lemma bind_c_assoc: "bind_c (bind_c m f) g = bind_c m (\<lambda>x. bind_c (f x) g)"
  by (rule ext) (simp add: bind_c_def split: prod.split outcome.split)

text \<open>
  Flattening: a program that is bound to a continuation is turned into a tree whose branches
  carry the continuation, so that symbolic execution ends in nested conditionals over pairs.
\<close>

lemma flat_steps:
  "bind_c (return_c x) f = f x"
  "bind_c (exit_c n) f = exit_c n"
  "bind_c (fault_c e) f = fault_c e"
  "bind_c fuel_c f = fuel_c"
  "then_c m' k' = bind_c m' (\<lambda>_. k')"
  "bind_c (if b then m else k) f = (if b then bind_c m f else bind_c k f)"
  "bind_c (case v of None \<Rightarrow> m | Some y \<Rightarrow> h y) f = (case v of None \<Rightarrow> bind_c m f | Some y \<Rightarrow> bind_c (h y) f)"
  "bind_c (case p of (u, w) \<Rightarrow> j u w) f = (case p of (u, w) \<Rightarrow> bind_c (j u w) f)"
  by (auto simp: prog_defs split: option.split prod.split)

lemmas flat_simps = flat_steps bind_c_assoc

lemma bind_c_RetE:
  assumes "bind_c m f s = (Ret y, s'')"
  obtains x s' where "m s = (Ret x, s')" and "f x s' = (Ret y, s'')"
  using assms by (auto simp: bind_c_def split: prod.splits outcome.splits)

lemma then_c_RetE:
  assumes "then_c m k s = (Ret y, s'')"
  obtains x s' where "m s = (Ret x, s')" and "k s' = (Ret y, s'')"
  using assms unfolding then_c_def by (rule bind_c_RetE)

lemma require_c_Ret_iff: "require_c e v s = (Ret x, s') \<longleftrightarrow> v = Some x \<and> s' = s"
  by (cases v) (auto simp: prog_defs)

lemma prod_c_run [run_simps]: "(case p of (x, y) \<Rightarrow> f x y) s = (case p of (x, y) \<Rightarrow> f x y s)"
  by (cases p) simp

section \<open>Invariants of programs\<close>

text \<open>
  \<open>keeps I m\<close>: from a state satisfying \<open>I\<close> the program ends in a state satisfying \<open>I\<close>,
  whatever its outcome. The rules follow the constructs, so a safety property of a
  function is one application of \<open>keeps_intros\<close> after its calls are covered.
\<close>

named_theorems keeps_intros "rules that push an invariant through a program"

definition keeps :: "('s \<Rightarrow> bool) \<Rightarrow> ('s, 'a) prog \<Rightarrow> bool" where
  "keeps I m \<longleftrightarrow> (\<forall>s. I s \<longrightarrow> I (snd (m s)))"

lemma keepsD: "keeps I m \<Longrightarrow> I s \<Longrightarrow> m s = (r, s') \<Longrightarrow> I s'"
  unfolding keeps_def by (metis snd_conv)

lemma keepsI: "(\<And>s. I s \<Longrightarrow> I (snd (m s))) \<Longrightarrow> keeps I m"
  by (simp add: keeps_def)

lemma keeps_return [keeps_intros]: "keeps I (return_c x)"
  and keeps_exit [keeps_intros]: "keeps I (exit_c n)"
  and keeps_fault [keeps_intros]: "keeps I (fault_c e)"
  and keeps_fuel [keeps_intros]: "keeps I fuel_c"
  and keeps_get [keeps_intros]: "keeps I (get_c f)"
  by (simp_all add: keeps_def prog_defs)

lemma keeps_require [keeps_intros]: "keeps I (require_c e v)"
  by (cases v) (simp_all add: keeps_def prog_defs)

lemma keeps_modify: "(\<And>s. I s \<Longrightarrow> I (f s)) \<Longrightarrow> keeps I (modify_c f)"
  by (simp add: keeps_def prog_defs)

lemma keeps_bind [keeps_intros]:
  assumes "keeps I m" and "\<And>x. keeps I (f x)"
  shows "keeps I (bind_c m f)"
proof (rule keepsI)
  fix s assume s: "I s"
  obtain r s' where r: "m s = (r, s')" by fastforce
  then have s': "I s'" using assms(1) s by (blast dest: keepsD)
  show "I (snd (bind_c m f s))"
  proof (cases r)
    case (Ret x)
    obtain q t where q: "f x s' = (q, t)" by fastforce
    then have "I t" using assms(2) s' by (blast dest: keepsD)
    then show ?thesis using r Ret q by (simp add: bind_c_def)
  qed (use r s' in \<open>simp_all add: bind_c_def\<close>)
qed

lemma keeps_then [keeps_intros]: "keeps I m \<Longrightarrow> keeps I k \<Longrightarrow> keeps I (then_c m k)"
  unfolding then_c_def by (rule keeps_bind)

lemma keeps_if [keeps_intros]:
  "(b \<Longrightarrow> keeps I m) \<Longrightarrow> (\<not> b \<Longrightarrow> keeps I k) \<Longrightarrow> keeps I (if b then m else k)"
  by simp

lemma keeps_option [keeps_intros]:
  "(v = None \<Longrightarrow> keeps I m) \<Longrightarrow> (\<And>x. v = Some x \<Longrightarrow> keeps I (f x)) \<Longrightarrow>
   keeps I (case v of None \<Rightarrow> m | Some x \<Rightarrow> f x)"
  by (cases v) simp_all

lemma keeps_let [keeps_intros]: "(\<And>x. keeps I (f x)) \<Longrightarrow> keeps I (let x = t in f x)"
  by (simp add: Let_def)

lemma keeps_case_prod: "(\<And>x y. keeps I (f x y)) \<Longrightarrow> keeps I (case p of (x, y) \<Rightarrow> f x y)"
  by (cases p) simp

lemma keeps_skip_all: "(\<And>m. m \<in> set ms \<Longrightarrow> keeps I m) \<Longrightarrow> keeps I (skip_all ms)"
proof (induction ms)
  case Nil
  show ?case by (simp add: keeps_return)
next
  case (Cons a ms)
  then show ?case by (simp add: keeps_then)
qed

section \<open>Weakest preconditions\<close>

text \<open>
  \<open>wp m Q s\<close>: run from \<open>s\<close>, the program ends in an outcome and a state that satisfy \<open>Q\<close>.
  The rules in \<open>wp_intros\<close> take a flattened program apart from the front; every call to the
  environment gives a fresh reply, so verification conditions stay small however many
  calls a function makes.
\<close>

named_theorems wp_intros "rules that take a program apart from the front"

definition wp :: "('s, 'a) prog \<Rightarrow> ('a outcome \<Rightarrow> 's \<Rightarrow> bool) \<Rightarrow> 's \<Rightarrow> bool" where
  "wp m Q s \<longleftrightarrow> Q (fst (m s)) (snd (m s))"

lemma wpD: "wp m Q s \<Longrightarrow> m s = (r, s') \<Longrightarrow> Q r s'"
  by (simp add: wp_def)

lemma wpI: "(\<And>r s'. m s = (r, s') \<Longrightarrow> Q r s') \<Longrightarrow> wp m Q s"
  by (auto simp: wp_def)

lemma wp_run: "m s = (Ret x, s') \<Longrightarrow> wp (f x) Q s' \<Longrightarrow> wp (bind_c m f) Q s"
  by (simp add: wp_def run_simps)

lemma wp_last: "m s = (r, s') \<Longrightarrow> Q r s' \<Longrightarrow> wp m Q s"
  by (simp add: wp_def)

lemma wp_leaf [wp_intros]:
  "Q (Ret x) s \<Longrightarrow> wp (return_c x) Q s"
  "Q (Exit n) s \<Longrightarrow> wp (exit_c n) Q s"
  "Q (Fault e) s \<Longrightarrow> wp (fault_c e) Q s"
  "Q Out_of_fuel s \<Longrightarrow> wp fuel_c Q s"
  "Q (Ret (g s)) s \<Longrightarrow> wp (get_c g) Q s"
  "Q' (Ret ()) (h s) \<Longrightarrow> wp (modify_c h) Q' s"
  by (simp_all add: wp_def prog_defs)

lemma wp_leaf_bind [wp_intros]:
  "wp (f (g s)) Q s \<Longrightarrow> wp (bind_c (get_c g) f) Q s"
  "wp (f' ()) Q' (h s) \<Longrightarrow> wp (bind_c (modify_c h) f') Q' s"
  by (auto simp: wp_def prog_defs)

lemma wp_require [wp_intros]:
  "(v = None \<Longrightarrow> Q (Fault e) s) \<Longrightarrow> (\<And>x. v = Some x \<Longrightarrow> Q (Ret x) s) \<Longrightarrow> wp (require_c e v) Q s"
  "(v = None \<Longrightarrow> Q' (Fault e) s) \<Longrightarrow> (\<And>x. v = Some x \<Longrightarrow> wp (f x) Q' s) \<Longrightarrow>
   wp (bind_c (require_c e v) f) Q' s"
  by (cases v; auto simp: wp_def prog_defs)+

lemma wp_if [wp_intros]:
  "(b \<Longrightarrow> wp m Q s) \<Longrightarrow> (\<not> b \<Longrightarrow> wp k Q s) \<Longrightarrow> wp (if b then m else k) Q s"
  by simp

lemma wp_option [wp_intros]:
  "(v = None \<Longrightarrow> wp m Q s) \<Longrightarrow> (\<And>x. v = Some x \<Longrightarrow> wp (f x) Q s) \<Longrightarrow>
   wp (case v of None \<Rightarrow> m | Some x \<Rightarrow> f x) Q s"
  by (cases v) simp_all

lemma wp_prod [wp_intros]:
  "(\<And>x y. p = (x, y) \<Longrightarrow> wp (f x y) Q s) \<Longrightarrow> wp (case p of (x, y) \<Rightarrow> f x y) Q s"
  by (cases p) simp

text \<open>A call whose behaviour is known: continue from what it guarantees.\<close>

lemma wp_bind:
  assumes "wp m R s" and "\<And>x s'. R (Ret x) s' \<Longrightarrow> wp (f x) Q s'"
    and "\<And>n s'. R (Exit n) s' \<Longrightarrow> Q (Exit n) s'" and "\<And>e s'. R (Fault e) s' \<Longrightarrow> Q (Fault e) s'"
    and "\<And>s'. R Out_of_fuel s' \<Longrightarrow> Q Out_of_fuel s'"
  shows "wp (bind_c m f) Q s"
proof -
  obtain r s' where r: "m s = (r, s')" by fastforce
  then have "R r s'" using assms(1) by (simp add: wp_def)
  then show ?thesis using assms(2-5) r by (cases r) (auto simp: wp_def run_simps)
qed

lemma wp_mono: "wp m R s \<Longrightarrow> (\<And>r s'. R r s' \<Longrightarrow> Q r s') \<Longrightarrow> wp m Q s"
  by (auto simp: wp_def)

lemma wp_conj: "wp m Q s \<Longrightarrow> wp m R s \<Longrightarrow> wp m (\<lambda>r s'. Q r s' \<and> R r s') s"
  by (auto simp: wp_def)

lemma keeps_wp: "keeps I m \<longleftrightarrow> (\<forall>s. I s \<longrightarrow> wp m (\<lambda>r s'. I s') s)"
  by (simp add: keeps_def wp_def)

section \<open>Lists\<close>

lemma takeWhile_neq_append:
  "x \<notin> set xs \<Longrightarrow> takeWhile (\<lambda>y. y \<noteq> x) (xs @ x # ys) = xs"
  by (induction xs) auto

lemma notin_set_takeWhile_neq [simp]: "x \<notin> set (takeWhile (\<lambda>y. y \<noteq> x) xs)"
  using set_takeWhileD [of x "\<lambda>y. y \<noteq> x" xs] by blast

lemma takeWhile_neq_id [simp]: "x \<notin> set xs \<Longrightarrow> takeWhile (\<lambda>y. y \<noteq> x) xs = xs"
  by (induction xs) auto

lemma takeWhile_all: "\<forall>x \<in> set xs. P x \<Longrightarrow> takeWhile P xs = xs"
  by (induction xs) auto

lemma length_takeWhile_less: "x \<in> set xs \<Longrightarrow> length (takeWhile (\<lambda>y. y \<noteq> x) xs) < length xs"
  by (induction xs) auto

lemma takeWhile_neq_drop:
  "n \<le> length (takeWhile (\<lambda>y. y \<noteq> x) xs) \<Longrightarrow>
   takeWhile (\<lambda>y. y \<noteq> x) (drop n xs) = drop n (takeWhile (\<lambda>y. y \<noteq> x) xs)"
  by (induction xs arbitrary: n) (auto simp: drop_Cons' split: if_splits)

lemma in_set_drop_takeWhile:
  "x \<in> set xs \<Longrightarrow> n \<le> length (takeWhile (\<lambda>y. y \<noteq> x) xs) \<Longrightarrow> x \<in> set (drop n xs)"
  by (induction xs arbitrary: n) (auto simp: drop_Cons' split: if_splits)

end
