(* ===== verification/Clib.thy ===== *)
theory Clib
  imports Prelude
begin

text \<open>
  The parts of the C language and its string library the program uses, over explicit
  buffers. A C object that holds text is a \<open>char list\<close> of the object's size; a
  C string in it is what precedes its first NUL. An operation that would read or write
  outside its buffers is \<open>None\<close>, which the callers turn into a \<open>Fault\<close>.
\<close>

abbreviation NUL :: char where
  "NUL \<equiv> CHR 0x00"

section \<open>String functions\<close>

definition cstr :: "char list \<Rightarrow> char list" where
  "cstr b = takeWhile (\<lambda>c. c \<noteq> NUL) b"

definition c_strlen :: "char list \<Rightarrow> nat option" where
  "c_strlen b = (if NUL \<in> set b then Some (length (cstr b)) else None)"

definition c_memcpy :: "char list \<Rightarrow> char list \<Rightarrow> nat \<Rightarrow> char list option" where
  "c_memcpy dst src n =
     (if n \<le> length dst \<and> n \<le> length src then Some (take n src @ drop n dst) else None)"

definition c_memset :: "char list \<Rightarrow> char \<Rightarrow> nat \<Rightarrow> char list option" where
  "c_memset dst c n = (if n \<le> length dst then Some (replicate n c @ drop n dst) else None)"

definition c_strncpy :: "char list \<Rightarrow> char list \<Rightarrow> nat \<Rightarrow> char list option" where
  "c_strncpy dst src n =
     (if n \<le> length dst \<and> (NUL \<in> set src \<or> n \<le> length src)
      then Some (take n (cstr src) @ replicate (n - length (cstr src)) NUL @ drop n dst)
      else None)"

definition c_store :: "char list \<Rightarrow> nat \<Rightarrow> char \<Rightarrow> char list option" where
  "c_store b i c = (if i < length b then Some (b[i := c]) else None)"

text \<open>Pointer arithmetic may reach one past the end of the object, no further.\<close>

definition c_offset :: "char list \<Rightarrow> nat \<Rightarrow> char list option" where
  "c_offset b k = (if k \<le> length b then Some (drop k b) else None)"

lemma cstr_terminated [simp]: "NUL \<notin> set t \<Longrightarrow> cstr (t @ NUL # r) = t"
  by (simp add: cstr_def takeWhile_neq_append)

lemma cstr_plain [simp]: "NUL \<notin> set t \<Longrightarrow> cstr t = t"
  by (simp add: cstr_def)

lemma cstr_simps [simp]: "cstr [] = []" "cstr (c # b) = (if c = NUL then [] else c # cstr b)"
  by (simp_all add: cstr_def)

lemma NUL_notin_cstr [simp]: "NUL \<notin> set (cstr b)"
  by (simp add: cstr_def)

lemma length_cstr_less: "NUL \<in> set b \<Longrightarrow> length (cstr b) < length b"
  by (simp add: cstr_def length_takeWhile_less)

lemma length_cstr_le: "length (cstr b) \<le> length b"
  by (simp add: cstr_def length_takeWhile_le)

lemma cstr_drop: "n \<le> length (cstr b) \<Longrightarrow> cstr (drop n b) = drop n (cstr b)"
  by (simp add: cstr_def takeWhile_neq_drop)

lemma NUL_in_drop: "NUL \<in> set b \<Longrightarrow> n \<le> length (cstr b) \<Longrightarrow> NUL \<in> set (drop n b)"
  by (simp add: cstr_def in_set_drop_takeWhile)

lemma cstr_prefix: "cstr b = take (length (cstr b)) b"
  unfolding cstr_def by (rule takeWhile_eq_take)

lemma c_strlen_Some: "NUL \<in> set b \<Longrightarrow> c_strlen b = Some (length (cstr b))"
  by (simp add: c_strlen_def)

lemma c_memcpy_Some:
  "n \<le> length dst \<Longrightarrow> n \<le> length src \<Longrightarrow> c_memcpy dst src n = Some (take n src @ drop n dst)"
  by (simp add: c_memcpy_def)

lemma c_strncpy_Some:
  "n \<le> length dst \<Longrightarrow> NUL \<in> set src \<Longrightarrow>
   c_strncpy dst src n =
     Some (take n (cstr src) @ replicate (n - length (cstr src)) NUL @ drop n dst)"
  by (simp add: c_strncpy_def)

lemma length_c_memcpy: "c_memcpy dst src n = Some d \<Longrightarrow> length d = length dst"
  by (auto simp: c_memcpy_def split: if_splits)

lemma length_c_strncpy: "c_strncpy dst src n = Some d \<Longrightarrow> length d = length dst"
  by (auto simp: c_strncpy_def split: if_splits)

lemma length_c_store: "c_store b i c = Some d \<Longrightarrow> length d = length b"
  by (auto simp: c_store_def split: if_splits)

text \<open>What a bounded copy leaves in a buffer that is all NUL from the bound on.\<close>

lemma cstr_strncpy_zeroed:
  assumes "c_strncpy dst src n = Some d" and "n < length dst"
    and "drop n dst = replicate (length dst - n) NUL"
  shows "cstr d = take n (cstr src)"
proof -
  have d: "d = take n (cstr src) @ replicate (n - length (cstr src)) NUL @ replicate (length dst - n) NUL"
    using assms by (auto simp: c_strncpy_def split: if_splits)
  obtain k where k: "length dst - n = Suc k"
    using assms(2) by (cases "length dst - n") auto
  have "replicate (n - length (cstr src)) NUL @ replicate (length dst - n) NUL =
        NUL # replicate (n - length (cstr src) + k) NUL"
    by (simp add: k replicate_add replicate_app_Cons_same)
  moreover have "NUL \<notin> set (take n (cstr src))"
    using set_take_subset [of n "cstr src"] NUL_notin_cstr [of src] by blast
  ultimately show ?thesis
    by (simp add: d)
qed

text \<open>
  The idiom of a bounded copy into a zeroed array followed by a terminator in the last
  element: the prefix of the source, then NULs.
\<close>

lemma replicate_update_same: "(replicate n x)[i := x] = replicate n x"
  by (induction n arbitrary: i) (auto split: nat.split)

lemma strncpy_zeroed:
  assumes "NUL \<in> set src" and "k < n"
  shows "c_strncpy (replicate n NUL) src k =
    Some (take k (cstr src) @ replicate (n - min k (length (cstr src))) NUL)"
proof -
  have "k - length (cstr src) + (n - k) = n - min k (length (cstr src))"
    using assms(2) by auto
  then have "replicate (k - length (cstr src)) NUL @ replicate (n - k) NUL =
      replicate (n - min k (length (cstr src))) NUL"
    by (simp only: replicate_add [symmetric])
  then show ?thesis using assms by (simp add: c_strncpy_def)
qed

lemma store_last_zero:
  assumes "min k (length t) < n"
  shows "c_store (take k t @ replicate (n - min k (length t)) NUL) (n - 1) NUL =
    Some (take k t @ replicate (n - min k (length t)) NUL)"
  using assms by (auto simp: c_store_def list_update_append replicate_update_same min_def split: if_splits)

section \<open>Character classes and numbers\<close>

definition c_isspace :: "char \<Rightarrow> bool" where
  "c_isspace c \<longleftrightarrow> c \<in> {CHR '' '', CHR 0x09, CHR 0x0A, CHR 0x0B, CHR 0x0C, CHR 0x0D}"

definition c_isdigit :: "char \<Rightarrow> bool" where
  "c_isdigit c \<longleftrightarrow> 48 \<le> (of_char c :: nat) \<and> (of_char c :: nat) \<le> 57"

definition digit_value :: "char \<Rightarrow> nat" where
  "digit_value c = of_char c - 48"

definition decimal_value :: "char list \<Rightarrow> nat" where
  "decimal_value ds = foldl (\<lambda>n d. 10 * n + digit_value d) 0 ds"

text \<open>
  \<open>atoi\<close> as glibc has it, \<open>(int) strtol(s, NULL, 10)\<close>: leading white space, an optional
  sign, the longest run of digits, the value clamped to the 64-bit \<open>long\<close> and then
  reduced to a 32-bit \<open>int\<close>.
\<close>

definition strtol10 :: "char list \<Rightarrow> int" where
  "strtol10 s =
     (let t = dropWhile c_isspace (cstr s);
          neg = (t \<noteq> [] \<and> hd t = CHR ''-'');
          u = (if t \<noteq> [] \<and> (hd t = CHR ''-'' \<or> hd t = CHR ''+'') then tl t else t);
          v = int (decimal_value (takeWhile c_isdigit u));
          w = (if neg then - v else v)
      in max (- (2 ^ 63)) (min (2 ^ 63 - 1) w))"

definition c_atoi :: "char list \<Rightarrow> int" where
  "c_atoi s = sint (word_of_int (strtol10 s) :: 32 word)"

lemma char_of_digit_not_NUL:
  assumes "d < (10 :: nat)"
  shows "char_of (48 + d) \<noteq> NUL"
proof
  assume "char_of (48 + d) = NUL"
  then have "(of_char (char_of (48 + d) :: char) :: nat) = of_char NUL" by simp
  then show False using assms by simp
qed

fun show_nat :: "nat \<Rightarrow> char list" where
  "show_nat n = (if n < 10 then [char_of (48 + n)] else show_nat (n div 10) @ [char_of (48 + n mod 10)])"

declare show_nat.simps [simp del]

definition show_int :: "int \<Rightarrow> char list" where
  "show_int i = (if i < 0 then CHR ''-'' # show_nat (nat (- i)) else show_nat (nat i))"

text \<open>A field of two digits, as \<open>strftime\<close> prints months, days, hours, minutes and seconds.\<close>

definition show_2 :: "int \<Rightarrow> char list" where
  "show_2 i = [char_of (48 + nat i div 10 mod 10), char_of (48 + nat i mod 10)]"

lemma length_show_2 [simp]: "length (show_2 i) = 2"
  by (simp add: show_2_def)

section \<open>Broken-down time\<close>

text \<open>
  \<open>struct tm\<close> and the two \<open>strftime\<close> formats the program uses:
  \<open>%Y%m%d%H%M%S\<close> for message ids and \<open>%Y-%m-%d %H:%M:%S\<close> for log lines.
\<close>

record tm =
  tm_year :: int
  tm_mon :: int
  tm_mday :: int
  tm_hour :: int
  tm_min :: int
  tm_sec :: int

definition strftime_msg_id :: "tm \<Rightarrow> char list" where
  "strftime_msg_id t =
     show_int (tm_year t + 1900) @ show_2 (tm_mon t + 1) @ show_2 (tm_mday t)
       @ show_2 (tm_hour t) @ show_2 (tm_min t) @ show_2 (tm_sec t)"

definition strftime_log :: "tm \<Rightarrow> char list" where
  "strftime_log t =
     show_int (tm_year t + 1900) @ ''-'' @ show_2 (tm_mon t + 1) @ ''-'' @ show_2 (tm_mday t)
       @ '' '' @ show_2 (tm_hour t) @ '':'' @ show_2 (tm_min t) @ '':'' @ show_2 (tm_sec t)"

lemma length_strftime_msg_id:
  "length (strftime_msg_id t) = length (show_int (tm_year t + 1900)) + 10"
  by (simp add: strftime_msg_id_def)

lemma show_nat_4:
  assumes "1000 \<le> n" and "n < 10000"
  shows "show_nat n = [char_of (48 + n div 1000), char_of (48 + n div 100 mod 10),
    char_of (48 + n div 10 mod 10), char_of (48 + n mod 10)]"
proof -
  have "\<not> n < 10" and "\<not> n div 10 < 10" and "\<not> n div 100 < 10" and "n div 1000 < 10"
    using assms by linarith+
  then show ?thesis
    by (simp add: show_nat.simps [of n] show_nat.simps [of "n div 10"] show_nat.simps [of "n div 100"]
        show_nat.simps [of "n div 1000"] div_mult2_eq [symmetric])
qed

text \<open>A year of four digits, which is every year the calendar will see for a while.\<close>

lemma show_year_4:
  assumes "1000 \<le> y" and "y < 10000"
  shows "show_int y = [char_of (48 + nat y div 1000), char_of (48 + nat y div 100 mod 10),
    char_of (48 + nat y div 10 mod 10), char_of (48 + nat y mod 10)]"
proof -
  have "1000 \<le> nat y" and "nat y < 10000" using assms by auto
  then show ?thesis using assms by (simp add: show_int_def show_nat_4)
qed

lemma NUL_notin_show_year:
  assumes "1000 \<le> y" and "y < 10000"
  shows "NUL \<notin> set (show_int y)"
proof -
  have q: "nat y div 1000 < 10" using assms by auto
  have d: "(NUL = char_of (48 + d)) = False" if "d < (10 :: nat)" for d
    using char_of_digit_not_NUL [OF that] by metis
  show ?thesis
    unfolding show_year_4 [OF assms]
    by (simp only: list.set insert_iff empty_iff d q mod_less_divisor zero_less_numeral simp_thms)
qed

section \<open>Integers in memory\<close>

text \<open>The hosts the program is built for are little endian.\<close>

definition le16 :: "16 word \<Rightarrow> char list" where
  "le16 w = [char_of (unat w mod 256), char_of (unat w div 256)]"

definition of_le16 :: "char list \<Rightarrow> 16 word" where
  "of_le16 b = word_of_nat (of_char (b ! 0) + 256 * of_char (b ! 1))"

definition byte8 :: "8 word \<Rightarrow> char list" where
  "byte8 w = [char_of (unat w)]"

definition of_byte8 :: "char list \<Rightarrow> 8 word" where
  "of_byte8 b = word_of_nat (of_char (b ! 0))"

lemma length_le16 [simp]: "length (le16 w) = 2"
  and length_byte8 [simp]: "length (byte8 v) = 1"
  by (simp_all add: le16_def byte8_def)

lemma unat16_less: "unat (w :: 16 word) < 65536"
  using unsigned_less [of w] by simp

lemma unat8_less: "unat (w :: 8 word) < 256"
  using unsigned_less [of w] by simp

lemma of_le16_le16 [simp]: "of_le16 (le16 w @ r) = w"
  using unat16_less [of w] by (simp add: of_le16_def le16_def of_char_of)

lemma of_byte8_byte8 [simp]: "of_byte8 (byte8 w @ r) = w"
  using unat8_less [of w] by (simp add: of_byte8_def byte8_def of_char_of)

text \<open>\<open>htons\<close> exchanges the two bytes of its 16-bit argument.\<close>

definition htons :: "16 word \<Rightarrow> 16 word" where
  "htons w = word_of_nat (unat w mod 256 * 256 + unat w div 256)"

lemma unat_htons: "unat (htons w) = unat w mod 256 * 256 + unat w div 256"
proof -
  have "unat w mod 256 \<le> 255" and "unat w div 256 \<le> 255"
    using unat16_less [of w] by auto
  then have "unat w mod 256 * 256 + unat w div 256 < 65536" by linarith
  then show ?thesis
    unfolding htons_def unat_of_nat by simp
qed

lemma htons_htons [simp]: "htons (htons w) = w"
proof -
  have "unat w div 256 < 256" using unat16_less [of w] by auto
  then have "unat (htons (htons w)) = unat w"
    unfolding unat_htons [of "htons w"] unat_htons [of w]
    by (simp add: mod_mult_self3 div_mult_self3)
  then show ?thesis by (rule unsigned_word_eqI)
qed

end
