(* ===== verification/Quekka_Log.thy ===== *)
theory Quekka_Log
  imports Clib
begin

text \<open>
  The logger (\<^verbatim>\<open>src/quekka/Quekka_log.c\<close>, \<^verbatim>\<open>include/quekka/Quekka_log.h\<close>): the global
  \<open>g_logger\<close>, its mutex, the console (\<open>stderr\<close>) and the log files it appends to. Whether a
  file can be opened, the current time and the texts of \<open>strerror\<close> come from the
  system and are parameters.
\<close>

section \<open>Levels\<close>

datatype LogLevel = LOG_DEBUG | LOG_INFO | LOG_WARNING | LOG_ERROR | LOG_FATAL

primrec level_index :: "LogLevel \<Rightarrow> nat" where
  "level_index LOG_DEBUG = 0"
| "level_index LOG_INFO = 1"
| "level_index LOG_WARNING = 2"
| "level_index LOG_ERROR = 3"
| "level_index LOG_FATAL = 4"

text \<open>\<open>level < g_logger.level\<close> compares the underlying integers.\<close>

instantiation LogLevel :: linorder
begin

definition less_eq_LogLevel :: "LogLevel \<Rightarrow> LogLevel \<Rightarrow> bool" where
  "less_eq_LogLevel a b \<longleftrightarrow> level_index a \<le> level_index b"

definition less_LogLevel :: "LogLevel \<Rightarrow> LogLevel \<Rightarrow> bool" where
  "less_LogLevel a b \<longleftrightarrow> level_index a < level_index b"

instance
proof
  fix x y :: LogLevel
  show "x \<le> y \<Longrightarrow> y \<le> x \<Longrightarrow> x = y"
    by (cases x; cases y) (simp_all add: less_eq_LogLevel_def)
qed (auto simp: less_eq_LogLevel_def less_LogLevel_def)

end

definition level_strings :: "char list list" where
  "level_strings = [''DEBUG'', ''INFO'', ''WARNING'', ''ERROR'', ''FATAL'']"

definition level_colors :: "char list list" where
  "level_colors = [CHR 0x1B # ''[36m'', CHR 0x1B # ''[32m'', CHR 0x1B # ''[33m'',
     CHR 0x1B # ''[31m'', CHR 0x1B # ''[35m'']"

definition color_reset :: "char list" where
  "color_reset = CHR 0x1B # ''[0m''"

section \<open>Formatting\<close>

text \<open>
  The values passed to a log call: integers, strings, the text of \<open>strerror(e)\<close> and the
  dotted form of an address (\<open>inet_ntoa\<close>).
\<close>

datatype log_arg =
    Int_arg int
  | Str_arg "char list"
  | Strerror_arg int
  | Inet_ntoa_arg "8 word list"

fun dotted :: "8 word list \<Rightarrow> char list" where
  "dotted [] = []"
| "dotted [b] = show_nat (unat b)"
| "dotted (b # bs) = show_nat (unat b) @ ''.'' @ dotted bs"

primrec arg_text :: "(int \<Rightarrow> char list) \<Rightarrow> log_arg \<Rightarrow> char list option" where
  "arg_text e (Int_arg i) = None"
| "arg_text e (Str_arg t) = Some t"
| "arg_text e (Strerror_arg n) = Some (e n)"
| "arg_text e (Inet_ntoa_arg bs) = Some (dotted bs)"

primrec arg_int :: "log_arg \<Rightarrow> int option" where
  "arg_int (Int_arg i) = Some i"
| "arg_int (Str_arg t) = None"
| "arg_int (Strerror_arg n) = None"
| "arg_int (Inet_ntoa_arg bs) = None"

text \<open>
  \<open>vfprintf\<close> on the conversions the program uses (\<open>%s\<close>, \<open>%d\<close>, \<open>%ld\<close>, \<open>%%\<close>): the text and
  the arguments left. \<open>None\<close> when an argument is missing or of the wrong type.
\<close>

fun vformat :: "(int \<Rightarrow> char list) \<Rightarrow> char list \<Rightarrow> log_arg list \<Rightarrow> (char list \<times> log_arg list) option" where
  "vformat e [] as = Some ([], as)"
| "vformat e [c] as = (if c = CHR ''%'' then None else Some ([c], as))"
| "vformat e (c # d # f) as =
     (if c \<noteq> CHR ''%'' then map_option (apfst (Cons c)) (vformat e (d # f) as)
      else if d = CHR ''%'' then map_option (apfst (Cons d)) (vformat e f as)
      else if d = CHR ''s'' then
        (case as of [] \<Rightarrow> None
         | a # as' \<Rightarrow> (case arg_text e a of None \<Rightarrow> None
             | Some t \<Rightarrow> map_option (apfst (append t)) (vformat e f as')))
      else if d = CHR ''d'' \<or> d = CHR ''l'' \<and> f \<noteq> [] \<and> hd f = CHR ''d'' then
        (case as of [] \<Rightarrow> None
         | a # as' \<Rightarrow> (case arg_int a of None \<Rightarrow> None
             | Some i \<Rightarrow> map_option (apfst (append (show_int i)))
                          (vformat e (if d = CHR ''d'' then f else tl f) as')))
      else None)"

text \<open>
  A \<open>va_list\<close> is indeterminate (\<open>None\<close>) once a \<open>vfprintf\<close> has taken an argument from it:
  C11 7.16p3 allows it only to be passed to \<open>va_end\<close> after that.
\<close>

type_synonym va_list = "log_arg list option"

definition vfprintf_args ::
    "(int \<Rightarrow> char list) \<Rightarrow> char list \<Rightarrow> va_list \<Rightarrow> (char list \<times> va_list) option" where
  "vfprintf_args e fmt va =
     (case va of
        None \<Rightarrow> map_option (\<lambda>(out, _). (out, None)) (vformat e fmt [])
      | Some as \<Rightarrow> map_option (\<lambda>(out, rest). (out, if length rest < length as then None else Some as))
                   (vformat e fmt as))"

lemma vformat_rest: "vformat e f as = Some (out, rest) \<Longrightarrow> length rest \<le> length as"
  by (induction e f as arbitrary: out rule: vformat.induct)
     (force split: if_splits list.splits option.splits)+

text \<open>A format that needs an argument gets none from an empty list.\<close>

lemma vformat_Nil_rest: "vformat e f [] = Some (out, rest) \<Longrightarrow> rest = []"
  using vformat_rest [of e f "[]" out rest] by simp

lemma vformat_takes_args:
  "vformat e f [] = Some (out, rest) \<Longrightarrow> vformat e f as = Some (out, as)"
  by (induction e f "[] :: log_arg list" arbitrary: out rest rule: vformat.induct)
     (force split: if_splits)+

section \<open>The logger's state\<close>

record Logger =
  lg_file :: "char list option"
  lg_level :: LogLevel
  lg_console_output :: int
  lg_file_output :: int
  lg_filename :: "char list"

definition MAX_FILENAME_LEN :: nat where
  "MAX_FILENAME_LEN = 256"

text \<open>
  The open \<open>FILE*\<close> is the path it was opened at. The world is the logger, its mutex
  and what the logger has written to \<open>stderr\<close> and to the files.
\<close>

record log_world =
  g_logger :: Logger
  log_mutex :: bool
  console :: "char list"
  disk :: "char list \<Rightarrow> char list option"

definition g_logger_initial :: Logger where
  "g_logger_initial =
     \<lparr>lg_file = None, lg_level = LOG_INFO, lg_console_output = 1, lg_file_output = 1,
      lg_filename = replicate MAX_FILENAME_LEN NUL\<rparr>"

type_synonym 'a logging = "(log_world, 'a) prog"

definition mutex_lock :: "unit logging" where
  "mutex_lock =
     bind_c (get_c log_mutex) (\<lambda>held.
       if held then fault_c Deadlock else modify_c (\<lambda>w. w\<lparr>log_mutex := True\<rparr>))"

definition mutex_unlock :: "unit logging" where
  "mutex_unlock = modify_c (\<lambda>w. w\<lparr>log_mutex := False\<rparr>)"

definition set_logger :: "(Logger \<Rightarrow> Logger) \<Rightarrow> unit logging" where
  "set_logger f = modify_c (\<lambda>w. w\<lparr>g_logger := f (g_logger w)\<rparr>)"

definition put_console :: "char list \<Rightarrow> unit logging" where
  "put_console t = modify_c (\<lambda>w. w\<lparr>console := console w @ t\<rparr>)"

definition put_file :: "char list \<Rightarrow> char list \<Rightarrow> unit logging" where
  "put_file path t =
     modify_c (\<lambda>w. w\<lparr>disk := (disk w)(path \<mapsto> (case disk w path of None \<Rightarrow> [] | Some c \<Rightarrow> c) @ t)\<rparr>)"

definition logger_set_level :: "LogLevel \<Rightarrow> unit logging" where
  "logger_set_level level =
     then_c mutex_lock (then_c (set_logger (\<lambda>l. l\<lparr>lg_level := level\<rparr>)) mutex_unlock)"

definition logger_enable_console :: "int \<Rightarrow> unit logging" where
  "logger_enable_console enable =
     then_c mutex_lock (then_c (set_logger (\<lambda>l. l\<lparr>lg_console_output := enable\<rparr>)) mutex_unlock)"

definition logger_enable_file :: "int \<Rightarrow> unit logging" where
  "logger_enable_file enable =
     then_c mutex_lock (then_c (set_logger (\<lambda>l. l\<lparr>lg_file_output := enable\<rparr>)) mutex_unlock)"

definition close_log_file :: "unit logging" where
  "close_log_file =
     bind_c (get_c (\<lambda>w. lg_file (g_logger w))) (\<lambda>f.
       if f \<noteq> None then set_logger (\<lambda>l. l\<lparr>lg_file := None\<rparr>) else return_c ())"

definition logger_close :: "unit logging" where
  "logger_close = then_c mutex_lock (then_c close_log_file mutex_unlock)"

section \<open>\<open>logger_init\<close>\<close>

definition utf8_bom :: "char list" where
  "utf8_bom = [CHR 0xEF, CHR 0xBB, CHR 0xBF]"

text \<open>\<open>fopen(path, "a")\<close>: an existing file is kept, a missing one is created empty.\<close>

definition fopen_append :: "(char list \<Rightarrow> bool) \<Rightarrow> char list \<Rightarrow> bool logging" where
  "fopen_append can_open path =
     (if can_open path then then_c (put_file path []) (return_c True) else return_c False)"

definition open_log_file :: "(char list \<Rightarrow> bool) \<Rightarrow> char list \<Rightarrow> unit logging" where
  "open_log_file can_open filename =
     bind_c (get_c (\<lambda>w. lg_filename (g_logger w))) (\<lambda>old.
     bind_c (require_c Out_of_bounds (c_strncpy old filename (MAX_FILENAME_LEN - 1))) (\<lambda>b.
     bind_c (require_c Out_of_bounds (c_store b (MAX_FILENAME_LEN - 1) NUL)) (\<lambda>b'.
     then_c (set_logger (\<lambda>l. l\<lparr>lg_filename := b'\<rparr>))
     (let path = cstr b' in
      bind_c (fopen_append can_open path) (\<lambda>opened.
        if \<not> opened then
          then_c (put_console (''Failed to open log file: '' @ path @ [CHR 0x0A]))
            (set_logger (\<lambda>l. l\<lparr>lg_file := None, lg_file_output := 0\<rparr>))
        else
          then_c (set_logger (\<lambda>l. l\<lparr>lg_file := Some path\<rparr>))
            (bind_c (get_c (\<lambda>w. disk w path)) (\<lambda>c.
               if c = Some [] then put_file path utf8_bom else return_c ())))))))"

definition logger_init :: "(char list \<Rightarrow> bool) \<Rightarrow> char list option \<Rightarrow> LogLevel \<Rightarrow> unit logging" where
  "logger_init can_open filename level =
     then_c mutex_lock
     (then_c close_log_file
     (then_c
       (case filename of
          None \<Rightarrow> return_c ()
        | Some f \<Rightarrow>
            bind_c (require_c Unterminated (c_strlen f)) (\<lambda>n.
              if n > 0 then open_log_file can_open f else return_c ()))
     (then_c (set_logger (\<lambda>l. l\<lparr>lg_level := level\<rparr>))
      mutex_unlock)))"

section \<open>\<open>log_write\<close>\<close>

definition basename :: "char list \<Rightarrow> char list" where
  "basename file = rev (takeWhile (\<lambda>c. c \<noteq> CHR ''/'') (rev file))"

definition log_prefix ::
    "LogLevel \<Rightarrow> char list \<Rightarrow> char list \<Rightarrow> char list \<Rightarrow> int \<Rightarrow> char list" where
  "log_prefix level time_str file func line =
     ''['' @ time_str @ ''] ['' @ level_strings ! level_index level @ ''] ['' @ func @ ''] [''
       @ basename file @ '':'' @ show_int line @ '']''"

definition log_write ::
    "(int \<Rightarrow> char list) \<Rightarrow> tm option \<Rightarrow> LogLevel \<Rightarrow> char list \<Rightarrow> char list \<Rightarrow> int \<Rightarrow>
     char list \<Rightarrow> log_arg list \<Rightarrow> unit logging" where
  "log_write e now level file func line fmt as =
     bind_c (get_c (\<lambda>w. lg_level (g_logger w))) (\<lambda>threshold.
     if level < threshold then return_c () else
     then_c mutex_lock
     (bind_c (require_c Null_deref now) (\<lambda>t.
      let prefix = log_prefix level (strftime_log t) file func line in
      bind_c (get_c (\<lambda>w. lg_console_output (g_logger w))) (\<lambda>con.
      bind_c
        (if con \<noteq> 0 then
           then_c (put_console (level_colors ! level_index level @ prefix @ color_reset @ '' ''))
             (bind_c (require_c Bad_arguments (vfprintf_args e fmt (Some as))) (\<lambda>(out, va).
                then_c (put_console (out @ [CHR 0x0A])) (return_c va)))
         else return_c (Some as)) (\<lambda>va.
      bind_c (get_c (\<lambda>w. (lg_file_output (g_logger w), lg_file (g_logger w)))) (\<lambda>(on, f).
      then_c
        (case f of
           None \<Rightarrow> return_c ()
         | Some path \<Rightarrow>
             if on \<noteq> 0 then
               then_c (put_file path (prefix @ '' ''))
                 (bind_c (require_c Bad_arguments (vfprintf_args e fmt va)) (\<lambda>(out, _).
                    put_file path (out @ [CHR 0x0A])))
             else return_c ())
        mutex_unlock))))))"

section \<open>Properties\<close>

text \<open>A log line as a value, and what the console and the file show of it.\<close>

record log_line =
  ll_level :: LogLevel
  ll_file :: "char list"
  ll_func :: "char list"
  ll_line :: int
  ll_fmt :: "char list"
  ll_args :: "log_arg list"

definition write_line :: "(int \<Rightarrow> char list) \<Rightarrow> tm option \<Rightarrow> log_line \<Rightarrow> unit logging" where
  "write_line e now l = log_write e now (ll_level l) (ll_file l) (ll_func l) (ll_line l) (ll_fmt l) (ll_args l)"

definition line_body :: "(int \<Rightarrow> char list) \<Rightarrow> log_line \<Rightarrow> char list option" where
  "line_body e l = map_option fst (vformat e (ll_fmt l) (ll_args l))"

definition line_prefix :: "tm \<Rightarrow> log_line \<Rightarrow> char list" where
  "line_prefix t l = log_prefix (ll_level l) (strftime_log t) (ll_file l) (ll_func l) (ll_line l)"

definition console_text :: "(int \<Rightarrow> char list) \<Rightarrow> tm \<Rightarrow> log_line \<Rightarrow> char list" where
  "console_text e t l = level_colors ! level_index (ll_level l) @ line_prefix t l @ color_reset @ '' ''
     @ the (line_body e l) @ [CHR 0x0A]"

definition file_text :: "(int \<Rightarrow> char list) \<Rightarrow> tm \<Rightarrow> log_line \<Rightarrow> char list" where
  "file_text e t l = line_prefix t l @ '' '' @ the (line_body e l) @ [CHR 0x0A]"

definition shown :: "log_world \<Rightarrow> log_line \<Rightarrow> bool" where
  "shown w l \<longleftrightarrow> lg_level (g_logger w) \<le> ll_level l"

lemma not_shown: "\<not> shown w l \<Longrightarrow> write_line e now l w = (Ret (), w)"
  by (auto simp: write_line_def log_write_def run_simps shown_def not_le)

lemma shown_not_less: "shown w l \<Longrightarrow> \<not> ll_level l < lg_level (g_logger w)"
  by (simp add: shown_def)

lemmas log_run_simps = run_simps mutex_lock_def mutex_unlock_def set_logger_def put_console_def put_file_def

lemma write_line_console:
  assumes "shown w l" and "\<not> log_mutex w" and "lg_console_output (g_logger w) \<noteq> 0"
    and "lg_file_output (g_logger w) = 0 \<or> lg_file (g_logger w) = None" and "line_body e l \<noteq> None"
  shows "write_line e (Some t) l w = (Ret (), w\<lparr>console := console w @ console_text e t l\<rparr>)"
proof -
  obtain out rest where v: "vformat e (ll_fmt l) (ll_args l) = Some (out, rest)"
    using assms(5) by (auto simp: line_body_def)
  have "w\<lparr>log_mutex := False\<rparr> = w" using assms(2) by simp
  then show ?thesis
    using assms shown_not_less [OF assms(1)]
    by (auto simp: write_line_def log_write_def log_run_simps vfprintf_args_def v console_text_def
        line_prefix_def line_body_def Let_def split: option.split)
qed

text \<open>
  A console logger shows exactly the lines at or above its level, in order, each as
  colour, time, level, function, file name without its path, line number and formatted
  message; every call returns and leaves the logger, the files and the mutex as they were.
\<close>

theorem log_console_session:
  assumes "\<not> log_mutex w" and "lg_console_output (g_logger w) \<noteq> 0"
    and "lg_file_output (g_logger w) = 0 \<or> lg_file (g_logger w) = None"
    and "\<forall>l \<in> set ls. line_body e l \<noteq> None"
  shows "skip_all (map (write_line e (Some t)) ls) w =
    (Ret (), w\<lparr>console := console w @ concat (map (console_text e t) (filter (shown w) ls))\<rparr>)"
  using assms
proof (induction ls arbitrary: w)
  case (Cons l ls)
  have sh: "shown (w\<lparr>console := x\<rparr>) = shown w" for x by (rule ext) (simp add: shown_def)
  show ?case
  proof (cases "shown w l")
    case True
    then show ?thesis
      using Cons.prems Cons.IH [of "w\<lparr>console := console w @ console_text e t l\<rparr>"] write_line_console [OF True, of e t]
      by (simp add: run_simps sh)
  next
    case False
    then show ?thesis using Cons.prems Cons.IH [of w] not_shown [OF False] by (simp add: run_simps)
  qed
qed (simp add: run_simps)

text \<open>
  With both outputs on, a log call whose format has a conversion is undefined: the
  console line is written, the prefix of the file line too, then the second \<open>vfprintf\<close>
  takes an argument from a \<open>va_list\<close> the first one has used up, with the mutex held.
\<close>

theorem log_write_reuses_va_list:
  assumes "shown w l" and "\<not> log_mutex w" and "lg_console_output (g_logger w) \<noteq> 0"
    and "lg_file_output (g_logger w) \<noteq> 0" and "lg_file (g_logger w) = Some path"
    and "vformat e (ll_fmt l) (ll_args l) = Some (out, rest)" and "length rest < length (ll_args l)"
  shows "\<exists>w'. write_line e (Some t) l w = (Fault Bad_arguments, w') \<and> log_mutex w' \<and>
    console w' = console w @ console_text e t l"
proof -
  have "vformat e (ll_fmt l) [] = None"
  proof (cases "vformat e (ll_fmt l) []")
    case (Some y)
    then have "vformat e (ll_fmt l) (ll_args l) = Some (fst y, ll_args l)"
      by (cases y) (auto dest: vformat_takes_args)
    then show ?thesis using assms(6,7) by simp
  qed
  then show ?thesis
    using assms shown_not_less [OF assms(1)]
    by (simp add: write_line_def log_write_def log_run_simps vfprintf_args_def console_text_def
        line_prefix_def line_body_def Let_def)
qed

text \<open>
  With one output off, or with a format that has no conversion, a log call behaves: it
  adds one line to each output that is on, and to nothing else, and releases the mutex.
\<close>

theorem log_write_outputs:
  assumes "shown w l" and "\<not> log_mutex w" and "lg_file_output (g_logger w) \<noteq> 0"
    and "lg_file (g_logger w) = Some path" and "vformat e (ll_fmt l) (ll_args l) = Some (out, rest)"
    and "lg_console_output (g_logger w) = 0 \<or> rest = ll_args l"
    and "disk w path = Some old"
  shows "write_line e (Some t) l w = (Ret (),
    w\<lparr>console := (if lg_console_output (g_logger w) = 0 then console w else console w @ console_text e t l),
      disk := (disk w)(path \<mapsto> old @ file_text e t l)\<rparr>)"
proof -
  have "w\<lparr>log_mutex := False\<rparr> = w" using assms(2) by simp
  then show ?thesis
    using assms shown_not_less [OF assms(1)]
    by (auto simp: write_line_def log_write_def log_run_simps vfprintf_args_def console_text_def file_text_def
        line_prefix_def line_body_def Let_def)
qed

text \<open>What \<open>logger_init\<close> does with a path.\<close>

lemma log_steps_run:
  "\<not> log_mutex w \<Longrightarrow> mutex_lock w = (Ret (), w\<lparr>log_mutex := True\<rparr>)"
  "mutex_unlock w = (Ret (), w\<lparr>log_mutex := False\<rparr>)"
  "set_logger f w = (Ret (), w\<lparr>g_logger := f (g_logger w)\<rparr>)"
  "put_console u w = (Ret (), w\<lparr>console := console w @ u\<rparr>)"
  "put_file path u w = (Ret (), w\<lparr>disk := (disk w)(path \<mapsto> (case disk w path of None \<Rightarrow> [] | Some c \<Rightarrow> c) @ u)\<rparr>)"
  by (simp_all add: log_run_simps)

lemma close_log_file_run: "close_log_file w = (Ret (), w\<lparr>g_logger := (g_logger w)\<lparr>lg_file := None\<rparr>\<rparr>)"
  by (simp add: close_log_file_def log_run_simps)

definition with_bom :: "char list option \<Rightarrow> char list" where
  "with_bom old = (if old = None \<or> old = Some [] then utf8_bom else the old)"

lemma open_log_file_run:
  assumes "NUL \<in> set f" and "length (cstr f) \<le> 255" and "length (lg_filename (g_logger w)) = 256"
  shows "\<exists>b. length b = 256 \<and> cstr b = cstr f \<and> open_log_file can_open f w = (Ret (),
    if can_open (cstr f) then
      w\<lparr>g_logger := (g_logger w)\<lparr>lg_filename := b, lg_file := Some (cstr f)\<rparr>,
        disk := (disk w)(cstr f \<mapsto> with_bom (disk w (cstr f)))\<rparr>
    else
      w\<lparr>g_logger := (g_logger w)\<lparr>lg_filename := b, lg_file := None, lg_file_output := 0\<rparr>,
        console := console w @ ''Failed to open log file: '' @ cstr f @ [CHR 0x0A]\<rparr>)"
proof -
  let ?tail = "drop 255 (lg_filename (g_logger w))"
  let ?copy = "cstr f @ replicate (255 - length (cstr f)) NUL @ ?tail"
  define b where "b = ?copy[255 := NUL]"
  have len: "length b = 256" using assms by (simp add: b_def)
  have "?tail = [last (lg_filename (g_logger w))]"
    using assms(3) by (cases "lg_filename (g_logger w)" rule: rev_cases) auto
  then have "b = cstr f @ NUL # replicate (255 - length (cstr f)) NUL"
    using assms(2) by (simp add: b_def list_update_append replicate_app_Cons_same)
  then have c: "cstr b = cstr f" by (metis NUL_notin_cstr cstr_terminated)
  have b: "c_strncpy (lg_filename (g_logger w)) f 255 = Some ?copy"
    using assms by (simp add: c_strncpy_Some)
  have b': "c_store ?copy 255 NUL = Some b"
    using assms by (simp add: c_store_def b_def)
  have "open_log_file can_open f w = (Ret (),
    if can_open (cstr f) then
      w\<lparr>g_logger := (g_logger w)\<lparr>lg_filename := b, lg_file := Some (cstr f)\<rparr>,
        disk := (disk w)(cstr f \<mapsto> with_bom (disk w (cstr f)))\<rparr>
    else
      w\<lparr>g_logger := (g_logger w)\<lparr>lg_filename := b, lg_file := None, lg_file_output := 0\<rparr>,
        console := console w @ ''Failed to open log file: '' @ cstr f @ [CHR 0x0A]\<rparr>)"
    by (cases "disk w (cstr f)")
      (simp_all add: open_log_file_def fopen_append_def run_simps log_steps_run MAX_FILENAME_LEN_def b b' c
        with_bom_def Let_def)
  then show ?thesis using len c by blast
qed

lemma logger_init_run:
  assumes "\<not> log_mutex w" and "NUL \<in> set f" and "cstr f \<noteq> []" and "length (cstr f) \<le> 255"
    and "length (lg_filename (g_logger w)) = 256"
  shows "\<exists>b. length b = 256 \<and> cstr b = cstr f \<and> logger_init can_open (Some f) level w = (Ret (),
    if can_open (cstr f) then
      w\<lparr>g_logger := (g_logger w)\<lparr>lg_filename := b, lg_file := Some (cstr f), lg_level := level\<rparr>,
        disk := (disk w)(cstr f \<mapsto> with_bom (disk w (cstr f)))\<rparr>
    else
      w\<lparr>g_logger := (g_logger w)\<lparr>lg_filename := b, lg_file := None, lg_file_output := 0, lg_level := level\<rparr>,
        console := console w @ ''Failed to open log file: '' @ cstr f @ [CHR 0x0A]\<rparr>)"
proof -
  let ?w = "w\<lparr>log_mutex := True, g_logger := (g_logger w)\<lparr>lg_file := None\<rparr>\<rparr>"
  have "length (lg_filename (g_logger ?w)) = 256" using assms(5) by simp
  from open_log_file_run [OF assms(2,4) this, of can_open]
  obtain b where b: "length b = 256" "cstr b = cstr f" and run: "open_log_file can_open f ?w = (Ret (),
    if can_open (cstr f) then
      ?w\<lparr>g_logger := (g_logger ?w)\<lparr>lg_filename := b, lg_file := Some (cstr f)\<rparr>,
        disk := (disk ?w)(cstr f \<mapsto> with_bom (disk ?w (cstr f)))\<rparr>
    else
      ?w\<lparr>g_logger := (g_logger ?w)\<lparr>lg_filename := b, lg_file := None, lg_file_output := 0\<rparr>,
        console := console ?w @ ''Failed to open log file: '' @ cstr f @ [CHR 0x0A]\<rparr>)"
    by blast
  have m: "w\<lparr>log_mutex := False, g_logger := x, disk := y\<rparr> = w\<lparr>g_logger := x, disk := y\<rparr>"
    "w\<lparr>log_mutex := False, g_logger := x, console := z\<rparr> = w\<lparr>g_logger := x, console := z\<rparr>" for x y z
    using assms(1) by simp_all
  have m': "w\<lparr>g_logger := x, log_mutex := False\<rparr> = w\<lparr>log_mutex := False, g_logger := x\<rparr>" for x by simp
  from b run assms show ?thesis
    by (intro exI [of _ b])
      (simp add: logger_init_def run_simps log_steps_run close_log_file_run c_strlen_Some)
qed

text \<open>
  \<open>logger_init\<close> with a path of 1 to 255 characters opens that file for appending: old
  content stays, a new or empty file starts with the three bytes of the UTF-8 mark, written
  once however often the file is opened again.
\<close>

theorem logger_init_opens:
  assumes "\<not> log_mutex w" and "NUL \<in> set f" and "cstr f \<noteq> []" and "length (cstr f) \<le> 255"
    and "length (lg_filename (g_logger w)) = 256" and "can_open (cstr f)"
  shows "\<exists>w1 w2. logger_init can_open (Some f) level w = (Ret (), w1) \<and>
    logger_init can_open (Some f) level w1 = (Ret (), w2) \<and> disk w2 = disk w1 \<and>
    lg_file (g_logger w1) = Some (cstr f) \<and> lg_level (g_logger w1) = level \<and> \<not> log_mutex w1 \<and>
    disk w1 = (disk w)(cstr f \<mapsto> (if disk w (cstr f) \<in> {None, Some []} then utf8_bom else the (disk w (cstr f))))"
proof -
  obtain b w1 where 1: "length b = 256" "logger_init can_open (Some f) level w = (Ret (), w1)"
    "w1 = w\<lparr>g_logger := (g_logger w)\<lparr>lg_filename := b, lg_file := Some (cstr f), lg_level := level\<rparr>,
        disk := (disk w)(cstr f \<mapsto> with_bom (disk w (cstr f)))\<rparr>"
    using logger_init_run [OF assms(1-5), of can_open level] assms(6) by auto
  have "\<not> log_mutex w1" "length (lg_filename (g_logger w1)) = 256" using 1 assms(1) by simp_all
  from logger_init_run [OF this(1) assms(2-4) this(2), of can_open level] assms(6)
  obtain b' w2 where 2: "logger_init can_open (Some f) level w1 = (Ret (), w2)"
    "disk w2 = (disk w1)(cstr f \<mapsto> with_bom (disk w1 (cstr f)))" by auto
  have "disk w2 = disk w1" unfolding 2(2) by (cases "disk w (cstr f)") (auto simp: 1(3) with_bom_def utf8_bom_def)
  then show ?thesis using 1 2(1) assms(1) by (auto simp: with_bom_def)
qed

text \<open>
  One failed \<open>fopen\<close> turns file output off for good: \<open>logger_init\<close> then clears
  \<open>file_output\<close> and no later successful \<open>logger_init\<close> sets it again, so the file is opened
  and log lines never reach it, until someone calls \<open>logger_enable_file\<close>.
\<close>

theorem failed_open_disables_file:
  assumes "\<not> log_mutex w" and "NUL \<in> set f" and "cstr f \<noteq> []" and "length (cstr f) \<le> 255"
    and "NUL \<in> set g" and "cstr g \<noteq> []" and "length (cstr g) \<le> 255"
    and "length (lg_filename (g_logger w)) = 256" and "\<not> can_open (cstr f)" and "can_open (cstr g)"
    and "lg_console_output (g_logger w) \<noteq> 0" and "line_body e l \<noteq> None"
  shows "\<exists>w1 w2 w3. logger_init can_open (Some f) level w = (Ret (), w1) \<and>
    logger_init can_open (Some g) level w1 = (Ret (), w2) \<and> lg_file (g_logger w2) = Some (cstr g) \<and>
    write_line e (Some t) l w2 = (Ret (), w3) \<and> disk w3 = disk w2"
proof -
  obtain b w1 where 1: "length b = 256" "logger_init can_open (Some f) level w = (Ret (), w1)"
    "g_logger w1 = (g_logger w)\<lparr>lg_filename := b, lg_file := None, lg_file_output := 0, lg_level := level\<rparr>"
    "\<not> log_mutex w1"
    using logger_init_run [OF assms(1-4,8), of can_open level] assms(1,9) by auto
  have "length (lg_filename (g_logger w1)) = 256" using 1 by simp
  from logger_init_run [OF 1(4) assms(5-7) this, of can_open level] assms(10) 1(4)
  obtain b' w2 where 2: "logger_init can_open (Some g) level w1 = (Ret (), w2)"
    "g_logger w2 = (g_logger w1)\<lparr>lg_filename := b', lg_file := Some (cstr g), lg_level := level\<rparr>" "\<not> log_mutex w2"
    by auto
  have "\<exists>w3. write_line e (Some t) l w2 = (Ret (), w3) \<and> disk w3 = disk w2"
  proof (cases "shown w2 l")
    case True
    have "lg_console_output (g_logger w2) \<noteq> 0" "lg_file_output (g_logger w2) = 0 \<or> lg_file (g_logger w2) = None"
      using 1(3) 2(2) assms(11) by simp_all
    from write_line_console [OF True 2(3) this assms(12), of t] show ?thesis by simp
  next
    case False
    from not_shown [OF this] show ?thesis by simp
  qed
  then show ?thesis using 1(2) 2(1,2) by auto
qed

text \<open>The operations of the logger as a data type, to speak of any of them.\<close>

datatype log_op =
    Op_init "char list \<Rightarrow> bool" "char list option" LogLevel
  | Op_set_level LogLevel
  | Op_enable_console int
  | Op_enable_file int
  | Op_close
  | Op_write "int \<Rightarrow> char list" "tm option" log_line

primrec run_op :: "log_op \<Rightarrow> unit logging" where
  "run_op (Op_init can f lv) = logger_init can f lv"
| "run_op (Op_set_level lv) = logger_set_level lv"
| "run_op (Op_enable_console n) = logger_enable_console n"
| "run_op (Op_enable_file n) = logger_enable_file n"
| "run_op Op_close = logger_close"
| "run_op (Op_write e now l) = write_line e now l"

primrec takes_text :: "log_op \<Rightarrow> bool" where
  "takes_text (Op_init can f lv) = (f \<noteq> None)"
| "takes_text (Op_set_level lv) = False"
| "takes_text (Op_enable_console n) = False"
| "takes_text (Op_enable_file n) = False"
| "takes_text Op_close = False"
| "takes_text (Op_write e now l) = True"

primrec filtered :: "log_world \<Rightarrow> log_op \<Rightarrow> bool" where
  "filtered w (Op_init can f lv) = False"
| "filtered w (Op_set_level lv) = False"
| "filtered w (Op_enable_console n) = False"
| "filtered w (Op_enable_file n) = False"
| "filtered w Op_close = False"
| "filtered w (Op_write e now l) = (\<not> shown w l)"

text \<open>A piece of code that neither exits nor loops, and one that in addition releases the mutex.\<close>

definition tame :: "'a logging \<Rightarrow> bool" where
  "tame m \<longleftrightarrow> (\<forall>w. (\<exists>x u. m w = (Ret x, u)) \<or> (\<exists>f u. m w = (Fault f, u)))"

definition releases :: "unit logging \<Rightarrow> bool" where
  "releases m \<longleftrightarrow> (\<forall>w. (\<exists>u. m w = (Ret (), u) \<and> \<not> log_mutex u) \<or> (\<exists>f u. m w = (Fault f, u)))"

lemma tame_steps [intro, simp]:
  "tame (return_c x)" "tame (fault_c f)" "tame (get_c g)" "tame (modify_c h)" "tame (require_c f v)"
  by (cases v; auto simp: tame_def run_simps)+

lemma tame_bind [intro]:
  assumes "tame m" and "\<And>x. tame (k x)"
  shows "tame (bind_c m k)"
  unfolding tame_def
proof
  fix w
  from assms(1) consider x u where "m w = (Ret x, u)" | f u where "m w = (Fault f, u)"
    unfolding tame_def by blast
  then show "(\<exists>x u. bind_c m k w = (Ret x, u)) \<or> (\<exists>f u. bind_c m k w = (Fault f, u))"
  proof cases
    case (1 x u)
    with assms(2) [of x] show ?thesis by (auto simp: tame_def run_simps)
  qed (auto simp: run_simps)
qed

lemma releases_bind [intro]:
  assumes "tame m" and "\<And>x. releases (k x)"
  shows "releases (bind_c m k)"
  unfolding releases_def
proof
  fix w
  from assms(1) consider x u where "m w = (Ret x, u)" | f u where "m w = (Fault f, u)"
    unfolding tame_def by blast
  then show "(\<exists>u. bind_c m k w = (Ret (), u) \<and> \<not> log_mutex u) \<or> (\<exists>f u. bind_c m k w = (Fault f, u))"
  proof cases
    case (1 x u)
    with assms(2) [of x] show ?thesis by (auto simp: releases_def run_simps)
  qed (auto simp: run_simps)
qed

lemma tame_then [intro]: "tame m \<Longrightarrow> tame k \<Longrightarrow> tame (then_c m k)"
  and releases_then [intro]: "tame m \<Longrightarrow> releases p \<Longrightarrow> releases (then_c m p)"
  by (auto simp: then_c_def)

lemma tame_split [intro]:
  "(b \<Longrightarrow> tame m) \<Longrightarrow> (\<not> b \<Longrightarrow> tame k) \<Longrightarrow> tame (if b then m else k)"
  "tame m' \<Longrightarrow> (\<And>x. tame (g x)) \<Longrightarrow> tame (case v of None \<Rightarrow> m' | Some x \<Rightarrow> g x)"
  "(\<And>x y. tame (f' x y)) \<Longrightarrow> tame (case p of (x, y) \<Rightarrow> f' x y)"
  by (auto split: option.split prod.split)

lemma releases_split [intro]:
  "(\<And>x y. releases (f x y)) \<Longrightarrow> releases (case p of (x, y) \<Rightarrow> f x y)"
  by (auto split: prod.split)

lemma releases_unlock [intro, simp]: "releases mutex_unlock"
  by (simp add: releases_def log_steps_run)

lemma tame_log_steps [intro, simp]:
  "tame (set_logger f)" "tame (put_console u)" "tame (put_file path u)" "tame close_log_file"
  by (auto simp: set_logger_def put_console_def put_file_def close_log_file_def)

lemmas tame_rules = tame_bind tame_then tame_split tame_steps tame_log_steps

lemma tame_open_log_file [intro, simp]: "tame (open_log_file can file)"
  unfolding open_log_file_def fopen_append_def Let_def by (intro tame_rules)

lemma locked_op:
  "\<not> log_mutex w \<Longrightarrow> releases m \<Longrightarrow>
   (\<exists>u. then_c mutex_lock m w = (Ret (), u) \<and> \<not> log_mutex u) \<or> (\<exists>f u. then_c mutex_lock m w = (Fault f, u))"
  "log_mutex w \<Longrightarrow> then_c mutex_lock m w = (Fault Deadlock, w)"
  by (auto simp: releases_def run_simps log_steps_run) (simp add: mutex_lock_def run_simps)

lemma write_line_locked:
  assumes "shown w l"
  shows "\<exists>M. write_line e now l w = then_c mutex_lock M w \<and> releases M"
proof -
  have get: "bind_c (get_c f) k w = k (f w) w" for f :: "log_world \<Rightarrow> 'a" and k :: "'a \<Rightarrow> 'b logging"
    by (simp add: run_simps)
  show ?thesis
    unfolding write_line_def log_write_def get if_not_P [OF shown_not_less [OF assms]]
    by (rule exI, rule conjI, rule refl)
      (unfold Let_def, intro releases_bind releases_then releases_split tame_rules releases_unlock)
qed

text \<open>
  The mutex discipline. An operation of the logger that starts with the mutex free
  returns with it free again, or, if it handles texts, runs into undefined behaviour on
  them; one that starts with the mutex held (a signal handler that interrupts a log call)
  never gets further, except for a line the level filters out.
\<close>

theorem logger_mutex_discipline:
  "if log_mutex w \<and> \<not> filtered w op then run_op op w = (Fault Deadlock, w)
   else (\<exists>w'. run_op op w = (Ret (), w') \<and> log_mutex w' = log_mutex w) \<or>
        takes_text op \<and> (\<exists>f w'. run_op op w = (Fault f, w'))"
proof (cases op)
  case (Op_init can f lv)
  let ?tail = "then_c (set_logger (\<lambda>l. l\<lparr>lg_level := lv\<rparr>)) mutex_unlock"
  have "releases (then_c close_log_file (then_c (case f of None \<Rightarrow> return_c ()
        | Some g \<Rightarrow> bind_c (require_c Unterminated (c_strlen g)) (\<lambda>n.
            if n > 0 then open_log_file can g else return_c ())) ?tail))"
    by (intro releases_then tame_rules tame_open_log_file releases_unlock)
  from locked_op(1) [OF _ this, of w] Op_init show ?thesis
    by (cases f) (auto simp: logger_init_def locked_op(2) run_simps log_steps_run close_log_file_run)
next
  case (Op_write e now l)
  show ?thesis
  proof (cases "shown w l")
    case True
    obtain M where "releases M" "write_line e now l w = then_c mutex_lock M w"
      using write_line_locked [OF True] by blast
    then show ?thesis using Op_write True locked_op [of w M] by auto
  next
    case False
    then show ?thesis using Op_write not_shown [OF False] by simp
  qed
qed (auto simp: logger_set_level_def logger_enable_console_def logger_enable_file_def logger_close_def
    close_log_file_run run_simps log_steps_run locked_op)

section \<open>Concrete runs\<close>

definition sample_world :: log_world where
  "sample_world = \<lparr>g_logger = g_logger_initial, log_mutex = False, console = [], disk = Map.empty\<rparr>"

definition file_world :: log_world where
  "file_world = sample_world\<lparr>g_logger := g_logger_initial\<lparr>lg_file := Some ''q.log''\<rparr>, disk := [''q.log'' \<mapsto> []]\<rparr>"

definition sample_line :: log_line where
  "sample_line = \<lparr>ll_level = LOG_ERROR, ll_file = ''src/a.c'', ll_func = ''f'', ll_line = 7,
     ll_fmt = ''fd %d'', ll_args = [Int_arg 3]\<rparr>"

definition sample_now :: tm where
  "sample_now = \<lparr>tm_year = 125, tm_mon = 11, tm_mday = 15, tm_hour = 10, tm_min = 30, tm_sec = 0\<rparr>"

lemma sample_format: "vformat e ''fd %d'' [Int_arg 3] = Some (''fd 3'', [])"
  by (simp add: show_int_def show_nat.simps char_of_def bit_0)

lemmas sample_log_defs = sample_world_def file_world_def sample_line_def g_logger_initial_def shown_def
  line_body_def less_eq_LogLevel_def

theorem log_console_session_witness:
  "skip_all (map (write_line (\<lambda>_. []) (Some sample_now)) [sample_line, sample_line\<lparr>ll_level := LOG_DEBUG\<rparr>]) sample_world =
     (Ret (), sample_world\<lparr>console := console_text (\<lambda>_. []) sample_now sample_line\<rparr>)"
proof -
  have "\<forall>l \<in> set [sample_line, sample_line\<lparr>ll_level := LOG_DEBUG\<rparr>]. line_body (\<lambda>_. []) l \<noteq> None"
    using sample_format by (simp add: sample_line_def line_body_def)
  moreover have "\<not> log_mutex sample_world" "lg_console_output (g_logger sample_world) \<noteq> 0"
    "lg_file_output (g_logger sample_world) = 0 \<or> lg_file (g_logger sample_world) = None"
    by (simp_all add: sample_log_defs)
  moreover have "concat (map (console_text (\<lambda>_. []) sample_now)
      (filter (shown sample_world) [sample_line, sample_line\<lparr>ll_level := LOG_DEBUG\<rparr>])) =
    console_text (\<lambda>_. []) sample_now sample_line" "console sample_world = []"
    by (simp_all add: sample_log_defs)
  ultimately show ?thesis
    using log_console_session [of sample_world "[sample_line, sample_line\<lparr>ll_level := LOG_DEBUG\<rparr>]" "\<lambda>_. []" sample_now]
    by (simp only: append_Nil simp_thms)
qed

theorem log_write_reuses_va_list_witness:
  "\<exists>w'. write_line (\<lambda>_. []) (Some sample_now) sample_line file_world = (Fault Bad_arguments, w') \<and> log_mutex w'"
proof -
  have "vformat (\<lambda>_. []) (ll_fmt sample_line) (ll_args sample_line) = Some (''fd 3'', [])"
    using sample_format by (simp add: sample_line_def)
  from log_write_reuses_va_list [OF _ _ _ _ _ this, of file_world "''q.log''" sample_now] show ?thesis
    by (auto simp: sample_log_defs)
qed

theorem log_write_outputs_witness:
  "\<exists>w'. write_line (\<lambda>_. []) (Some sample_now) (sample_line\<lparr>ll_fmt := ''execl failed'', ll_args := []\<rparr>) file_world
     = (Ret (), w') \<and> console w' \<noteq> [] \<and> disk w' ''q.log'' \<noteq> Some []"
proof -
  let ?l = "sample_line\<lparr>ll_fmt := ''execl failed'', ll_args := []\<rparr>"
  have "vformat (\<lambda>_. []) (ll_fmt ?l) (ll_args ?l) = Some (''execl failed'', [])" by simp
  from log_write_outputs [OF _ _ _ _ this, of file_world "''q.log''" "[]" sample_now] show ?thesis
    by (simp add: sample_log_defs console_text_def file_text_def)
qed

theorem logger_init_opens_witness:
  "\<exists>w1. logger_init (\<lambda>_. True) (Some (''q.log'' @ [NUL])) LOG_INFO sample_world = (Ret (), w1) \<and>
     disk w1 ''q.log'' = Some utf8_bom"
proof -
  have "\<not> log_mutex sample_world" "NUL \<in> set (''q.log'' @ [NUL])" "cstr (''q.log'' @ [NUL]) \<noteq> []"
    "length (cstr (''q.log'' @ [NUL])) \<le> 255" "length (lg_filename (g_logger sample_world)) = 256"
    by (simp_all add: sample_log_defs MAX_FILENAME_LEN_def)
  from logger_init_opens [OF this, of "\<lambda>_. True" LOG_INFO] show ?thesis
    by (auto simp: sample_world_def)
qed

theorem failed_open_disables_file_witness:
  "\<exists>w1 w2 w3. logger_init (\<lambda>p. p = ''b'') (Some (''a'' @ [NUL])) LOG_INFO sample_world = (Ret (), w1) \<and>
     logger_init (\<lambda>p. p = ''b'') (Some (''b'' @ [NUL])) LOG_INFO w1 = (Ret (), w2) \<and>
     write_line (\<lambda>_. []) (Some sample_now) sample_line w2 = (Ret (), w3) \<and> disk w3 = disk w2"
proof -
  have "\<not> log_mutex sample_world" "NUL \<in> set (''a'' @ [NUL])" "cstr (''a'' @ [NUL]) \<noteq> []"
    "length (cstr (''a'' @ [NUL])) \<le> 255" "NUL \<in> set (''b'' @ [NUL])" "cstr (''b'' @ [NUL]) \<noteq> []"
    "length (cstr (''b'' @ [NUL])) \<le> 255" "length (lg_filename (g_logger sample_world)) = 256"
    "lg_console_output (g_logger sample_world) \<noteq> 0" "line_body (\<lambda>_. []) sample_line \<noteq> None"
    using sample_format by (simp_all add: sample_log_defs MAX_FILENAME_LEN_def)
  from failed_open_disables_file [OF this(1-8) _ _ this(9,10), of "\<lambda>p. p = ''b''" LOG_INFO sample_now]
  show ?thesis by auto
qed

end
