(* ===== verification/Kernel.thy ===== *)
theory Kernel
  imports Quekka_Log
begin

text \<open>
  The boundary to the operating system. The kernel is a parameter \<open>K\<close>: given the events
  so far and a call, it gives the reply. Nothing is assumed of it here; a property that
  relies on documented behaviour of a call names it as a hypothesis (\<open>accept_fresh\<close>,
  \<open>recv_bounded\<close>, ...). The state common to all components is the trace of events (system
  calls with their replies, lines logged, texts printed) and \<open>errno\<close>.
\<close>

section \<open>Calls and replies\<close>

record sockaddr_in =
  sin_family :: nat
  sin_port :: "16 word"
  sin_addr :: "8 word list"

definition AF_INET :: nat where "AF_INET = 2"
definition SOMAXCONN :: nat where "SOMAXCONN = 4096"
definition INADDR_ANY :: "8 word list" where "INADDR_ANY = [0, 0, 0, 0]"

text \<open>Error numbers and flag bits, as Linux has them (\<open>EWOULDBLOCK\<close> is \<open>EAGAIN\<close>).\<close>

definition EINTR :: int where "EINTR = 4"
definition EBADF :: int where "EBADF = 9"
definition EAGAIN :: int where "EAGAIN = 11"
definition O_NONBLOCK :: "32 word" where "O_NONBLOCK = 2048"
definition EPOLLIN :: "32 word" where "EPOLLIN = 1"
definition EPOLLET :: "32 word" where "EPOLLET = 2147483648"

lemmas sys_consts = AF_INET_def SOMAXCONN_def INADDR_ANY_def EINTR_def EBADF_def EAGAIN_def
  O_NONBLOCK_def EPOLLIN_def EPOLLET_def

text \<open>A pointer; 0 is NULL.\<close>

type_synonym ptr = nat

datatype recv_flag = No_flag | Msg_dontwait | Msg_waitall

datatype syscall =
    Socket
  | Setsockopt_reuseaddr int
  | Bind int sockaddr_in
  | Listen int nat
  | Accept int
  | Connect int sockaddr_in
  | Fork
  | Getpid
  | Close int
  | Read int nat
  | Write int "char list"
  | Recv int nat recv_flag
  | Send int "char list" recv_flag
  | Fcntl_getfl int
  | Fcntl_setfl int "32 word"
  | Epoll_create
  | Epoll_add int int ptr "32 word"
  | Epoll_del int int
  | Epoll_wait int nat int
  | Malloc nat
  | Free ptr
  | Time

text \<open>
  A reply is a failure with its \<open>errno\<close>, an integer result, bytes received, a connection
  accepted, the list of ready events, or the local time (\<open>None\<close> if it has no
  broken-down form).
\<close>

datatype reply =
    Err int
  | Val int
  | Bytes "char list"
  | Peer int sockaddr_in
  | Ready "(ptr \<times> 32 word) list"
  | Tm "tm option"

text \<open>
  What the C caller sees. A reply of another shape than the call's is read as the failure
  value, so every reply has a meaning.
\<close>

primrec int_of :: "reply \<Rightarrow> int" where
  "int_of (Err e) = -1"
| "int_of (Val n) = n"
| "int_of (Bytes b) = -1"
| "int_of (Peer fd a) = -1"
| "int_of (Ready evs) = -1"
| "int_of (Tm t) = -1"

primrec bytes_of :: "reply \<Rightarrow> char list option" where
  "bytes_of (Err e) = None"
| "bytes_of (Val n) = None"
| "bytes_of (Bytes b) = Some b"
| "bytes_of (Peer fd a) = None"
| "bytes_of (Ready evs) = None"
| "bytes_of (Tm t) = None"

primrec peer_of :: "reply \<Rightarrow> (int \<times> sockaddr_in) option" where
  "peer_of (Err e) = None"
| "peer_of (Val n) = None"
| "peer_of (Bytes b) = None"
| "peer_of (Peer fd a) = (if 0 \<le> fd then Some (fd, a) else None)"
| "peer_of (Ready evs) = None"
| "peer_of (Tm t) = None"

primrec ready_of :: "reply \<Rightarrow> (ptr \<times> 32 word) list option" where
  "ready_of (Err e) = None"
| "ready_of (Val n) = None"
| "ready_of (Bytes b) = None"
| "ready_of (Peer fd a) = None"
| "ready_of (Ready evs) = Some evs"
| "ready_of (Tm t) = None"

primrec tm_of :: "reply \<Rightarrow> tm option" where
  "tm_of (Err e) = None"
| "tm_of (Val n) = None"
| "tm_of (Bytes b) = None"
| "tm_of (Peer fd a) = None"
| "tm_of (Ready evs) = None"
| "tm_of (Tm t) = t"

text \<open>An allocation: NULL unless a positive address comes back.\<close>

definition ptr_of :: "reply \<Rightarrow> ptr" where
  "ptr_of r = nat (int_of r)"

section \<open>Events and the common state\<close>

datatype event =
    Call syscall reply
  | Logged LogLevel "char list" "log_arg list"
  | Perror "char list" int
  | Eprint "char list"

type_synonym kernel = "event list \<Rightarrow> syscall \<Rightarrow> reply"

record os =
  trace :: "event list"
  errno :: int

definition note_c :: "event \<Rightarrow> ('z os_scheme, unit) prog" where
  "note_c ev = modify_c (\<lambda>s. s\<lparr>trace := trace s @ [ev]\<rparr>)"

definition err_of :: "reply \<Rightarrow> int \<Rightarrow> int" where
  "err_of r old = (case r of Err e \<Rightarrow> e | _ \<Rightarrow> old)"

definition sys :: "kernel \<Rightarrow> syscall \<Rightarrow> ('z os_scheme, reply) prog" where
  "sys K c s =
     (let r = K (trace s) c
      in (Ret r, s\<lparr>trace := trace s @ [Call c r], errno := err_of r (errno s)\<rparr>))"

definition log_call :: "LogLevel \<Rightarrow> char list \<Rightarrow> log_arg list \<Rightarrow> ('z os_scheme, unit) prog" where
  "log_call level fmt as = note_c (Logged level fmt as)"

definition perror :: "char list \<Rightarrow> ('z os_scheme, unit) prog" where
  "perror t = bind_c (get_c errno) (\<lambda>e. note_c (Perror t e))"

definition eprint :: "char list \<Rightarrow> ('z os_scheme, unit) prog" where
  "eprint t = note_c (Eprint t)"

text \<open>Calls whose result the program uses as an integer, or not at all.\<close>

definition sys_int :: "kernel \<Rightarrow> syscall \<Rightarrow> ('z os_scheme, int) prog" where
  "sys_int K c = bind_c (sys K c) (\<lambda>r. return_c (int_of r))"

definition sys_ignore :: "kernel \<Rightarrow> syscall \<Rightarrow> ('z os_scheme, unit) prog" where
  "sys_ignore K c = bind_c (sys K c) (\<lambda>_. return_c ())"

definition sys_alloc :: "kernel \<Rightarrow> nat \<Rightarrow> ('z os_scheme, ptr) prog" where
  "sys_alloc K n = bind_c (sys K (Malloc n)) (\<lambda>r. return_c (ptr_of r))"

lemma note_c_run [run_simps]: "note_c ev s = (Ret (), s\<lparr>trace := trace s @ [ev]\<rparr>)"
  by (simp add: note_c_def run_simps)

lemma sys_run [run_simps]:
  "sys K c s = (Ret (K (trace s) c),
     s\<lparr>trace := trace s @ [Call c (K (trace s) c)], errno := err_of (K (trace s) c) (errno s)\<rparr>)"
  by (simp add: sys_def Let_def)

lemma sys_int_run [run_simps]:
  "sys_int K c s = (Ret (int_of (K (trace s) c)),
     s\<lparr>trace := trace s @ [Call c (K (trace s) c)], errno := err_of (K (trace s) c) (errno s)\<rparr>)"
  by (simp add: sys_int_def run_simps)

lemma sys_ignore_run [run_simps]:
  "sys_ignore K c s = (Ret (),
     s\<lparr>trace := trace s @ [Call c (K (trace s) c)], errno := err_of (K (trace s) c) (errno s)\<rparr>)"
  by (simp add: sys_ignore_def run_simps)

lemma sys_alloc_run [run_simps]:
  "sys_alloc K n s = (Ret (ptr_of (K (trace s) (Malloc n))),
     s\<lparr>trace := trace s @ [Call (Malloc n) (K (trace s) (Malloc n))],
       errno := err_of (K (trace s) (Malloc n)) (errno s)\<rparr>)"
  by (simp add: sys_alloc_def run_simps)

lemma log_call_run [run_simps]:
  "log_call level fmt as s = (Ret (), s\<lparr>trace := trace s @ [Logged level fmt as]\<rparr>)"
  by (simp add: log_call_def run_simps)

lemma perror_run [run_simps]: "perror t s = (Ret (), s\<lparr>trace := trace s @ [Perror t (errno s)]\<rparr>)"
  by (simp add: perror_def run_simps)

lemma eprint_run [run_simps]: "eprint t s = (Ret (), s\<lparr>trace := trace s @ [Eprint t]\<rparr>)"
  by (simp add: eprint_def run_simps)

text \<open>
  The same for weakest preconditions. A reply is fresh; what is known of it is that the
  kernel gave it.
\<close>

abbreviation after :: "syscall \<Rightarrow> reply \<Rightarrow> 'z os_scheme \<Rightarrow> 'z os_scheme" where
  "after c r s \<equiv> s\<lparr>trace := trace s @ [Call c r], errno := err_of r (errno s)\<rparr>"

lemma wp_sys [wp_intros]:
  fixes s :: "'z os_scheme"
  shows
  "(\<And>r. K (trace s) c = r \<Longrightarrow> wp (f r) Q (after c r s)) \<Longrightarrow> wp (bind_c (sys K c) f) Q s"
  "(\<And>r. K (trace s) c = r \<Longrightarrow> wp (g (int_of r)) Q (after c r s)) \<Longrightarrow> wp (bind_c (sys_int K c) g) Q s"
  "(\<And>r. K (trace s) c = r \<Longrightarrow> wp (h ()) Q (after c r s)) \<Longrightarrow> wp (bind_c (sys_ignore K c) h) Q s"
  "(\<And>r. K (trace s) (Malloc n) = r \<Longrightarrow> wp (j (ptr_of r)) Q (after (Malloc n) r s)) \<Longrightarrow>
   wp (bind_c (sys_alloc K n) j) Q s"
  by (auto simp: wp_def run_simps bind_c_def)

lemma wp_sys_last [wp_intros]:
  "(\<And>r. K (trace s) c = r \<Longrightarrow> Q (Ret r) (after c r s)) \<Longrightarrow> wp (sys K c) Q s"
  "(\<And>r. K (trace s) c = r \<Longrightarrow> Q' (Ret (int_of r)) (after c r s)) \<Longrightarrow> wp (sys_int K c) Q' s"
  "(\<And>r. K (trace s) c = r \<Longrightarrow> R (Ret ()) (after c r s)) \<Longrightarrow> wp (sys_ignore K c) R s"
  by (auto simp: wp_def run_simps)

lemma wp_note [wp_intros]:
  "wp (f ()) Q (s\<lparr>trace := trace s @ [Logged l t as]\<rparr>) \<Longrightarrow> wp (bind_c (log_call l t as) f) Q s"
  "wp (f ()) Q (s\<lparr>trace := trace s @ [Perror u (errno s)]\<rparr>) \<Longrightarrow> wp (bind_c (perror u) f) Q s"
  "wp (f ()) Q (s\<lparr>trace := trace s @ [Eprint u]\<rparr>) \<Longrightarrow> wp (bind_c (eprint u) f) Q s"
  "Q' (Ret ()) (s\<lparr>trace := trace s @ [Logged l t as]\<rparr>) \<Longrightarrow> wp (log_call l t as) Q' s"
  "Q' (Ret ()) (s\<lparr>trace := trace s @ [Perror u (errno s)]\<rparr>) \<Longrightarrow> wp (perror u) Q' s"
  "Q' (Ret ()) (s\<lparr>trace := trace s @ [Eprint u]\<rparr>) \<Longrightarrow> wp (eprint u) Q' s"
  by (auto simp: wp_def run_simps bind_c_def)

text \<open>An invariant of the common state that holds after any event holds after any of these.\<close>

definition event_closed :: "('z os_scheme \<Rightarrow> bool) \<Rightarrow> bool" where
  "event_closed I \<longleftrightarrow> (\<forall>s ev e. I s \<longrightarrow> I (s\<lparr>trace := trace s @ [ev], errno := e\<rparr>))"

lemma event_closedD: "event_closed I \<Longrightarrow> I s \<Longrightarrow> I (s\<lparr>trace := trace s @ [ev], errno := e\<rparr>)"
  by (simp add: event_closed_def)

lemma event_closed_note:
  assumes "event_closed I" and "I s"
  shows "I (s\<lparr>trace := trace s @ [ev]\<rparr>)"
proof -
  have "s\<lparr>trace := trace s @ [ev]\<rparr> = s\<lparr>trace := trace s @ [ev], errno := errno s\<rparr>"
    by simp
  then show ?thesis using event_closedD [OF assms, where ev = ev and e = "errno s"] by simp
qed

lemma keeps_events [keeps_intros]:
  assumes "event_closed I"
  shows "keeps I (note_c ev)" "keeps I (sys K c)" "keeps I (sys_int K c)" "keeps I (sys_ignore K c)"
    "keeps I (sys_alloc K n)" "keeps I (log_call l f as)" "keeps I (perror t)" "keeps I (eprint t)"
  using event_closedD [OF assms] event_closed_note [OF assms]
  by (simp_all add: keeps_def run_simps)

section \<open>What a trace says of the system's resources\<close>

text \<open>
  The file descriptors the process holds: a successful \<open>socket\<close>, \<open>accept\<close> or
  \<open>epoll_create1\<close> opens one, \<open>close\<close> releases it.
\<close>

fun fd_event :: "event \<Rightarrow> int set \<Rightarrow> int set" where
  "fd_event (Call Socket r) F = (if 0 \<le> int_of r then insert (int_of r) F else F)"
| "fd_event (Call Epoll_create r) F = (if 0 \<le> int_of r then insert (int_of r) F else F)"
| "fd_event (Call (Accept l) r) F = (case peer_of r of None \<Rightarrow> F | Some (fd, _) \<Rightarrow> insert fd F)"
| "fd_event (Call (Close fd) r) F = F - {fd}"
| "fd_event ev F = F"

definition open_fds :: "event list \<Rightarrow> int set" where
  "open_fds tr = fold fd_event tr {}"

lemma open_fds_Nil [simp]: "open_fds [] = {}"
  by (simp add: open_fds_def)

lemma open_fds_append [simp]: "open_fds (tr @ tr') = fold fd_event tr' (open_fds tr)"
  by (simp add: open_fds_def)

text \<open>
  The interest list of an epoll instance: what \<open>EPOLL_CTL_ADD\<close> registered and neither
  \<open>EPOLL_CTL_DEL\<close> nor \<open>close\<close> removed, with the pointer stored for it. A new instance, and one
  that was closed, watches nothing.
\<close>

fun watch_event :: "int \<Rightarrow> event \<Rightarrow> (int \<Rightarrow> ptr option) \<Rightarrow> int \<Rightarrow> ptr option" where
  "watch_event ep (Call (Epoll_add e fd p evs) r) W =
     (if e = ep \<and> int_of r \<noteq> -1 then W(fd \<mapsto> p) else W)"
| "watch_event ep (Call (Epoll_del e fd) r) W =
     (if e = ep \<and> int_of r \<noteq> -1 then W(fd := None) else W)"
| "watch_event ep (Call Epoll_create r) W = (if int_of r = ep then Map.empty else W)"
| "watch_event ep (Call (Close fd) r) W = (if fd = ep then Map.empty else W(fd := None))"
| "watch_event ep ev W = W"

definition watched :: "int \<Rightarrow> event list \<Rightarrow> int \<Rightarrow> ptr option" where
  "watched ep tr = fold (watch_event ep) tr Map.empty"

lemma watched_Nil [simp]: "watched ep [] = Map.empty"
  by (simp add: watched_def)

lemma watched_append [simp]: "watched ep (tr @ tr') = fold (watch_event ep) tr' (watched ep tr)"
  by (simp add: watched_def)

text \<open>
  The descriptors in non-blocking mode: what \<open>fcntl\<close> set and neither it nor \<open>close\<close> took back. A descriptor
  that \<open>socket\<close>, \<open>accept\<close> or \<open>epoll_create1\<close> gives out is in blocking mode.
\<close>

fun mode_event :: "event \<Rightarrow> int set \<Rightarrow> int set" where
  "mode_event (Call (Fcntl_setfl fd fl) r) N =
     (if int_of r = -1 then N else if and fl O_NONBLOCK = 0 then N - {fd} else insert fd N)"
| "mode_event (Call Socket r) N = N - {int_of r}"
| "mode_event (Call Epoll_create r) N = N - {int_of r}"
| "mode_event (Call (Accept l) r) N = (case peer_of r of None \<Rightarrow> N | Some (fd, _) \<Rightarrow> N - {fd})"
| "mode_event (Call (Close fd) r) N = N - {fd}"
| "mode_event ev N = N"

definition nonblocking :: "event list \<Rightarrow> int set" where
  "nonblocking tr = fold mode_event tr {}"

lemma nonblocking_Nil [simp]: "nonblocking [] = {}"
  by (simp add: nonblocking_def)

lemma nonblocking_append [simp]: "nonblocking (tr @ tr') = fold mode_event tr' (nonblocking tr)"
  by (simp add: nonblocking_def)

lemma O_NONBLOCK_set [simp]: "O_NONBLOCK \<noteq> 0"
  by (simp add: O_NONBLOCK_def)

text \<open>The reads that may block: those on a descriptor in blocking mode, \<open>N\<close> being in non-blocking mode at first.\<close>

fun blocking_reads :: "int set \<Rightarrow> event list \<Rightarrow> int list" where
  "blocking_reads N [] = []"
| "blocking_reads N (Call (Recv fd n fl) r # tr) =
     (if fd \<in> N \<or> fl = Msg_dontwait then [] else [fd]) @ blocking_reads N tr"
| "blocking_reads N (ev # tr) = blocking_reads (mode_event ev N) tr"

lemma blocking_reads_append [simp]:
  "blocking_reads {} (tr @ tr') = blocking_reads {} tr @ blocking_reads (nonblocking tr) tr'"
proof -
  have "blocking_reads N (tr @ tr') = blocking_reads N tr @ blocking_reads (fold mode_event tr N) tr'" for N
    by (induction N tr rule: blocking_reads.induct) auto
  then show ?thesis by (simp add: nonblocking_def)
qed

text \<open>
  The addresses \<open>malloc\<close> or \<open>calloc\<close> gave out and \<open>free\<close> has not taken back; and the promise that
  an allocation gives NULL or an address not in use.
\<close>

fun alloc_event :: "event \<Rightarrow> ptr set \<Rightarrow> ptr set" where
  "alloc_event (Call (Malloc n) r) A = (if ptr_of r = 0 then A else insert (ptr_of r) A)"
| "alloc_event (Call (Free p) r) A = A - {p}"
| "alloc_event ev A = A"

definition allocated :: "event list \<Rightarrow> ptr set" where
  "allocated tr = fold alloc_event tr {}"

lemma allocated_Nil [simp]: "allocated [] = {}"
  by (simp add: allocated_def)

lemma allocated_append [simp]: "allocated (tr @ tr') = fold alloc_event tr' (allocated tr)"
  by (simp add: allocated_def)

definition malloc_fresh :: "kernel \<Rightarrow> bool" where
  "malloc_fresh K \<longleftrightarrow> (\<forall>tr n. ptr_of (K tr (Malloc n)) \<notin> allocated tr)"

text \<open>What was handed to \<open>send\<close>, call by call: the descriptor and the bytes.\<close>

fun sends :: "event list \<Rightarrow> (int \<times> char list) list" where
  "sends [] = []"
| "sends (Call (Send fd b f) r # tr) = (fd, b) # sends tr"
| "sends (_ # tr) = sends tr"

lemma sends_append [simp]: "sends (tr @ tr') = sends tr @ sends tr'"
  by (induction tr rule: sends.induct) auto

text \<open>What a part of the trace says, from one state to a later one.\<close>

definition since :: "(event list \<Rightarrow> 'a list) \<Rightarrow> 'z os_scheme \<Rightarrow> 'y os_scheme \<Rightarrow> 'a list" where
  "since f s s' = drop (length (f (trace s))) (f (trace s'))"

text \<open>Everything that happened since a given trace is of a certain kind.\<close>

definition extends :: "(event \<Rightarrow> bool) \<Rightarrow> event list \<Rightarrow> event list \<Rightarrow> bool" where
  "extends P tr tr' \<longleftrightarrow> (\<exists>new. tr' = tr @ new \<and> list_all P new)"

lemma extends_simps [simp]: "extends P tr tr" "extends P tr (tr @ new) \<longleftrightarrow> list_all P new"
  by (auto simp: extends_def)

lemma extends_trans: "extends P tr tr' \<Longrightarrow> extends P tr' tr'' \<Longrightarrow> extends P tr tr''"
  by (auto simp: extends_def)

lemma extends_more: "extends P tr tr' \<Longrightarrow> list_all P new \<Longrightarrow> extends P tr (tr' @ new)"
  by (auto simp: extends_def)

lemma keeps_one_call:
  assumes "\<And>tr. P (Call c (K tr c))"
  shows "keeps (\<lambda>s. extends P tr (trace s)) (sys K c)" "keeps (\<lambda>s. extends P tr (trace s)) (sys_int K c)"
    "keeps (\<lambda>s. extends P tr (trace s)) (sys_ignore K c)"
  using assms by (simp_all add: keeps_def run_simps extends_more)

lemma keeps_message:
  "(\<And>e. P (Perror t e)) \<Longrightarrow> keeps (\<lambda>s. extends P tr (trace s)) (perror t)"
  "P (Eprint t) \<Longrightarrow> keeps (\<lambda>s. extends P tr (trace s)) (eprint t)"
  "P (Logged l t as) \<Longrightarrow> keeps (\<lambda>s. extends P tr (trace s)) (log_call l t as)"
  by (simp_all add: keeps_def run_simps extends_more)

section \<open>A sample kernel\<close>

text \<open>
  A concrete environment in which hypotheses about the kernel hold: descriptors and
  addresses are fresh, calls succeed, no connection and no data is pending. It instantiates
  the parameter \<open>K\<close> where a theorem is applied at a concrete input.
\<close>

definition fresh_fd :: "event list \<Rightarrow> int" where
  "fresh_fd tr = (if open_fds tr = {} then 3 else max 3 (Max (open_fds tr) + 1))"

definition sample_tm :: tm where
  "sample_tm = \<lparr>tm_year = 125, tm_mon = 11, tm_mday = 15, tm_hour = 10, tm_min = 30, tm_sec = 0\<rparr>"

primrec max_alloc :: "event list \<Rightarrow> int" where
  "max_alloc [] = 4096"
| "max_alloc (ev # tr) =
     max (max_alloc tr) (case ev of Call c r \<Rightarrow> (case c of Malloc n \<Rightarrow> int_of r | _ \<Rightarrow> 0) | _ \<Rightarrow> 0)"

definition sample_kernel :: kernel where
  "sample_kernel tr c =
     (case c of
        Socket \<Rightarrow> Val (fresh_fd tr)
      | Epoll_create \<Rightarrow> Val (fresh_fd tr)
      | Accept l \<Rightarrow> Err EAGAIN
      | Recv fd n f \<Rightarrow> Err EAGAIN
      | Read fd n \<Rightarrow> Bytes []
      | Send fd b f \<Rightarrow> Val (int (length b))
      | Write fd b \<Rightarrow> Val (int (length b))
      | Epoll_wait ep n tm \<Rightarrow> Err EINTR
      | Malloc n \<Rightarrow> Val (max_alloc tr + 64)
      | Time \<Rightarrow> Tm (Some sample_tm)
      | _ \<Rightarrow> Val 0)"

lemma finite_fd_event: "finite F \<Longrightarrow> finite (fd_event ev F)"
  by (cases "(ev, F)" rule: fd_event.cases) (auto split: option.split)

lemma finite_open_fds [simp]: "finite (open_fds tr)"
proof (induction tr rule: rev_induct)
  case (snoc ev tr)
  then show ?case by (simp add: finite_fd_event)
qed simp

lemma fresh_fd: "fresh_fd tr \<notin> open_fds tr" "3 \<le> fresh_fd tr"
proof -
  show "fresh_fd tr \<notin> open_fds tr"
  proof
    assume a: "fresh_fd tr \<in> open_fds tr"
    then have "open_fds tr \<noteq> {}" by auto
    then have "Max (open_fds tr) + 1 \<le> fresh_fd tr" by (simp add: fresh_fd_def)
    moreover have "fresh_fd tr \<le> Max (open_fds tr)" using a by (rule Max_ge [OF finite_open_fds])
    ultimately show False by simp
  qed
qed (simp add: fresh_fd_def)

lemma max_alloc_snoc: "max_alloc (tr @ [ev]) = max (max_alloc tr) (max_alloc [ev])"
  by (induction tr) (auto simp: max_def)

lemma max_alloc_bound: "4096 \<le> max_alloc tr" "p \<in> allocated tr \<Longrightarrow> int p \<le> max_alloc tr"
proof -
  show "4096 \<le> max_alloc tr" by (induction tr) auto
  assume "p \<in> allocated tr"
  then show "int p \<le> max_alloc tr"
  proof (induction tr rule: rev_induct)
    case (snoc ev tr)
    have "p \<in> allocated tr \<or> (\<exists>n r. ev = Call (Malloc n) r \<and> p = ptr_of r)"
      using snoc.prems by (cases "(ev, allocated tr)" rule: alloc_event.cases) (auto split: if_splits)
    then show ?case
    proof (elim disjE exE conjE)
      assume "p \<in> allocated tr"
      then show ?thesis using snoc.IH unfolding max_alloc_snoc by simp
    next
      fix n r
      assume "ev = Call (Malloc n) r" and "p = ptr_of r"
      then show ?thesis unfolding max_alloc_snoc by (auto simp: ptr_of_def)
    qed
  qed simp
qed

lemma sample_malloc_fresh: "malloc_fresh sample_kernel"
proof -
  have "ptr_of (sample_kernel tr (Malloc n)) \<notin> allocated tr" for tr n
    using max_alloc_bound [where tr = tr] by (fastforce simp: sample_kernel_def ptr_of_def)
  then show ?thesis by (simp add: malloc_fresh_def)
qed

end
