(* ===== verification/Heap.thy ===== *)
theory Heap
  imports Kernel
begin

text \<open>
  The C heap: the structures of \<^verbatim>\<open>src/internal/libsocket.c\<close>, \<^verbatim>\<open>src/internal/libepoll.c\<close> and
  the two programs that live behind pointers, as one store from addresses to
  objects. An access through NULL, or through an address where no such object lives any
  more, is a \<open>Fault\<close>. Function pointers of the user are numbers; what they do is a parameter
  of the components that call them.
\<close>

section \<open>Structures\<close>

record client_info =
  ci_fd :: int
  ci_addr :: sockaddr_in
  ci_user_data :: ptr

record client_node =
  cn_info :: client_info
  cn_next :: ptr

record client_manager =
  cm_clients :: ptr
  cm_count :: int

record epoll_handler =
  eh_epoll_fd :: int
  eh_events :: "(ptr \<times> 32 word) list"

type_synonym fn = nat

record server_callbacks =
  on_start :: "fn option"
  on_stop :: "fn option"
  on_connection :: "fn option"
  on_disconnected :: "fn option"
  on_received :: "fn option"

record socket_server =
  ss_listen_fd :: int
  ss_epoll :: ptr
  ss_client_mgr :: ptr
  ss_addr :: sockaddr_in
  ss_callbacks :: server_callbacks
  ss_user_data :: ptr
  ss_running :: int

datatype connection_phase = READING_LENTH | READING_PAYLOAD

record connection =
  cn_fd :: int
  cn_phase :: connection_phase

text \<open>A plain buffer from \<open>malloc\<close>: a byte that was never written is \<open>None\<close>.\<close>

datatype obj =
    Node client_node
  | Manager client_manager
  | Handler epoll_handler
  | Server socket_server
  | Conn connection
  | Buffer "char option list"

record mem = os +
  heap :: "ptr \<Rightarrow> obj option"

section \<open>Access\<close>

primrec the_node :: "obj \<Rightarrow> client_node option" where
  "the_node (Node n) = Some n"
| "the_node (Manager m) = None"
| "the_node (Handler h) = None"
| "the_node (Server v) = None"
| "the_node (Conn c) = None"
| "the_node (Buffer b) = None"

primrec the_manager :: "obj \<Rightarrow> client_manager option" where
  "the_manager (Node n) = None"
| "the_manager (Manager m) = Some m"
| "the_manager (Handler h) = None"
| "the_manager (Server v) = None"
| "the_manager (Conn c) = None"
| "the_manager (Buffer b) = None"

primrec the_handler :: "obj \<Rightarrow> epoll_handler option" where
  "the_handler (Node n) = None"
| "the_handler (Manager m) = None"
| "the_handler (Handler h) = Some h"
| "the_handler (Server v) = None"
| "the_handler (Conn c) = None"
| "the_handler (Buffer b) = None"

primrec the_server :: "obj \<Rightarrow> socket_server option" where
  "the_server (Node n) = None"
| "the_server (Manager m) = None"
| "the_server (Handler h) = None"
| "the_server (Server v) = Some v"
| "the_server (Conn c) = None"
| "the_server (Buffer b) = None"

primrec the_buffer :: "obj \<Rightarrow> char option list option" where
  "the_buffer (Node n) = None"
| "the_buffer (Manager m) = None"
| "the_buffer (Handler h) = None"
| "the_buffer (Server v) = None"
| "the_buffer (Conn c) = None"
| "the_buffer (Buffer b) = Some b"

definition load :: "(obj \<Rightarrow> 'b option) \<Rightarrow> ptr \<Rightarrow> ('z mem_scheme, 'b) prog" where
  "load get p =
     (if p = 0 then fault_c Null_deref
      else bind_c (get_c (\<lambda>s. heap s p)) (\<lambda>v. require_c Dangling (Option.bind v get)))"

definition store :: "ptr \<Rightarrow> obj \<Rightarrow> ('z mem_scheme, unit) prog" where
  "store p v = modify_c (\<lambda>s. s\<lparr>heap := (heap s)(p \<mapsto> v)\<rparr>)"

text \<open>An allocation initialised with an object: its address, or NULL and nothing stored.\<close>

definition alloc_c :: "kernel \<Rightarrow> nat \<Rightarrow> obj \<Rightarrow> ('z mem_scheme, ptr) prog" where
  "alloc_c K n v =
     bind_c (sys_alloc K n) (\<lambda>p. if p = 0 then return_c 0 else then_c (store p v) (return_c p))"

text \<open>\<open>free\<close> of an address that is not allocated is undefined.\<close>

definition free_c :: "kernel \<Rightarrow> ptr \<Rightarrow> ('z mem_scheme, unit) prog" where
  "free_c K p =
     bind_c (get_c (\<lambda>s. heap s p)) (\<lambda>v.
     bind_c (require_c Dangling v) (\<lambda>_.
     then_c (sys_ignore K (Free p))
       (modify_c (\<lambda>s. s\<lparr>heap := (heap s)(p := None)\<rparr>))))"

lemmas heap_defs = load_def store_def alloc_c_def free_c_def

lemma load_run [run_simps]:
  "load get p s =
     (if p = 0 then Fault Null_deref
      else case Option.bind (heap s p) get of None \<Rightarrow> Fault Dangling | Some x \<Rightarrow> Ret x, s)"
  by (cases "Option.bind (heap s p) get") (simp_all add: load_def run_simps)

lemma store_run [run_simps]: "store p v s = (Ret (), s\<lparr>heap := (heap s)(p \<mapsto> v)\<rparr>)"
  by (simp add: store_def run_simps)

lemma wp_load [wp_intros]:
  "(p = 0 \<Longrightarrow> Q (Fault Null_deref) s) \<Longrightarrow> (p \<noteq> 0 \<Longrightarrow> Option.bind (heap s p) get = None \<Longrightarrow> Q (Fault Dangling) s) \<Longrightarrow>
   (\<And>x. p \<noteq> 0 \<Longrightarrow> Option.bind (heap s p) get = Some x \<Longrightarrow> wp (f x) Q s) \<Longrightarrow> wp (bind_c (load get p) f) Q s"
  by (cases "Option.bind (heap s p) get") (auto simp: wp_def run_simps bind_c_def)

lemma wp_store [wp_intros]:
  "wp (f ()) Q (s\<lparr>heap := (heap s)(p \<mapsto> v)\<rparr>) \<Longrightarrow> wp (bind_c (store p v) f) Q s"
  "Q' (Ret ()) (s\<lparr>heap := (heap s)(p \<mapsto> v)\<rparr>) \<Longrightarrow> wp (store p v) Q' s"
  by (auto simp: wp_def run_simps bind_c_def)

lemma wp_alloc [wp_intros]:
  fixes s :: "'z mem_scheme"
  assumes "\<And>r. K (trace s) (Malloc n) = r \<Longrightarrow> ptr_of r = 0 \<Longrightarrow> wp (f 0) Q (after (Malloc n) r s)"
    and "\<And>r p. K (trace s) (Malloc n) = r \<Longrightarrow> ptr_of r = p \<Longrightarrow> p \<noteq> 0 \<Longrightarrow>
      wp (f p) Q ((after (Malloc n) r s)\<lparr>heap := (heap s)(p \<mapsto> v)\<rparr>)"
  shows "wp (bind_c (alloc_c K n v) f) Q s"
  unfolding alloc_c_def flat_simps
  by (intro wp_intros) (use assms in simp_all)

lemma wp_free [wp_intros]:
  fixes s :: "'z mem_scheme"
  assumes "heap s p = None \<Longrightarrow> Q (Fault Dangling) s"
    and "\<And>v r. heap s p = Some v \<Longrightarrow> K (trace s) (Free p) = r \<Longrightarrow>
      wp (f ()) Q ((after (Free p) r s)\<lparr>heap := (heap s)(p := None)\<rparr>)"
  shows "wp (bind_c (free_c K p) f) Q s"
  unfolding free_c_def flat_simps
  by (intro wp_intros) (use assms in simp_all)

lemma wp_free_last [wp_intros]:
  fixes s :: "'z mem_scheme"
  assumes "heap s p = None \<Longrightarrow> Q (Fault Dangling) s"
    and "\<And>v r. heap s p = Some v \<Longrightarrow> K (trace s) (Free p) = r \<Longrightarrow>
      Q (Ret ()) ((after (Free p) r s)\<lparr>heap := (heap s)(p := None)\<rparr>)"
  shows "wp (free_c K p) Q s"
  unfolding free_c_def flat_simps
  by (intro wp_intros) (use assms in simp_all)

lemma keeps_heap [keeps_intros]:
  "keeps (\<lambda>s. extends P tr (trace s)) (load get p)" "keeps (\<lambda>s. extends P tr (trace s)) (store p v)"
  by (simp_all add: keeps_def run_simps split: option.split)

lemma keeps_alloc:
  assumes "\<And>r. P (Call (Malloc n) r)"
  shows "keeps (\<lambda>s. extends P tr (trace s)) (alloc_c K n v)"
  using assms by (simp add: keeps_def alloc_c_def run_simps extends_more)

lemma keeps_free:
  assumes "\<And>r. P (Call (Free p) r)"
  shows "keeps (\<lambda>s. extends P tr (trace s)) (free_c K p)"
  unfolding free_c_def
  by (intro keeps_intros keeps_one_call keeps_modify) (simp_all add: assms)

text \<open>A pointer passed where an \<open>int\<close> is expected: on 64-bit hosts its low half arrives.\<close>

definition ptr_as_int :: "ptr \<Rightarrow> int" where
  "ptr_as_int p = sint (word_of_nat p :: 32 word)"

section \<open>Consistency\<close>

text \<open>
  Objects live only at allocated addresses, so an allocation never lands on one of them.
  The heap as the allocator sees it and the heap of typed objects agree.
\<close>

definition heap_ok :: "'z mem_scheme \<Rightarrow> bool" where
  "heap_ok s \<longleftrightarrow> dom (heap s) \<subseteq> allocated (trace s) \<and> 0 \<notin> dom (heap s)"

lemma heap_ok_fresh:
  assumes "malloc_fresh K" and "heap_ok s" and "ptr_of (K (trace s) (Malloc n)) = p"
  shows "heap s p = None"
  using assms unfolding malloc_fresh_def heap_ok_def by (metis domIff subsetD)

text \<open>A call of \<open>free\<close> on a live object.\<close>

lemma free_exact:
  fixes s :: "'z mem_scheme"
  assumes "heap s p = Some v"
  shows "\<exists>s' f. free_c K p s = (Ret (), s') \<and> trace s' = trace s @ [Call (Free p) f] \<and> heap s' = (heap s)(p := None)"
  using assms by (auto simp: free_c_def run_simps)

end
