(* ===== verification/Client_Manager.thy ===== *)
theory Client_Manager
  imports Heap
begin

text \<open>
  The client manager (\<^verbatim>\<open>src/internal/libsocket.c\<close> from \<open>client_node_t\<close> on,
  \<^verbatim>\<open>src/internal/client.h\<close>): a singly linked list of heap nodes with a counter. The
  functions follow the C code pointer by pointer; \<open>registry\<close> relates the heap to the list of
  clients it stands for, and the locale \<open>client_registry\<close> states, over that list, what the
  server relies on.
\<close>

section \<open>Operations\<close>

definition CLIENT_MAX_CLIENTS :: nat where "CLIENT_MAX_CLIENTS = 1000"

definition SIZEOF_CLIENT_MANAGER :: nat where "SIZEOF_CLIENT_MANAGER = 16"
definition SIZEOF_CLIENT_NODE :: nat where "SIZEOF_CLIENT_NODE = 40"

text \<open>The list has at most \<open>CLIENT_MAX_CLIENTS\<close> nodes, so this many rounds reach its end.\<close>

definition LIST_FUEL :: nat where "LIST_FUEL = Suc CLIENT_MAX_CLIENTS"

definition client_manager_create :: "kernel \<Rightarrow> ('z mem_scheme, ptr) prog" where
  "client_manager_create K =
     alloc_c K SIZEOF_CLIENT_MANAGER (Manager \<lparr>cm_clients = 0, cm_count = 0\<rparr>)"

primrec free_nodes :: "kernel \<Rightarrow> nat \<Rightarrow> ptr \<Rightarrow> ('z mem_scheme, unit) prog" where
  "free_nodes K 0 node = fuel_c"
| "free_nodes K (Suc n) node =
     (if node = 0 then return_c () else
      bind_c (load the_node node) (\<lambda>nd.
      then_c (free_c K node) (free_nodes K n (cn_next nd))))"

definition client_manager_destroy :: "kernel \<Rightarrow> ptr \<Rightarrow> ('z mem_scheme, unit) prog" where
  "client_manager_destroy K mgr =
     (if mgr = 0 then return_c () else
      bind_c (load the_manager mgr) (\<lambda>m.
      then_c (free_nodes K LIST_FUEL (cm_clients m)) (free_c K mgr)))"

definition client_manager_add ::
    "kernel \<Rightarrow> ptr \<Rightarrow> int \<Rightarrow> sockaddr_in \<Rightarrow> ('z mem_scheme, ptr) prog" where
  "client_manager_add K mgr fd addr =
     (if mgr = 0 then return_c 0 else
      bind_c (load the_manager mgr) (\<lambda>m.
      if cm_count m \<ge> int CLIENT_MAX_CLIENTS then return_c 0 else
      bind_c (alloc_c K SIZEOF_CLIENT_NODE
        (Node \<lparr>cn_info = \<lparr>ci_fd = fd, ci_addr = addr, ci_user_data = 0\<rparr>, cn_next = cm_clients m\<rparr>)) (\<lambda>node.
      if node = 0 then return_c 0 else
      then_c (store mgr (Manager \<lparr>cm_clients = node, cm_count = cm_count m + 1\<rparr>))
        (return_c node))))"

text \<open>\<open>&node->info\<close> is the address of the node: \<open>info\<close> is its first member.\<close>

primrec find_node :: "nat \<Rightarrow> ptr \<Rightarrow> int \<Rightarrow> ('z mem_scheme, ptr) prog" where
  "find_node 0 node fd = fuel_c"
| "find_node (Suc n) node fd =
     (if node = 0 then return_c 0 else
      bind_c (load the_node node) (\<lambda>nd.
      if ci_fd (cn_info nd) = fd then return_c node else find_node n (cn_next nd) fd))"

definition client_manager_find :: "ptr \<Rightarrow> int \<Rightarrow> ('z mem_scheme, ptr) prog" where
  "client_manager_find mgr fd =
     (if mgr = 0 then return_c 0 else
      bind_c (load the_manager mgr) (\<lambda>m. find_node LIST_FUEL (cm_clients m) fd))"

text \<open>\<open>client_node_t **pp\<close>: the place a link is kept in, the manager's or a node's.\<close>

datatype link = Head_of ptr | Next_of ptr

primrec get_link :: "link \<Rightarrow> ('z mem_scheme, ptr) prog" where
  "get_link (Head_of mgr) = bind_c (load the_manager mgr) (\<lambda>m. return_c (cm_clients m))"
| "get_link (Next_of node) = bind_c (load the_node node) (\<lambda>nd. return_c (cn_next nd))"

primrec put_link :: "link \<Rightarrow> ptr \<Rightarrow> ('z mem_scheme, unit) prog" where
  "put_link (Head_of mgr) p = bind_c (load the_manager mgr) (\<lambda>m. store mgr (Manager (m\<lparr>cm_clients := p\<rparr>)))"
| "put_link (Next_of node) p = bind_c (load the_node node) (\<lambda>nd. store node (Node (nd\<lparr>cn_next := p\<rparr>)))"

primrec remove_node :: "kernel \<Rightarrow> nat \<Rightarrow> ptr \<Rightarrow> int \<Rightarrow> link \<Rightarrow> ('z mem_scheme, unit) prog" where
  "remove_node K 0 mgr fd pp = fuel_c"
| "remove_node K (Suc n) mgr fd pp =
     bind_c (get_link pp) (\<lambda>node.
     if node = 0 then return_c () else
     bind_c (load the_node node) (\<lambda>nd.
     if ci_fd (cn_info nd) = fd then
       then_c (put_link pp (cn_next nd))
       (then_c (free_c K node)
       (bind_c (load the_manager mgr) (\<lambda>m.
         store mgr (Manager (m\<lparr>cm_count := cm_count m - 1\<rparr>)))))
     else remove_node K n mgr fd (Next_of node)))"

definition client_manager_remove :: "kernel \<Rightarrow> ptr \<Rightarrow> int \<Rightarrow> ('z mem_scheme, unit) prog" where
  "client_manager_remove K mgr fd =
     (if mgr = 0 then return_c () else remove_node K LIST_FUEL mgr fd (Head_of mgr))"

definition client_manager_count :: "ptr \<Rightarrow> ('z mem_scheme, int) prog" where
  "client_manager_count mgr =
     (if mgr = 0 then return_c 0 else
      bind_c (load the_manager mgr) (\<lambda>m. return_c (cm_count m)))"

section \<open>The list behind the pointers\<close>

type_synonym client = "ptr \<times> client_info"

text \<open>
  \<open>seg h p cs q\<close>: from \<open>p\<close>, the links lead through the nodes of \<open>cs\<close>, in order, to \<open>q\<close>. The whole
  list of a manager is a segment that ends in NULL.
\<close>

primrec seg :: "(ptr \<Rightarrow> obj option) \<Rightarrow> ptr \<Rightarrow> client list \<Rightarrow> ptr \<Rightarrow> bool" where
  "seg h p [] q \<longleftrightarrow> p = q"
| "seg h p (c # cs) q \<longleftrightarrow> p = fst c \<and> p \<noteq> 0 \<and>
     (\<exists>nx. h p = Some (Node \<lparr>cn_info = snd c, cn_next = nx\<rparr>) \<and> seg h nx cs q)"

abbreviation chain :: "(ptr \<Rightarrow> obj option) \<Rightarrow> ptr \<Rightarrow> client list \<Rightarrow> bool" where
  "chain h p cs \<equiv> seg h p cs 0"

definition registry :: "ptr \<Rightarrow> client list \<Rightarrow> 'z mem_scheme \<Rightarrow> bool" where
  "registry mgr cs s \<longleftrightarrow> heap_ok s \<and> mgr \<noteq> 0 \<and> distinct (map fst cs) \<and> length cs \<le> CLIENT_MAX_CLIENTS \<and>
     (\<exists>p. heap s mgr = Some (Manager \<lparr>cm_clients = p, cm_count = int (length cs)\<rparr>) \<and> chain (heap s) p cs)"

definition on_fd :: "int \<Rightarrow> client \<Rightarrow> bool" where
  "on_fd fd c \<longleftrightarrow> ci_fd (snd c) = fd"

text \<open>The entry \<open>client_manager_find\<close> gives, as its address, and what \<open>client_manager_remove\<close> leaves.\<close>

primrec lookup :: "int \<Rightarrow> client list \<Rightarrow> ptr" where
  "lookup fd [] = 0"
| "lookup fd (c # cs) = (if on_fd fd c then fst c else lookup fd cs)"

primrec strike :: "int \<Rightarrow> client list \<Rightarrow> client list" where
  "strike fd [] = []"
| "strike fd (c # cs) = (if on_fd fd c then cs else c # strike fd cs)"

definition new_client :: "int \<Rightarrow> sockaddr_in \<Rightarrow> client_info" where
  "new_client fd addr = \<lparr>ci_fd = fd, ci_addr = addr, ci_user_data = 0\<rparr>"

lemma strike_subset: "set (strike fd cs) \<subseteq> set cs"
  by (induction cs) auto

lemma distinct_strike: "distinct (map fst cs) \<Longrightarrow> distinct (map fst (strike fd cs))"
  using strike_subset by (induction cs) fastforce+

lemma length_strike_le: "length (strike fd cs) \<le> length cs"
  by (induction cs) auto

lemma lookup_0: "\<forall>c \<in> set cs. fst c \<noteq> 0 \<Longrightarrow> lookup fd cs = 0 \<longleftrightarrow> (\<forall>c \<in> set cs. \<not> on_fd fd c)"
  by (induction cs) auto

lemma strike_other: "\<forall>c \<in> set cs. \<not> on_fd fd c \<Longrightarrow> strike fd cs = cs"
  by (induction cs) auto

lemma seg_nodes: "seg h p cs q \<Longrightarrow> c \<in> set cs \<Longrightarrow> fst c \<noteq> 0 \<and> (\<exists>nd. h (fst c) = Some (Node nd))"
  by (induction cs arbitrary: p) auto

lemma seg_frame: "x \<notin> fst ` set cs \<Longrightarrow> seg (h(x := v)) p cs q = seg h p cs q"
  by (induction cs arbitrary: p) auto

lemma seg_append: "seg h p (ds @ cs) q \<longleftrightarrow> (\<exists>m. seg h p ds m \<and> seg h m cs q)"
  by (induction ds arbitrary: p) auto

definition first :: "client list \<Rightarrow> ptr" where
  "first cs = (case cs of [] \<Rightarrow> 0 | c # _ \<Rightarrow> fst c)"

lemma first_simps [simp]: "first [] = 0" "first (c # cs) = fst c"
  by (simp_all add: first_def)

lemma chain_first: "chain h p cs \<Longrightarrow> p = first cs"
  by (cases cs) auto

lemma registry_mgr_notin: "registry mgr cs s \<Longrightarrow> mgr \<notin> fst ` set cs"
  unfolding registry_def using seg_nodes by fastforce

text \<open>What a function of the manager may touch: the heap at \<open>A\<close>, and the allocator.\<close>

fun mem_event :: "event \<Rightarrow> bool" where
  "mem_event (Call (Malloc n) r) = True"
| "mem_event (Call (Free p) r) = True"
| "mem_event ev = False"

definition mem_step :: "ptr set \<Rightarrow> 'z mem_scheme \<Rightarrow> 'z mem_scheme \<Rightarrow> bool" where
  "mem_step A s s' \<longleftrightarrow> (\<exists>evs. trace s' = trace s @ evs \<and> list_all mem_event evs) \<and>
     (\<forall>q. q \<notin> A \<longrightarrow> heap s' q = heap s q)"

lemma mem_event_effect: "mem_event ev \<Longrightarrow> fd_event ev F = F" "mem_event ev \<Longrightarrow> watch_event ep ev W = W"
  "mem_event ev \<Longrightarrow> mode_event ev N = N"
  by (cases ev rule: mem_event.cases; simp)+

lemma mem_events_effect:
  "list_all mem_event evs \<Longrightarrow> fold fd_event evs F = F"
  "list_all mem_event evs \<Longrightarrow> fold (watch_event ep) evs W = W"
  "list_all mem_event evs \<Longrightarrow> fold mode_event evs N = N"
  by (induction evs arbitrary: F W N) (auto simp: mem_event_effect)

lemma mem_step_trace:
  "mem_step A s s' \<Longrightarrow> open_fds (trace s') = open_fds (trace s)"
  "mem_step A s s' \<Longrightarrow> watched ep (trace s') = watched ep (trace s)"
  "mem_step A s s' \<Longrightarrow> nonblocking (trace s') = nonblocking (trace s)"
  by (auto simp: mem_step_def mem_events_effect)

text \<open>What any call to the manager adds to the trace, without a word about the state it starts from.\<close>

lemma keeps_manager:
  fixes tr :: "event list"
  assumes "\<And>n r. P (Call (Malloc n) r)" and "\<And>p r. P (Call (Free p) r)"
  shows "keeps (\<lambda>s. extends P tr (trace s)) (client_manager_add K mgr fd a :: ('z mem_scheme, ptr) prog)"
    and "keeps (\<lambda>s. extends P tr (trace s)) (client_manager_remove K mgr fd :: ('z mem_scheme, unit) prog)"
proof -
  show "keeps (\<lambda>s. extends P tr (trace s)) (client_manager_add K mgr fd a :: ('z mem_scheme, ptr) prog)"
    unfolding client_manager_add_def by (intro keeps_intros keeps_alloc assms)
  have "keeps (\<lambda>s. extends P tr (trace s)) (remove_node K n mgr fd pp :: ('z mem_scheme, unit) prog)" for n pp
  proof (induction n arbitrary: pp)
    case (Suc n)
    show ?case
      unfolding remove_node.simps
      by (cases pp; simp only: get_link.simps put_link.simps; intro keeps_intros keeps_free assms Suc.IH)
  qed (simp add: keeps_fuel)
  then show "keeps (\<lambda>s. extends P tr (trace s)) (client_manager_remove K mgr fd :: ('z mem_scheme, unit) prog)"
    unfolding client_manager_remove_def by (intro keeps_intros)
qed

section \<open>Refinement\<close>

lemma find_node_run:
  "chain (heap s) p cs \<Longrightarrow> length cs < n \<Longrightarrow> find_node n p fd s = (Ret (lookup fd cs), s)"
proof (induction cs arbitrary: p n)
  case Nil
  then show ?case by (cases n) (auto simp: run_simps)
next
  case (Cons c cs)
  then obtain m where "n = Suc m" by (cases n) auto
  with Cons show ?case by (auto simp: run_simps on_fd_def)
qed

lemma list_fuel: "registry mgr cs s \<Longrightarrow> length cs < LIST_FUEL"
  by (simp add: registry_def LIST_FUEL_def)

lemma registryE:
  assumes "registry mgr cs s"
  obtains p where "heap_ok s" "mgr \<noteq> 0" "distinct (map fst cs)" "length cs \<le> CLIENT_MAX_CLIENTS"
    "heap s mgr = Some (Manager \<lparr>cm_clients = p, cm_count = int (length cs)\<rparr>)" "chain (heap s) p cs"
  using assms by (auto simp: registry_def)

lemma find_refines:
  assumes "registry mgr cs s"
  shows "client_manager_find mgr fd s = (Ret (lookup fd cs), s)"
proof -
  from assms obtain p where p: "mgr \<noteq> 0" "heap s mgr = Some (Manager \<lparr>cm_clients = p, cm_count = int (length cs)\<rparr>)"
    "chain (heap s) p cs" by (rule registryE)
  from find_node_run [OF p(3) list_fuel [OF assms]] p(1,2) show ?thesis
    by (simp add: client_manager_find_def run_simps)
qed

lemma count_refines: "registry mgr cs s \<Longrightarrow> client_manager_count mgr s = (Ret (int (length cs)), s)"
  by (auto simp: registry_def client_manager_count_def run_simps)

lemma add_refines:
  assumes "malloc_fresh K" and "registry mgr cs s"
  shows "wp (client_manager_add K mgr fd addr) (\<lambda>r s'.
    if length cs = CLIENT_MAX_CLIENTS then r = Ret 0 \<and> s' = s
    else mem_step {mgr, ptr_of (K (trace s) (Malloc SIZEOF_CLIENT_NODE))} s s' \<and>
      (let p = ptr_of (K (trace s) (Malloc SIZEOF_CLIENT_NODE)) in r = Ret p \<and>
       (if p = 0 then registry mgr cs s'
        else p \<notin> fst ` set cs \<and> p \<noteq> mgr \<and> registry mgr ((p, new_client fd addr) # cs) s'))) s"
  unfolding client_manager_add_def flat_simps
proof (intro wp_intros, goal_cases)
  case (5 m r)
  then show ?case using assms by (auto simp: registry_def mem_step_def heap_ok_def)
next
  case (8 m r p)
  from assms(2) obtain q where q: "heap_ok s" "mgr \<noteq> 0" "distinct (map fst cs)" "length cs \<le> CLIENT_MAX_CLIENTS"
    "heap s mgr = Some (Manager \<lparr>cm_clients = q, cm_count = int (length cs)\<rparr>)" "chain (heap s) q cs"
    by (rule registryE)
  have none: "heap s p = None" using heap_ok_fresh [OF assms(1) q(1), of SIZEOF_CLIENT_NODE p] 8 by simp
  then have "p \<notin> fst ` set cs" "p \<noteq> mgr" using q(5,6) seg_nodes by fastforce+
  moreover have "mgr \<notin> fst ` set cs" using assms(2) by (rule registry_mgr_notin)
  moreover have "m = \<lparr>cm_clients = q, cm_count = int (length cs)\<rparr>" using 8(3) q(5) by simp
  moreover have p: "ptr_of (K (trace s) (Malloc SIZEOF_CLIENT_NODE)) = p" using 8 by simp
  moreover have "p \<noteq> 0" "length cs \<noteq> CLIENT_MAX_CLIENTS" using 8(4,7) \<open>m = _\<close> by simp_all
  ultimately show ?case
    using q 8(6) unfolding p by (auto simp: registry_def mem_step_def heap_ok_def seg_frame new_client_def)
qed (use assms(2) in \<open>auto simp: registry_def\<close>)

definition link_of :: "ptr \<Rightarrow> client list \<Rightarrow> link" where
  "link_of mgr ds = (if ds = [] then Head_of mgr else Next_of (fst (last ds)))"

lemma get_link_run:
  assumes "registry mgr (ds @ cs) s"
  shows "get_link (link_of mgr ds) s = (Ret (first cs), s)"
proof -
  from assms obtain p where p: "mgr \<noteq> 0"
    "heap s mgr = Some (Manager \<lparr>cm_clients = p, cm_count = int (length (ds @ cs))\<rparr>)" "chain (heap s) p (ds @ cs)"
    by (rule registryE)
  show ?thesis
  proof (cases ds rule: rev_cases)
    case Nil
    then show ?thesis using p chain_first [of "heap s" p cs] by (simp add: link_of_def run_simps)
  next
    case (snoc ds' d)
    obtain nx where "fst d \<noteq> 0" "heap s (fst d) = Some (Node \<lparr>cn_info = snd d, cn_next = nx\<rparr>)" "chain (heap s) nx cs"
      using p(3) by (auto simp: snoc seg_append)
    then show ?thesis using chain_first [of "heap s" nx cs] by (simp add: snoc link_of_def run_simps)
  qed
qed

text \<open>Unlinking and freeing the node after \<open>ds\<close>, as the loop does once it has found it.\<close>

definition unlink :: "kernel \<Rightarrow> ptr \<Rightarrow> link \<Rightarrow> ptr \<Rightarrow> ptr \<Rightarrow> ('z mem_scheme, unit) prog" where
  "unlink K mgr pp node nx =
     then_c (put_link pp nx)
     (then_c (free_c K node)
     (bind_c (load the_manager mgr) (\<lambda>m. store mgr (Manager (m\<lparr>cm_count := cm_count m - 1\<rparr>)))))"

lemma unlink_wp:
  assumes "registry mgr (ds @ c # cs) s"
  shows "wp (unlink K mgr (link_of mgr ds) (fst c) (first cs)) (\<lambda>r s'. r = Ret () \<and> registry mgr (ds @ cs) s' \<and>
    heap s' (fst c) = None \<and> (\<exists>q. trace s' = trace s @ [Call (Free (fst c)) q]) \<and>
    mem_step (insert mgr (fst ` set (ds @ c # cs))) s s') s"
proof -
  from assms obtain p where p: "heap_ok s" "mgr \<noteq> 0" "distinct (map fst (ds @ c # cs))"
    "length (ds @ c # cs) \<le> CLIENT_MAX_CLIENTS"
    "heap s mgr = Some (Manager \<lparr>cm_clients = p, cm_count = int (length (ds @ c # cs))\<rparr>)"
    "chain (heap s) p (ds @ c # cs)" by (rule registryE)
  have notin: "mgr \<notin> fst ` set (ds @ c # cs)" using assms by (rule registry_mgr_notin)
  from p(6) obtain nx where c: "fst c \<noteq> 0" "heap s (fst c) = Some (Node \<lparr>cn_info = snd c, cn_next = nx\<rparr>)"
    "chain (heap s) nx cs" "seg (heap s) p ds (fst c)"
    by (auto simp: seg_append)
  then have nx: "nx = first cs" using chain_first by blast
  have dist: "fst c \<notin> fst ` set ds" "fst c \<notin> fst ` set cs" "mgr \<noteq> fst c" "mgr \<notin> fst ` set ds" "mgr \<notin> fst ` set cs"
    using p(3) notin by auto
  have dom: "dom (heap s) \<subseteq> allocated (trace s)" "heap s 0 = None" using p(1) by (auto simp: heap_ok_def)
  show ?thesis
  proof (cases ds rule: rev_cases)
    case Nil
    then show ?thesis
      unfolding unlink_def flat_simps link_of_def using p(2-5) c dist nx dom
      by (simp add: flat_simps) (intro wp_intros; auto simp: registry_def mem_step_def heap_ok_def seg_frame)
  next
    case (snoc ds' d)
    then have d: "fst d \<noteq> 0" "heap s (fst d) = Some (Node \<lparr>cn_info = snd d, cn_next = fst c\<rparr>)"
      "seg (heap s) p ds' (fst d)" "fst d \<noteq> mgr" "fst d \<noteq> fst c" "fst d \<notin> fst ` set ds'" "fst d \<notin> fst ` set cs"
      using c(4) dist p(3) by (auto simp: seg_append)
    show ?thesis
      unfolding unlink_def flat_simps link_of_def using p(2-5) c dist nx dom d snoc
      by (simp add: flat_simps) (intro wp_intros; auto simp: registry_def mem_step_def heap_ok_def seg_frame seg_append)
  qed
qed

text \<open>What \<open>client_manager_remove\<close> does, as a relation on lists and heaps.\<close>

definition removed :: "ptr \<Rightarrow> int \<Rightarrow> client list \<Rightarrow> client list \<Rightarrow> 'z mem_scheme \<Rightarrow> 'z mem_scheme \<Rightarrow> bool" where
  "removed mgr fd ds cs s s' \<longleftrightarrow> registry mgr (ds @ strike fd cs) s' \<and>
     mem_step (insert mgr (fst ` set (ds @ cs))) s s' \<and>
     (if lookup fd cs = 0 then s' = s
      else heap s' (lookup fd cs) = None \<and> (\<exists>q. trace s' = trace s @ [Call (Free (lookup fd cs)) q]))"

lemma remove_node_wp:
  fixes s :: "'z mem_scheme"
  assumes "registry mgr (ds @ cs) s" and "length cs < n"
  shows "wp (remove_node K n mgr fd (link_of mgr ds)) (\<lambda>r s'. r = Ret () \<and> removed mgr fd ds cs s s') s"
  using assms
proof (induction cs arbitrary: ds n)
  case Nil
  then obtain m where "n = Suc m" by (cases n) auto
  with Nil.prems(1) show ?case
    using get_link_run [OF Nil.prems(1)] by (simp add: wp_def run_simps removed_def mem_step_def)
next
  case (Cons c cs)
  then obtain m where n: "n = Suc m" by (cases n) auto
  note get = get_link_run [OF Cons.prems(1)]
  from Cons.prems(1) obtain p where "chain (heap s) p (ds @ c # cs)" by (rule registryE)
  then obtain nx where c: "fst c \<noteq> 0" "heap s (fst c) = Some (Node \<lparr>cn_info = snd c, cn_next = nx\<rparr>)" "nx = first cs"
    using chain_first by (fastforce simp: seg_append)
  show ?case
  proof (cases "on_fd fd c")
    case True
    then have "remove_node K n mgr fd (link_of mgr ds) s = unlink K mgr (link_of mgr ds) (fst c) (first cs) s"
      using get c by (simp add: n run_simps on_fd_def unlink_def)
    moreover have "wp (unlink K mgr (link_of mgr ds) (fst c) (first cs)) (\<lambda>r s'. r = Ret () \<and> removed mgr fd ds (c # cs) s s') s"
      by (rule wp_mono [OF unlink_wp [OF Cons.prems(1)]]) (use True c in \<open>simp add: removed_def\<close>)
    ultimately show ?thesis by (simp add: wp_def)
  next
    case False
    then have "remove_node K n mgr fd (link_of mgr ds) s = remove_node K m mgr fd (link_of mgr (ds @ [c])) s"
      using get c by (simp add: n run_simps on_fd_def link_of_def)
    moreover have "registry mgr ((ds @ [c]) @ cs) s" "length cs < m" using Cons.prems n by simp_all
    from Cons.IH [OF this]
    have "wp (remove_node K m mgr fd (link_of mgr (ds @ [c]))) (\<lambda>r s'. r = Ret () \<and> removed mgr fd ds (c # cs) s s') s"
      by (rule wp_mono) (use False in \<open>auto simp: removed_def\<close>)
    ultimately show ?thesis by (simp add: wp_def)
  qed
qed

lemma remove_refines:
  assumes "registry mgr cs s"
  shows "wp (client_manager_remove K mgr fd) (\<lambda>r s'. r = Ret () \<and> removed mgr fd [] cs s s') s"
proof -
  have "registry mgr ([] @ cs) s" using assms by simp
  from remove_node_wp [OF this list_fuel [OF assms], of K fd] have
    "wp (remove_node K LIST_FUEL mgr fd (Head_of mgr)) (\<lambda>r s'. r = Ret () \<and> removed mgr fd [] cs s s') s"
    by (simp add: link_of_def)
  then show ?thesis using assms by (auto simp: client_manager_remove_def registry_def)
qed

lemma create_refines:
  assumes "malloc_fresh K" and "heap_ok s" and "ptr_of (K (trace s) (Malloc SIZEOF_CLIENT_MANAGER)) = p"
  shows "wp (client_manager_create K) (\<lambda>r s'. r = Ret p \<and> mem_step {p} s s' \<and> heap_ok s' \<and> heap s p = None \<and>
    (if p = 0 then heap s' = heap s else registry p [] s')) s"
  unfolding client_manager_create_def alloc_c_def flat_simps
  using assms heap_ok_fresh [OF assms] by (intro wp_intros) (auto simp: heap_ok_def registry_def mem_step_def)

text \<open>Destruction frees every node, in list order, then the manager.\<close>

lemma free_nodes_wp:
  fixes s :: "'z mem_scheme"
  assumes "chain (heap s) p cs" and "distinct (map fst cs)" and "length cs < n"
  shows "wp (free_nodes K n p) (\<lambda>r s'. r = Ret () \<and>
    (\<exists>qs. length qs = length cs \<and> trace s' = trace s @ map2 (\<lambda>c q. Call (Free (fst c)) q) cs qs) \<and>
    heap s' = (\<lambda>x. if x \<in> fst ` set cs then None else heap s x)) s"
  using assms
proof (induction cs arbitrary: p n s)
  case Nil
  then show ?case by (cases n) (auto simp: wp_def run_simps)
next
  case (Cons c cs)
  then obtain m where n: "n = Suc m" by (cases n) auto
  obtain nx where nx: "p = fst c" "p \<noteq> 0" "heap s p = Some (Node \<lparr>cn_info = snd c, cn_next = nx\<rparr>)" "chain (heap s) nx cs"
    using Cons.prems(1) by auto
  let ?q = "K (trace s) (Free p)"
  let ?s = "(after (Free p) ?q s)\<lparr>heap := (heap s)(p := None)\<rparr>"
  have run: "free_nodes K n p s = free_nodes K m nx ?s"
    using nx by (simp add: n run_simps free_c_def)
  have "chain (heap ?s) nx cs" using nx Cons.prems(2) by (simp add: seg_frame)
  moreover have "distinct (map fst cs)" "length cs < m" using Cons.prems n by simp_all
  ultimately have IH: "wp (free_nodes K m nx) (\<lambda>r s'. r = Ret () \<and>
    (\<exists>qs. length qs = length cs \<and> trace s' = trace ?s @ map2 (\<lambda>c q. Call (Free (fst c)) q) cs qs) \<and>
    heap s' = (\<lambda>x. if x \<in> fst ` set cs then None else heap ?s x)) ?s"
    by (rule Cons.IH)
  have "wp (free_nodes K m nx) (\<lambda>r s'. r = Ret () \<and>
    (\<exists>qs. length qs = length (c # cs) \<and> trace s' = trace s @ map2 (\<lambda>c q. Call (Free (fst c)) q) (c # cs) qs) \<and>
    heap s' = (\<lambda>x. if x \<in> fst ` set (c # cs) then None else heap s x)) ?s"
  proof (rule wp_mono [OF IH], elim conjE exE, intro conjI)
    fix r s' qs
    assume "length qs = length cs" and "trace s' = trace ?s @ map2 (\<lambda>c q. Call (Free (fst c)) q) cs qs"
    then show "\<exists>qs. length qs = length (c # cs) \<and> trace s' = trace s @ map2 (\<lambda>c q. Call (Free (fst c)) q) (c # cs) qs"
      using nx(1) by (intro exI [of _ "?q # qs"]) simp
  qed (use nx(1) in \<open>auto simp: fun_eq_iff\<close>)
  then show ?case unfolding wp_def run .
qed

lemma destroy_refines:
  assumes "registry mgr cs s"
  shows "wp (client_manager_destroy K mgr) (\<lambda>r s'. r = Ret () \<and>
    (\<exists>qs. length qs = Suc (length cs) \<and> trace s' = trace s @ map2 (\<lambda>p q. Call (Free p) q) (map fst cs @ [mgr]) qs) \<and>
    heap s' = (\<lambda>x. if x \<in> insert mgr (fst ` set cs) then None else heap s x)) s"
proof -
  from assms obtain p where p: "mgr \<noteq> 0" "distinct (map fst cs)"
    "heap s mgr = Some (Manager \<lparr>cm_clients = p, cm_count = int (length cs)\<rparr>)" "chain (heap s) p cs" by (rule registryE)
  have notin: "mgr \<notin> fst ` set cs" using assms by (rule registry_mgr_notin)
  show ?thesis
    unfolding client_manager_destroy_def flat_simps
  proof (intro wp_intros, goal_cases)
    case (4 m)
    then have "m = \<lparr>cm_clients = p, cm_count = int (length cs)\<rparr>" using p(3) by simp
    then have m: "cm_clients m = p" by simp
    show ?case unfolding m
    proof (rule wp_bind [OF free_nodes_wp [OF p(4,2) list_fuel [OF assms]]], elim conjE exE)
      fix x s' qs
      assume s': "length qs = length cs" "trace s' = trace s @ map2 (\<lambda>c q. Call (Free (fst c)) q) cs qs"
        "heap s' = (\<lambda>x. if x \<in> fst ` set cs then None else heap s x)"
      let ?q = "K (trace s') (Free mgr)"
      have "map2 (\<lambda>c q. Call (Free (fst c)) q) cs qs = map2 (\<lambda>p q. Call (Free p) q) (map fst cs) qs"
        by (simp add: zip_map1 case_prod_unfold)
      then have "trace s' @ [Call (Free mgr) ?q] =
        trace s @ map2 (\<lambda>p q. Call (Free p) q) (map fst cs @ [mgr]) (qs @ [?q])"
        using s'(1,2) by simp
      then show "wp (free_c K mgr) (\<lambda>r s'. r = Ret () \<and>
        (\<exists>qs. length qs = Suc (length cs) \<and> trace s' = trace s @ map2 (\<lambda>p q. Call (Free p) q) (map fst cs @ [mgr]) qs) \<and>
        heap s' = (\<lambda>x. if x \<in> insert mgr (fst ` set cs) then None else heap s x)) s'"
        using s' p(3) notin
        by (intro wp_intros) (auto simp: fun_eq_iff intro!: exI [of _ "qs @ [?q]"])
    qed simp_all
  qed (use p in simp_all)
qed

section \<open>The interface\<close>

text \<open>
  What a user of a client registry may rely on, over the list of clients \<open>cs\<close> it stands for:
  newest first, looked up and struck out by descriptor.
\<close>

datatype reg_op = Add int sockaddr_in | Remove int

text \<open>
  A session of additions and removals, with what each addition returned; and the list after
  it, given these results (an addition may fail for want of memory).
\<close>

primrec session ::
    "(int \<Rightarrow> sockaddr_in \<Rightarrow> ('s, ptr) prog) \<Rightarrow> (int \<Rightarrow> ('s, unit) prog) \<Rightarrow> reg_op list \<Rightarrow> ('s, ptr list) prog" where
  "session add remove [] = return_c []"
| "session add remove (op # ops) =
     bind_c (case op of Add fd a \<Rightarrow> add fd a | Remove fd \<Rightarrow> then_c (remove fd) (return_c 0)) (\<lambda>p.
     bind_c (session add remove ops) (\<lambda>ps. return_c (p # ps)))"

fun replay :: "reg_op list \<Rightarrow> ptr list \<Rightarrow> client list \<Rightarrow> client list" where
  "replay (Add fd a # ops) (p # ps) cs = replay ops ps (if p = 0 then cs else (p, new_client fd a) # cs)"
| "replay (Remove fd # ops) (p # ps) cs = replay ops ps (strike fd cs)"
| "replay _ _ cs = cs"

locale client_registry =
  fixes holds :: "client list \<Rightarrow> 's \<Rightarrow> bool"
    and add :: "int \<Rightarrow> sockaddr_in \<Rightarrow> ('s, ptr) prog"
    and find :: "int \<Rightarrow> ('s, ptr) prog"
    and remove :: "int \<Rightarrow> ('s, unit) prog"
    and count :: "('s, int) prog"
  assumes find_law: "holds cs s \<Longrightarrow> find fd s = (Ret (lookup fd cs), s)"
    and count_law: "holds cs s \<Longrightarrow> count s = (Ret (int (length cs)), s)"
    and bound_law: "holds cs s \<Longrightarrow> length cs \<le> CLIENT_MAX_CLIENTS"
    and add_law: "holds cs s \<Longrightarrow> \<exists>p s'. add fd a s = (Ret p, s') \<and>
      (if p = 0 then holds cs s'
       else p \<notin> fst ` set cs \<and> length cs < CLIENT_MAX_CLIENTS \<and> holds ((p, new_client fd a) # cs) s')"
    and remove_law: "holds cs s \<Longrightarrow> \<exists>s'. remove fd s = (Ret (), s') \<and> holds (strike fd cs) s'"
begin

lemma find_after_add:
  assumes "holds cs s" and "add fd a s = (Ret p, s')" and "p \<noteq> 0"
  shows "find fd s' = (Ret p, s')" and "fd' \<noteq> fd \<Longrightarrow> find fd' s' = (Ret (lookup fd' cs), s')"
    and "count s' = (Ret (int (length cs) + 1), s')"
proof -
  have "holds ((p, new_client fd a) # cs) s'" using add_law [OF assms(1), of fd a] assms(2,3) by auto
  then show "find fd s' = (Ret p, s')" and "fd' \<noteq> fd \<Longrightarrow> find fd' s' = (Ret (lookup fd' cs), s')"
    and "count s' = (Ret (int (length cs) + 1), s')"
    using find_law count_law by (auto simp: on_fd_def new_client_def)
qed

lemma remove_undoes_add:
  assumes "holds cs s" and "add fd a s = (Ret p, s')" and "p \<noteq> 0"
  shows "\<exists>s''. remove fd s' = (Ret (), s'') \<and> holds cs s''"
proof -
  have "holds ((p, new_client fd a) # cs) s'" using add_law [OF assms(1), of fd a] assms(2,3) by auto
  from remove_law [OF this, of fd] show ?thesis by (auto simp: on_fd_def new_client_def)
qed

lemma session_refines:
  "holds cs s \<Longrightarrow> \<exists>ps s'. session add remove ops s = (Ret ps, s') \<and> length ps = length ops \<and>
     holds (replay ops ps cs) s'"
proof (induction ops arbitrary: cs s)
  case Nil
  then show ?case by (simp add: run_simps)
next
  case (Cons op ops)
  show ?case
  proof (cases op)
    case (Add fd a)
    obtain p s1 where s1: "add fd a s = (Ret p, s1)" "holds (if p = 0 then cs else (p, new_client fd a) # cs) s1"
      using add_law [OF Cons.prems, of fd a] by (auto split: if_splits)
    from Cons.IH [OF s1(2)] s1(1) show ?thesis by (auto simp: Add run_simps)
  next
    case (Remove fd)
    obtain s1 where s1: "remove fd s = (Ret (), s1)" "holds (strike fd cs) s1"
      using remove_law [OF Cons.prems, of fd] by auto
    from Cons.IH [OF s1(2)] s1(1) show ?thesis by (auto simp: Remove run_simps)
  qed
qed

lemma session_find_count:
  assumes "holds cs s"
  shows "\<exists>ps s'. session add remove ops s = (Ret ps, s') \<and> length ps = length ops \<and>
     find fd s' = (Ret (lookup fd (replay ops ps cs)), s') \<and>
     count s' = (Ret (int (length (replay ops ps cs))), s') \<and>
     length (replay ops ps cs) \<le> CLIENT_MAX_CLIENTS"
  using session_refines [OF assms, of ops] find_law count_law bound_law by blast

end

lemma add_contract:
  assumes "malloc_fresh K" and "registry mgr cs s"
  shows "\<exists>p s'. client_manager_add K mgr fd a s = (Ret p, s') \<and>
    (if p = 0 then registry mgr cs s'
     else p \<notin> fst ` set cs \<and> length cs < CLIENT_MAX_CLIENTS \<and> registry mgr ((p, new_client fd a) # cs) s')"
proof -
  obtain r s' where r: "client_manager_add K mgr fd a s = (r, s')" by fastforce
  have "length cs \<le> CLIENT_MAX_CLIENTS" using assms(2) by (rule registryE)
  with wpD [OF add_refines [OF assms] r] r assms(2) show ?thesis by (auto simp: Let_def split: if_splits)
qed

lemma remove_contract:
  assumes "registry mgr cs s"
  shows "\<exists>s'. client_manager_remove K mgr fd s = (Ret (), s') \<and> registry mgr (strike fd cs) s'"
proof -
  obtain r s' where r: "client_manager_remove K mgr fd s = (r, s')" by fastforce
  from wpD [OF remove_refines [OF assms] r] r show ?thesis by (simp add: removed_def)
qed

interpretation cm: client_registry "\<lambda>cs s. malloc_fresh K \<and> registry mgr cs s" "client_manager_add K mgr"
    "client_manager_find mgr" "client_manager_remove K mgr" "client_manager_count mgr"
  for K :: kernel and mgr :: ptr
proof unfold_locales
  fix cs :: "client list" and s :: "'a mem_scheme" and fd a
  assume h: "malloc_fresh K \<and> registry mgr cs s"
  then show "client_manager_find mgr fd s = (Ret (lookup fd cs), s)" by (simp add: find_refines)
  show "client_manager_count mgr s = (Ret (int (length cs)), s)" using h by (simp add: count_refines)
  show "length cs \<le> CLIENT_MAX_CLIENTS" using h by (simp add: registry_def)
  show "\<exists>p s'. client_manager_add K mgr fd a s = (Ret p, s') \<and>
      (if p = 0 then malloc_fresh K \<and> registry mgr cs s'
       else p \<notin> fst ` set cs \<and> length cs < CLIENT_MAX_CLIENTS \<and>
         malloc_fresh K \<and> registry mgr ((p, new_client fd a) # cs) s')"
    using add_contract [of K mgr cs s fd a] h by fastforce
  show "\<exists>s'. client_manager_remove K mgr fd s = (Ret (), s') \<and> malloc_fresh K \<and> registry mgr (strike fd cs) s'"
    using remove_contract [of mgr cs s K fd] h by auto
qed

section \<open>Properties\<close>

text \<open>
  C5. The pointer program is the list: from an empty manager, any series of additions and
  removals runs without fault or endless loop, whatever the allocator does; afterwards
  \<open>client_manager_find\<close> returns the newest entry still registered for a descriptor (NULL if
  there is none), \<open>client_manager_count\<close> the number of entries, and there are at most 1000.
\<close>

theorem registry_session:
  fixes s :: "'z mem_scheme"
  assumes "malloc_fresh K" and "registry mgr [] s"
  shows "\<exists>ps s'. session (client_manager_add K mgr) (client_manager_remove K mgr) ops s = (Ret ps, s') \<and>
     length ps = length ops \<and>
     client_manager_find mgr fd s' = (Ret (lookup fd (replay ops ps [])), s') \<and>
     client_manager_count mgr s' = (Ret (int (length (replay ops ps []))), s') \<and>
     length (replay ops ps []) \<le> 1000"
  using cm.session_find_count [of K mgr "[]" s ops fd] assms by (simp add: CLIENT_MAX_CLIENTS_def)

text \<open>
  What was added is found, and removing it gives the registry back: after a successful
  addition, \<open>client_manager_find\<close> on its descriptor returns the very entry, other descriptors
  are unaffected, the count is one more, and \<open>client_manager_remove\<close> restores the old list.
\<close>

theorem registry_add_find_remove:
  fixes s :: "'z mem_scheme"
  assumes "malloc_fresh K" and "registry mgr cs s" and "client_manager_add K mgr fd a s = (Ret p, s')" and "p \<noteq> 0"
  shows "client_manager_find mgr fd s' = (Ret p, s') \<and>
    (\<forall>fd'. fd' \<noteq> fd \<longrightarrow> client_manager_find mgr fd' s' = (Ret (lookup fd' cs), s')) \<and>
    client_manager_count mgr s' = (Ret (int (length cs) + 1), s') \<and>
    (\<exists>s''. client_manager_remove K mgr fd s' = (Ret (), s'') \<and> registry mgr cs s'')"
  using cm.find_after_add [OF _ assms(3,4), of cs] cm.remove_undoes_add [OF _ assms(3,4), of cs] assms(1,2) by simp

text \<open>
  The thousand-and-first client is refused: on a full manager \<open>client_manager_add\<close> returns
  NULL without calling the allocator and without changing anything.
\<close>

theorem registry_full:
  fixes s :: "'z mem_scheme"
  assumes "registry mgr cs s" and "length cs = 1000"
  shows "client_manager_add K mgr fd a s = (Ret 0, s)"
  using assms by (auto simp: client_manager_add_def registry_def run_simps CLIENT_MAX_CLIENTS_def)

text \<open>
  Destroying a manager frees every node and the manager itself, each exactly once and
  after its last use, and nothing else; every function accepts a NULL manager and does
  nothing then.
\<close>

theorem registry_destroy:
  fixes s :: "'z mem_scheme"
  assumes "registry mgr cs s"
  shows "(\<exists>s' qs. client_manager_destroy K mgr s = (Ret (), s') \<and> length qs = Suc (length cs) \<and>
      trace s' = trace s @ map2 (\<lambda>p q. Call (Free p) q) (map fst cs @ [mgr]) qs \<and>
      distinct (map fst cs @ [mgr]) \<and> dom (heap s') = dom (heap s) - set (map fst cs @ [mgr])) \<and>
    client_manager_destroy K 0 s = (Ret (), s) \<and> client_manager_add K 0 fd a s = (Ret 0, s) \<and>
    client_manager_find 0 fd s = (Ret 0, s) \<and> client_manager_remove K 0 fd s = (Ret (), s) \<and>
    client_manager_count 0 s = (Ret 0, s)"
proof -
  obtain r s' where r: "client_manager_destroy K mgr s = (r, s')" by fastforce
  have dist: "distinct (map fst cs @ [mgr])"
    using registry_mgr_notin [OF assms] assms by (simp add: registry_def)
  from wpD [OF destroy_refines [OF assms] r] obtain qs where d: "r = Ret ()" "length qs = Suc (length cs)"
    "trace s' = trace s @ map2 (\<lambda>p q. Call (Free p) q) (map fst cs @ [mgr]) qs"
    "heap s' = (\<lambda>x. if x \<in> insert mgr (fst ` set cs) then None else heap s x)" by blast
  have "dom (heap s') = dom (heap s) - set (map fst cs @ [mgr])"
    unfolding d(4) dom_def by (force split: if_splits)
  then have "\<exists>s' qs. client_manager_destroy K mgr s = (Ret (), s') \<and> length qs = Suc (length cs) \<and>
      trace s' = trace s @ map2 (\<lambda>p q. Call (Free p) q) (map fst cs @ [mgr]) qs \<and>
      distinct (map fst cs @ [mgr]) \<and> dom (heap s') = dom (heap s) - set (map fst cs @ [mgr])"
    using r d(1-3) dist by blast
  then show ?thesis
    by (simp add: client_manager_destroy_def client_manager_add_def client_manager_find_def
        client_manager_remove_def client_manager_count_def run_simps)
qed

text \<open>
  Descriptors are not unique in the registry: adding a descriptor that is already
  registered succeeds, the new entry hides the old one, and one removal uncovers the old
  one again, which stays registered and counted.
\<close>

theorem registry_keeps_stale_entry:
  fixes s :: "'z mem_scheme"
  assumes "malloc_fresh K" and "registry mgr cs s" and "client_manager_add K mgr fd a s = (Ret p, s1)" and "p \<noteq> 0"
    and "client_manager_add K mgr fd b s1 = (Ret q, s2)" and "q \<noteq> 0"
    and "client_manager_remove K mgr fd s2 = (Ret (), s3)"
  shows "client_manager_find mgr fd s2 = (Ret q, s2) \<and> client_manager_find mgr fd s3 = (Ret p, s3) \<and>
    client_manager_count mgr s3 = (Ret (int (length cs) + 1), s3) \<and> q \<noteq> p"
proof -
  have r1: "registry mgr ((p, new_client fd a) # cs) s1"
    using add_contract [OF assms(1,2), of fd a] assms(3,4) by auto
  have r2: "q \<notin> fst ` set ((p, new_client fd a) # cs)" "registry mgr ((q, new_client fd b) # (p, new_client fd a) # cs) s2"
    using add_contract [OF assms(1) r1, of fd b] assms(5,6) by auto
  have "registry mgr ((p, new_client fd a) # cs) s3"
    using remove_contract [OF r2(2), of K fd] assms(7) by (auto simp: on_fd_def new_client_def)
  from find_refines [OF this, of fd] count_refines [OF this] find_refines [OF r2(2), of fd] r2(1)
  show ?thesis by (simp add: on_fd_def new_client_def)
qed

section \<open>Concrete runs\<close>

text \<open>An empty manager at address 4160, as \<open>client_manager_create\<close> makes it in the sample environment.\<close>

definition sample_mem :: mem where
  "sample_mem = \<lparr>trace = [Call (Malloc SIZEOF_CLIENT_MANAGER) (Val 4160)], errno = 0,
     heap = [4160 \<mapsto> Manager \<lparr>cm_clients = 0, cm_count = 0\<rparr>]\<rparr>"

lemma sample_registry: "registry 4160 [] sample_mem"
  by (simp add: registry_def sample_mem_def heap_ok_def ptr_of_def allocated_def)

definition any_addr :: sockaddr_in where
  "any_addr = \<lparr>sin_family = AF_INET, sin_port = 0, sin_addr = INADDR_ANY\<rparr>"

lemma sample_add:
  "\<exists>s'. client_manager_add sample_kernel 4160 fd any_addr sample_mem = (Ret 4224, s') \<and>
     registry 4160 [(4224, new_client fd any_addr)] s'"
proof -
  have "ptr_of (sample_kernel (trace sample_mem) (Malloc SIZEOF_CLIENT_NODE)) = 4224"
    by (simp add: sample_mem_def sample_kernel_def ptr_of_def)
  then show ?thesis
    using add_refines [OF sample_malloc_fresh sample_registry, of fd any_addr]
    by (cases "client_manager_add sample_kernel 4160 fd any_addr sample_mem")
      (simp add: wp_def CLIENT_MAX_CLIENTS_def Let_def)
qed

theorem registry_session_witness:
  "\<exists>ps s'. session (client_manager_add sample_kernel 4160) (client_manager_remove sample_kernel 4160)
       [Add 5 any_addr, Remove 5, Remove 7] sample_mem = (Ret ps, s') \<and>
     client_manager_find 4160 7 s' = (Ret (lookup 7 (replay [Add 5 any_addr, Remove 5, Remove 7] ps [])), s')"
  using registry_session [OF sample_malloc_fresh sample_registry, of "[Add 5 any_addr, Remove 5, Remove 7]" 7]
  by blast

theorem registry_add_find_remove_witness:
  "\<exists>s' s''. client_manager_add sample_kernel 4160 5 any_addr sample_mem = (Ret 4224, s') \<and>
     client_manager_find 4160 5 s' = (Ret 4224, s') \<and>
     client_manager_remove sample_kernel 4160 5 s' = (Ret (), s'') \<and> registry 4160 [] s''"
proof -
  obtain s' where s': "client_manager_add sample_kernel 4160 5 any_addr sample_mem = (Ret 4224, s')"
    using sample_add by blast
  from registry_add_find_remove [OF sample_malloc_fresh sample_registry s'] s' show ?thesis by auto
qed

text \<open>A full registry: nodes 1 to 1000 in a row, the manager at 2000.\<close>

definition full_list :: "nat \<Rightarrow> client list" where
  "full_list n = map (\<lambda>k. (k, new_client (int k) any_addr)) (rev [1..<Suc n])"

definition full_mem :: "nat \<Rightarrow> mem" where
  "full_mem n = \<lparr>trace = map (\<lambda>p. Call (Malloc 40) (Val (int p))) ([1..<Suc n] @ [2000]), errno = 0,
     heap = (\<lambda>p. if p = 2000 then Some (Manager \<lparr>cm_clients = n, cm_count = int n\<rparr>)
       else if 1 \<le> p \<and> p \<le> n then Some (Node \<lparr>cn_info = new_client (int p) any_addr, cn_next = p - 1\<rparr>) else None)\<rparr>"

lemma full_seg:
  assumes "n \<le> m" and "\<forall>p. 1 \<le> p \<and> p \<le> m \<longrightarrow> h p = Some (Node \<lparr>cn_info = new_client (int p) any_addr, cn_next = p - 1\<rparr>)"
  shows "chain h n (full_list n)"
  using assms(1)
proof (induction n)
  case (Suc n)
  then show ?case using assms(2) by (simp add: full_list_def)
qed (simp add: full_list_def)

lemma allocated_mallocs:
  "\<forall>p \<in> set ps. 0 < p \<Longrightarrow> fold alloc_event (map (\<lambda>p. Call (Malloc k) (Val (int p))) ps) A = A \<union> set ps"
  by (induction ps arbitrary: A) (auto simp: ptr_of_def)

lemma full_registry:
  assumes "n \<le> 1000"
  shows "registry 2000 (full_list n) (full_mem n)"
proof -
  have "\<forall>p \<in> set ([1..<Suc n] @ [2000]). 0 < p" by (simp del: upt_Suc)
  from allocated_mallocs [OF this, of 40 "{}"] have
    al: "allocated (trace (full_mem n)) = set ([1..<Suc n] @ [2000])"
    unfolding full_mem_def allocated_def os.simps by simp
  have "dom (heap (full_mem n)) \<subseteq> set ([1..<Suc n] @ [2000])" "heap (full_mem n) 0 = None"
    by (auto simp: full_mem_def split: if_splits)
  then have "heap_ok (full_mem n)" unfolding heap_ok_def al by blast
  moreover have "chain (heap (full_mem n)) n (full_list n)"
    by (rule full_seg [of n n]) (use assms in \<open>auto simp: full_mem_def\<close>)
  moreover have "map fst (full_list n) = rev [1..<Suc n]" "length (full_list n) = n"
    by (simp_all add: full_list_def o_def)
  ultimately show ?thesis
    using assms by (simp add: registry_def CLIENT_MAX_CLIENTS_def full_mem_def)
qed

theorem registry_full_witness:
  "client_manager_add sample_kernel 2000 5 any_addr (full_mem 1000) = (Ret 0, full_mem 1000)"
  by (rule registry_full [OF full_registry]) (simp_all add: full_list_def)

theorem registry_destroy_witness:
  "\<exists>s' qs. client_manager_destroy sample_kernel 2000 (full_mem 2) = (Ret (), s') \<and>
     trace s' = trace (full_mem 2) @ map2 (\<lambda>p q. Call (Free p) q) [2, 1, 2000] qs"
proof -
  have l: "map fst (full_list 2) @ [2000] = [2, 1, 2000]" by (simp add: full_list_def numeral_2_eq_2)
  have "(2::nat) \<le> 1000" by simp
  from registry_destroy [OF full_registry [OF this], of sample_kernel] show ?thesis unfolding l by blast
qed

theorem registry_keeps_stale_entry_witness:
  "\<exists>s1 s2 s3 q. client_manager_add sample_kernel 4160 5 any_addr sample_mem = (Ret 4224, s1) \<and>
     client_manager_add sample_kernel 4160 5 any_addr s1 = (Ret q, s2) \<and>
     client_manager_remove sample_kernel 4160 5 s2 = (Ret (), s3) \<and>
     client_manager_find 4160 5 s3 = (Ret 4224, s3)"
proof -
  obtain s1 where s1: "client_manager_add sample_kernel 4160 5 any_addr sample_mem = (Ret 4224, s1)"
    "registry 4160 [(4224, new_client 5 any_addr)] s1" using sample_add by blast
  obtain q s2 where s2: "client_manager_add sample_kernel 4160 5 any_addr s1 = (Ret q, s2)" "q \<noteq> 0"
  proof -
    have "ptr_of (sample_kernel tr (Malloc k)) \<noteq> 0" for tr k
      using max_alloc_bound(1) [of tr] by (simp add: sample_kernel_def ptr_of_def)
    then show ?thesis
      using add_refines [OF sample_malloc_fresh s1(2), of 5 any_addr] that
      by (cases "client_manager_add sample_kernel 4160 5 any_addr s1")
        (auto simp: wp_def CLIENT_MAX_CLIENTS_def Let_def)
  qed
  obtain s3 where s3: "client_manager_remove sample_kernel 4160 5 s2 = (Ret (), s3)"
    using remove_contract [of 4160 _ s2 sample_kernel 5] add_contract [OF sample_malloc_fresh s1(2), of 5 any_addr] s2 by auto
  from registry_keeps_stale_entry [OF sample_malloc_fresh sample_registry s1(1) _ s2 s3] s1(1) s2(1) s3
  show ?thesis by auto
qed

end
