(* ===== verification/Libepoll.thy ===== *)
theory Libepoll
  imports Heap
begin

text \<open>
  The epoll wrapper (\<^verbatim>\<open>src/internal/libepoll.c\<close>): a handler object with the descriptor of
  the epoll instance and a buffer of 64 events. What an instance watches is read off the
  trace (\<open>watched\<close>); the locale \<open>fd_poller\<close> states what a user of the wrapper relies on.
\<close>

section \<open>Operations\<close>

definition EPOLL_MAX_EVENTS :: nat where "EPOLL_MAX_EVENTS = 64"
definition SIZEOF_EPOLL_HANDLER :: nat where "SIZEOF_EPOLL_HANDLER = 772"

definition epoll_handler_create :: "kernel \<Rightarrow> ('z mem_scheme, ptr) prog" where
  "epoll_handler_create K =
     bind_c (alloc_c K SIZEOF_EPOLL_HANDLER
       (Handler \<lparr>eh_epoll_fd = 0, eh_events = replicate EPOLL_MAX_EVENTS (0, 0)\<rparr>)) (\<lambda>handler.
     if handler = 0 then return_c 0 else
     bind_c (sys_int K Epoll_create) (\<lambda>fd.
     bind_c (load the_handler handler) (\<lambda>h.
     then_c (store handler (Handler (h\<lparr>eh_epoll_fd := fd\<rparr>)))
     (if fd = -1 then
        then_c (perror ''epoll_create1'')
        (then_c (free_c K handler)
          (return_c 0))
      else return_c handler))))"

definition epoll_handler_destroy :: "kernel \<Rightarrow> ptr \<Rightarrow> ('z mem_scheme, unit) prog" where
  "epoll_handler_destroy K handler =
     (if handler = 0 then return_c () else
      bind_c (load the_handler handler) (\<lambda>h.
      then_c (if eh_epoll_fd h \<noteq> -1 then sys_ignore K (Close (eh_epoll_fd h)) else return_c ())
        (free_c K handler)))"

definition epoll_handler_add ::
    "kernel \<Rightarrow> ptr \<Rightarrow> int \<Rightarrow> ptr \<Rightarrow> 32 word \<Rightarrow> ('z mem_scheme, int) prog" where
  "epoll_handler_add K handler fd p events =
     (if handler = 0 then return_c (-1) else
      bind_c (load the_handler handler) (\<lambda>h.
      bind_c (sys_int K (Epoll_add (eh_epoll_fd h) fd p events)) (\<lambda>r.
      if r = -1 then then_c (perror ''epoll_ctl: add'') (return_c (-1))
      else return_c 0)))"

definition epoll_handler_remove :: "kernel \<Rightarrow> ptr \<Rightarrow> int \<Rightarrow> ('z mem_scheme, int) prog" where
  "epoll_handler_remove K handler fd =
     (if handler = 0 then return_c (-1) else
      bind_c (load the_handler handler) (\<lambda>h.
      bind_c (sys_int K (Epoll_del (eh_epoll_fd h) fd)) (\<lambda>r.
      if r = -1 then then_c (perror ''epoll_ctl: del'') (return_c (-1))
      else return_c 0)))"

text \<open>
  The callback gets the pointer stored for the descriptor. The buffer is read anew for every
  event, so a callback that frees the handler or waits on it again is felt by the loop.
\<close>

type_synonym ('s) event_callback = "ptr \<Rightarrow> 32 word \<Rightarrow> ptr \<Rightarrow> ('s, unit) prog"

primrec dispatch ::
    "ptr \<Rightarrow> 'z mem_scheme event_callback \<Rightarrow> ptr \<Rightarrow> nat list \<Rightarrow> ('z mem_scheme, unit) prog" where
  "dispatch handler callback user_data [] = return_c ()"
| "dispatch handler callback user_data (i # js) =
     bind_c (load the_handler handler) (\<lambda>h.
     bind_c (require_c Out_of_bounds (if i < length (eh_events h) then Some (eh_events h ! i) else None)) (\<lambda>(p, ev).
     then_c (callback p ev user_data) (dispatch handler callback user_data js)))"

definition epoll_handler_wait ::
    "kernel \<Rightarrow> ptr \<Rightarrow> int \<Rightarrow> 'z mem_scheme event_callback option \<Rightarrow> ptr \<Rightarrow> ('z mem_scheme, int) prog" where
  "epoll_handler_wait K handler timeout_ms callback user_data =
     (case callback of None \<Rightarrow> return_c (-1) | Some cb \<Rightarrow>
      if handler = 0 then return_c (-1) else
      bind_c (load the_handler handler) (\<lambda>h.
      bind_c (sys K (Epoll_wait (eh_epoll_fd h) EPOLL_MAX_EVENTS timeout_ms)) (\<lambda>r.
      case ready_of r of
        None \<Rightarrow> then_c (perror ''epoll_wait'') (return_c (-1))
      | Some evs \<Rightarrow>
          bind_c (require_c Out_of_bounds
            (if length evs \<le> length (eh_events h) then Some (evs @ drop (length evs) (eh_events h)) else None)) (\<lambda>buf.
          then_c (store handler (Handler (h\<lparr>eh_events := buf\<rparr>)))
          (then_c (dispatch handler cb user_data [0..<length evs])
            (return_c (int (length evs))))))))"

definition epoll_handler_get_fd :: "ptr \<Rightarrow> ('z mem_scheme, int) prog" where
  "epoll_handler_get_fd handler =
     (if handler = 0 then return_c (-1) else
      bind_c (load the_handler handler) (\<lambda>h. return_c (eh_epoll_fd h)))"

section \<open>The interface\<close>

text \<open>
  A poller: registering a descriptor either takes effect and returns 0 or changes nothing
  and returns -1; the same for removal.
\<close>

datatype poll_op = Watch int ptr | Unwatch int

locale fd_poller =
  fixes live :: "'s \<Rightarrow> bool"
    and watch :: "'s \<Rightarrow> int \<Rightarrow> ptr option"
    and add :: "int \<Rightarrow> ptr \<Rightarrow> ('s, int) prog"
    and del :: "int \<Rightarrow> ('s, int) prog"
  assumes add_law: "live s \<Longrightarrow> \<exists>r s'. add fd p s = (Ret r, s') \<and> live s' \<and>
      (r = 0 \<and> watch s' = (watch s)(fd \<mapsto> p) \<or> r = -1 \<and> watch s' = watch s)"
    and del_law: "live s \<Longrightarrow> \<exists>r s'. del fd s = (Ret r, s') \<and> live s' \<and>
      (r = 0 \<and> watch s' = (watch s)(fd := None) \<or> r = -1 \<and> watch s' = watch s)"
begin

lemma add_then_del:
  assumes "live s" and "watch s fd = None" and "add fd p s = (Ret 0, s')" and "del fd s' = (Ret 0, s'')"
  shows "watch s'' = watch s" and "live s''"
proof -
  have s': "live s'" "watch s' = (watch s)(fd \<mapsto> p)" using add_law [OF assms(1), of fd p] assms(3) by auto
  then show "live s''" using del_law [OF s'(1), of fd] assms(4) by auto
  have "watch s'' = (watch s')(fd := None)" using del_law [OF s'(1), of fd] assms(4) by auto
  then show "watch s'' = watch s" using s'(2) assms(2) by (simp add: fun_upd_idem)
qed

end

definition handler_on :: "ptr \<Rightarrow> int \<Rightarrow> 'z mem_scheme \<Rightarrow> bool" where
  "handler_on handler ep s \<longleftrightarrow> handler \<noteq> 0 \<and>
     (\<exists>h. heap s handler = Some (Handler h) \<and> eh_epoll_fd h = ep \<and> length (eh_events h) = EPOLL_MAX_EVENTS)"

lemma epoll_add_wp:
  assumes "handler_on handler ep s"
  shows "wp (epoll_handler_add K handler fd p ev) (\<lambda>r s'. heap s' = heap s \<and> open_fds (trace s') = open_fds (trace s) \<and>
    allocated (trace s') = allocated (trace s) \<and>
    (r = Ret 0 \<and> watched ep (trace s') = (watched ep (trace s))(fd \<mapsto> p) \<or>
     r = Ret (-1) \<and> watched ep (trace s') = watched ep (trace s))) s"
  using assms unfolding epoll_handler_add_def flat_simps
  by (intro wp_intros) (auto simp: handler_on_def)

lemma epoll_remove_wp:
  assumes "handler_on handler ep s"
  shows "wp (epoll_handler_remove K handler fd) (\<lambda>r s'. heap s' = heap s \<and> open_fds (trace s') = open_fds (trace s) \<and>
    allocated (trace s') = allocated (trace s) \<and>
    (r = Ret 0 \<and> watched ep (trace s') = (watched ep (trace s))(fd := None) \<or>
     r = Ret (-1) \<and> watched ep (trace s') = watched ep (trace s))) s"
  using assms unfolding epoll_handler_remove_def flat_simps
  by (intro wp_intros) (auto simp: handler_on_def)

interpretation ep: fd_poller "handler_on handler ep" "\<lambda>s. watched ep (trace s)"
    "\<lambda>fd p. epoll_handler_add K handler fd p ev" "epoll_handler_remove K handler"
  for K :: kernel and handler :: ptr and ep :: int and ev :: "32 word"
proof unfold_locales
  fix s :: "'a mem_scheme" and fd p
  assume h: "handler_on handler ep s"
  obtain r s' where 1: "epoll_handler_add K handler fd p ev s = (r, s')" by fastforce
  show "\<exists>r s'. epoll_handler_add K handler fd p ev s = (Ret r, s') \<and> handler_on handler ep s' \<and>
      (r = 0 \<and> watched ep (trace s') = (watched ep (trace s))(fd \<mapsto> p) \<or>
       r = -1 \<and> watched ep (trace s') = watched ep (trace s))"
    using wpD [OF epoll_add_wp 1] 1 h by (auto simp: handler_on_def)
  obtain r s' where 2: "epoll_handler_remove K handler fd s = (r, s')" by fastforce
  show "\<exists>r s'. epoll_handler_remove K handler fd s = (Ret r, s') \<and> handler_on handler ep s' \<and>
      (r = 0 \<and> watched ep (trace s') = (watched ep (trace s))(fd := None) \<or>
       r = -1 \<and> watched ep (trace s') = watched ep (trace s))"
    using wpD [OF epoll_remove_wp 2] 2 h by (auto simp: handler_on_def)
qed

lemma epoll_destroy_run:
  assumes "handler_on handler ep s"
  shows "\<exists>s'. epoll_handler_destroy K handler s = (Ret (), s') \<and> heap s' = (heap s)(handler := None) \<and>
    allocated (trace s') = allocated (trace s) - {handler} \<and>
    open_fds (trace s') = (if ep = -1 then open_fds (trace s) else open_fds (trace s) - {ep})"
  using assms by (auto simp: handler_on_def epoll_handler_destroy_def free_c_def run_simps)

section \<open>Dispatching\<close>

text \<open>A callback that leaves the handler alone.\<close>

definition spares :: "ptr \<Rightarrow> ('z mem_scheme, 'a) prog \<Rightarrow> bool" where
  "spares handler m \<longleftrightarrow> (\<forall>s. heap (snd (m s)) handler = heap s handler)"

lemma dispatch_run:
  assumes "\<forall>p ev. spares handler (cb p ev ud)" and "handler \<noteq> 0"
    and "heap s handler = Some (Handler h)" and "\<forall>i \<in> set js. i < length (eh_events h)"
  shows "dispatch handler cb ud js s = skip_all (map (\<lambda>i. case eh_events h ! i of (p, ev) \<Rightarrow> cb p ev ud) js) s"
  using assms(3,4)
proof (induction js arbitrary: s)
  case (Cons i js)
  obtain p ev where pe: "eh_events h ! i = (p, ev)" by fastforce
  obtain r s' where run: "cb p ev ud s = (r, s')" by fastforce
  have "heap s' handler = Some (Handler h)"
    using assms(1) Cons.prems(1) run unfolding spares_def by (metis snd_conv)
  then show ?case
    using Cons assms(2) pe run by (cases r) (simp_all add: run_simps)
qed (simp add: run_simps)

lemma epoll_wait_run:
  fixes s :: "'z mem_scheme"
  assumes "handler_on handler ep s" and "K (trace s) (Epoll_wait ep 64 timeout) = Ready evs" and "length evs \<le> 64"
    and "\<forall>p ev. spares handler (cb p ev ud)"
  shows "\<exists>s1. trace s1 = trace s @ [Call (Epoll_wait ep 64 timeout) (Ready evs)] \<and> handler_on handler ep s1 \<and>
    (\<forall>q. q \<noteq> handler \<longrightarrow> heap s1 q = heap s q) \<and>
    epoll_handler_wait K handler timeout (Some cb) ud s =
      then_c (skip_all (map (\<lambda>(p, ev). cb p ev ud) evs)) (return_c (int (length evs))) s1"
proof -
  obtain h where h: "handler \<noteq> 0" "heap s handler = Some (Handler h)" "eh_epoll_fd h = ep" "length (eh_events h) = 64"
    using assms(1) by (auto simp: handler_on_def EPOLL_MAX_EVENTS_def)
  define h' where "h' = h\<lparr>eh_events := evs @ drop (length evs) (eh_events h)\<rparr>"
  define s1 where "s1 = (after (Epoll_wait ep 64 timeout) (Ready evs) s)\<lparr>heap := (heap s)(handler \<mapsto> Handler h')\<rparr>"
  have s1: "heap s1 handler = Some (Handler h')" "\<forall>i \<in> set [0..<length evs]. i < length (eh_events h')"
    using h(4) assms(3) by (simp_all add: s1_def h'_def)
  have "map (\<lambda>i. case eh_events h' ! i of (p, ev) \<Rightarrow> cb p ev ud) [0..<length evs] = map (\<lambda>(p, ev). cb p ev ud) evs"
    by (rule nth_equalityI) (simp_all add: h'_def nth_append)
  then have "dispatch handler cb ud [0..<length evs] s1 = skip_all (map (\<lambda>(p, ev). cb p ev ud) evs) s1"
    using dispatch_run [where cb = cb and ud = ud and s = s1, OF assms(4) h(1) s1] by simp
  then have "then_c (dispatch handler cb ud [0..<length evs]) (return_c (int (length evs))) s1 =
      then_c (skip_all (map (\<lambda>(p, ev). cb p ev ud) evs)) (return_c (int (length evs))) s1"
    by (simp add: then_c_def bind_c_def)
  moreover have "epoll_handler_wait K handler timeout (Some cb) ud s =
      then_c (dispatch handler cb ud [0..<length evs]) (return_c (int (length evs))) s1"
    using h assms(2,3) by (simp add: epoll_handler_wait_def run_simps EPOLL_MAX_EVENTS_def s1_def h'_def)
  ultimately show ?thesis using h by (intro exI [of _ s1]) (auto simp: s1_def h'_def handler_on_def EPOLL_MAX_EVENTS_def assms(3))
qed

text \<open>\<open>epoll_wait\<close> reports at most as many events as it was asked for.\<close>

definition poll_fits :: "kernel \<Rightarrow> bool" where
  "poll_fits K \<longleftrightarrow> (\<forall>tr ep n t evs. K tr (Epoll_wait ep n t) = Ready evs \<longrightarrow> length evs \<le> n)"

section \<open>Callbacks with an invariant\<close>

text \<open>
  How a call may end: \<open>I\<close> when it returns, \<open>E\<close> when the process exits, \<open>F\<close> at undefined behaviour,
  \<open>R\<close> when a loop bound is reached.
\<close>

fun ends :: "('s \<Rightarrow> bool) \<Rightarrow> (int \<Rightarrow> 's \<Rightarrow> bool) \<Rightarrow> (fault \<Rightarrow> 's \<Rightarrow> bool) \<Rightarrow> ('s \<Rightarrow> bool) \<Rightarrow> 'a outcome \<Rightarrow> 's \<Rightarrow> bool" where
  "ends I E F R (Ret x) s = I s"
| "ends I E F R (Exit n) s = E n s"
| "ends I E F R (Fault e) s = F e s"
| "ends I E F R Out_of_fuel s = R s"

lemma ends_bind: "wp m (ends I E F R) s \<Longrightarrow> (\<And>x s'. I s' \<Longrightarrow> wp (f x) (ends J E F R) s') \<Longrightarrow> wp (bind_c m f) (ends J E F R) s"
  by (rule wp_bind [where R = "ends I E F R"]) simp_all

text \<open>
  What every callback keeps, \<open>epoll_handler_wait\<close> keeps: a callback that returns with the invariant is
  followed by the next event, one that ends the program ends it.
\<close>

definition poll_stable :: "ptr \<Rightarrow> int \<Rightarrow> ('z mem_scheme \<Rightarrow> bool) \<Rightarrow> bool" where
  "poll_stable h ep I \<longleftrightarrow> (\<forall>s. I s \<longrightarrow> handler_on h ep s \<and>
     (\<forall>q n t. I (after (Epoll_wait ep n t) q s)) \<and> (\<forall>u e. I (s\<lparr>trace := trace s @ [Perror u e]\<rparr>)) \<and>
     (\<forall>v. eh_epoll_fd v = ep \<longrightarrow> length (eh_events v) = EPOLL_MAX_EVENTS \<longrightarrow> I (s\<lparr>heap := (heap s)(h \<mapsto> Handler v)\<rparr>)))"

lemma dispatch_ends:
  assumes "poll_stable h ep I" and "\<And>s p ev. I s \<Longrightarrow> wp (cb p ev ud) (ends I E F R) s"
    and "I s" and "\<forall>i \<in> set js. i < EPOLL_MAX_EVENTS"
  shows "wp (dispatch h cb ud js) (ends I E F R) s"
  using assms(3,4)
proof (induction js arbitrary: s)
  case Nil
  then show ?case by (simp add: wp_def run_simps)
next
  case (Cons i js)
  obtain v where v: "h \<noteq> 0" "heap s h = Some (Handler v)" "length (eh_events v) = EPOLL_MAX_EVENTS"
    using assms(1) Cons.prems(1) by (fastforce simp: poll_stable_def handler_on_def)
  obtain p ev where pe: "eh_events v ! i = (p, ev)" by fastforce
  have "wp (bind_c (cb p ev ud) (\<lambda>_. dispatch h cb ud js)) (ends I E F R) s"
    by (rule ends_bind [OF assms(2) [OF Cons.prems(1)]]) (use Cons in auto)
  then show ?case using v pe Cons.prems(2) by (simp add: wp_def run_simps then_c_def)
qed

lemma epoll_wait_ends:
  assumes "poll_stable h ep I" and "poll_fits K" and "I s"
    and "\<And>s p ev. I s \<Longrightarrow> wp (cb p ev ud) (ends I E F R) s"
  shows "wp (epoll_handler_wait K h t (Some cb) ud) (ends I E F R) s"
proof -
  obtain v where v: "h \<noteq> 0" "heap s h = Some (Handler v)" "eh_epoll_fd v = ep" "length (eh_events v) = EPOLL_MAX_EVENTS"
    using assms(1,3) by (fastforce simp: poll_stable_def handler_on_def)
  let ?q = "K (trace s) (Epoll_wait ep EPOLL_MAX_EVENTS t)"
  let ?s = "after (Epoll_wait ep EPOLL_MAX_EVENTS t) ?q s"
  have I: "I ?s" using assms(1,3) by (simp add: poll_stable_def)
  show ?thesis
  proof (cases "ready_of ?q")
    case None
    have "I (?s\<lparr>trace := trace ?s @ [Perror ''epoll_wait'' (errno ?s)]\<rparr>)"
      using assms(1) I unfolding poll_stable_def by blast
    then show ?thesis using v None by (simp add: wp_def epoll_handler_wait_def run_simps)
  next
    case (Some evs)
    then have "?q = Ready evs" by (cases ?q) auto
    then have n: "length evs \<le> EPOLL_MAX_EVENTS" using assms(2) unfolding poll_fits_def by blast
    define w where "w = v\<lparr>eh_events := evs @ drop (length evs) (eh_events v)\<rparr>"
    define s1 where "s1 = ?s\<lparr>heap := (heap ?s)(h \<mapsto> Handler w)\<rparr>"
    have "eh_epoll_fd w = ep" "length (eh_events w) = EPOLL_MAX_EVENTS" using v n by (simp_all add: w_def)
    then have "I s1" using assms(1) I unfolding poll_stable_def s1_def by blast
    then have "wp (dispatch h cb ud [0..<length evs]) (ends I E F R) s1"
      using n by (intro dispatch_ends [where ep = ep and h = h]) (use assms(1,4) in auto)
    then have "wp (bind_c (dispatch h cb ud [0..<length evs]) (\<lambda>_. return_c (int (length evs)))) (ends I E F R) s1"
      by (rule ends_bind) (simp add: wp_def run_simps)
    then show ?thesis using v n Some
      by (simp add: wp_def epoll_handler_wait_def run_simps s1_def w_def then_c_def)
  qed
qed

section \<open>Properties\<close>

text \<open>\<open>epoll_create1\<close> fails with -1 or gives a descriptor that is not in use.\<close>

definition epoll_fresh :: "kernel \<Rightarrow> bool" where
  "epoll_fresh K \<longleftrightarrow> (\<forall>tr. int_of (K tr Epoll_create) = -1 \<or>
     0 \<le> int_of (K tr Epoll_create) \<and> int_of (K tr Epoll_create) \<notin> open_fds tr)"

lemma epoll_create_wp:
  fixes s :: "'z mem_scheme"
  assumes "malloc_fresh K" and "epoll_fresh K" and "heap_ok s"
  shows "wp (epoll_handler_create K) (\<lambda>r s'. heap_ok s' \<and>
    (\<exists>h ep. r = Ret h \<and> handler_on h ep s' \<and> heap s h = None \<and> h \<notin> allocated (trace s) \<and>
       (\<forall>q. q \<noteq> h \<longrightarrow> heap s' q = heap s q) \<and> 0 \<le> ep \<and> ep \<notin> open_fds (trace s) \<and> open_fds (trace s') = insert ep (open_fds (trace s)) \<and>
       allocated (trace s') = insert h (allocated (trace s)) \<and> watched ep (trace s') = Map.empty \<or>
     r = Ret 0 \<and> heap s' = heap s \<and> open_fds (trace s') = open_fds (trace s) \<and>
       allocated (trace s') = allocated (trace s))) s"
proof -
  let ?p = "ptr_of (K (trace s) (Malloc SIZEOF_EPOLL_HANDLER))"
  let ?ep = "K (trace s @ [Call (Malloc SIZEOF_EPOLL_HANDLER) (K (trace s) (Malloc SIZEOF_EPOLL_HANDLER))]) Epoll_create"
  have p: "heap s ?p = None" "?p \<notin> allocated (trace s)"
    using heap_ok_fresh [OF assms(1,3) refl] assms(1) by (auto simp: malloc_fresh_def)
  have ep: "int_of ?ep \<noteq> -1 \<Longrightarrow> 0 \<le> int_of ?ep \<and> int_of ?ep \<notin> open_fds (trace s)"
    using assms(2)[unfolded epoll_fresh_def, rule_format, of
        "trace s @ [Call (Malloc SIZEOF_EPOLL_HANDLER) (K (trace s) (Malloc SIZEOF_EPOLL_HANDLER))]"] by simp
  have ok: "dom (heap s) \<subseteq> allocated (trace s)" "heap s 0 = None" using assms(3) by (auto simp: heap_ok_def)
  show ?thesis
    unfolding epoll_handler_create_def flat_simps
    by (intro wp_intros) (use p ep ok in \<open>auto simp: heap_ok_def handler_on_def fun_upd_idem\<close>)
qed

text \<open>
  Creating a handler is all or nothing: either a live handler on a new descriptor comes
  back, or NULL with the memory given back and no descriptor held; other objects are
  untouched either way.
\<close>

theorem epoll_create_all_or_nothing:
  fixes s :: "'z mem_scheme"
  assumes "malloc_fresh K" and "epoll_fresh K" and "heap_ok s" and "epoll_handler_create K s = (r, s')"
  shows "\<exists>h. r = Ret h \<and> heap_ok s' \<and>
    (if h = 0 then heap s' = heap s \<and> open_fds (trace s') = open_fds (trace s) \<and> allocated (trace s') = allocated (trace s)
     else \<exists>ep. handler_on h ep s' \<and> heap s h = None \<and> (\<forall>q. q \<noteq> h \<longrightarrow> heap s' q = heap s q) \<and>
       ep \<notin> open_fds (trace s) \<and> open_fds (trace s') = insert ep (open_fds (trace s)) \<and>
       allocated (trace s') = insert h (allocated (trace s)))"
  using wpD [OF epoll_create_wp [OF assms(1-3)] assms(4)] by (auto simp: handler_on_def)

text \<open>
  A handler's life leaves nothing behind: destroying the handler that
  \<open>epoll_handler_create\<close> made closes its descriptor and frees its memory, so open
  descriptors, allocated addresses and heap are what they were before.
\<close>

theorem epoll_create_destroy:
  fixes s :: "'z mem_scheme"
  assumes "malloc_fresh K" and "epoll_fresh K" and "heap_ok s" and "epoll_handler_create K s = (Ret h, s')" and "h \<noteq> 0"
  shows "\<exists>s''. epoll_handler_destroy K h s' = (Ret (), s'') \<and> heap s'' = heap s \<and>
    open_fds (trace s'') = open_fds (trace s) \<and> allocated (trace s'') = allocated (trace s)"
proof -
  from wpD [OF epoll_create_wp [OF assms(1-3)] assms(4)] assms(5) obtain ep where
    h: "handler_on h ep s'" "heap s h = None" "h \<notin> allocated (trace s)" "\<forall>q. q \<noteq> h \<longrightarrow> heap s' q = heap s q" "0 \<le> ep" "ep \<notin> open_fds (trace s)"
      "open_fds (trace s') = insert ep (open_fds (trace s))" "allocated (trace s') = insert h (allocated (trace s))"
    by auto
  have "(heap s')(h := None) = heap s" using h(2,4) by (auto simp: fun_eq_iff)
  moreover obtain eh where "heap s' h = Some (Handler eh)" "eh_epoll_fd eh = ep" "h \<noteq> 0"
    using h(1) by (auto simp: handler_on_def)
  ultimately show ?thesis using h(3,5-8)
    by (simp add: epoll_handler_destroy_def run_simps free_c_def)
qed

text \<open>
  Registration: a successful \<open>epoll_handler_add\<close> makes the instance watch the descriptor
  with the given pointer, a failed one (-1) changes nothing, and removing what was added
  restores what was watched; a NULL handler gives -1 without a call.
\<close>

theorem epoll_add_remove:
  fixes s :: "'z mem_scheme"
  assumes "handler_on handler ep s" and "watched ep (trace s) fd = None"
    and "epoll_handler_add K handler fd p ev s = (r1, s1)" and "epoll_handler_remove K handler fd s1 = (r2, s2)"
  shows "r1 \<in> {Ret 0, Ret (-1)} \<and> r2 \<in> {Ret 0, Ret (-1)} \<and> heap s2 = heap s \<and>
    watched ep (trace s1) = (if r1 = Ret 0 then (watched ep (trace s))(fd \<mapsto> p) else watched ep (trace s)) \<and>
    (r1 = Ret 0 \<and> r2 = Ret 0 \<longrightarrow> watched ep (trace s2) = watched ep (trace s)) \<and>
    epoll_handler_add K 0 fd p ev s = (Ret (-1), s) \<and> epoll_handler_remove K 0 fd s = (Ret (-1), s)"
proof -
  have 1: "heap s1 = heap s" "r1 = Ret 0 \<and> watched ep (trace s1) = (watched ep (trace s))(fd \<mapsto> p) \<or>
     r1 = Ret (-1) \<and> watched ep (trace s1) = watched ep (trace s)"
    using wpD [OF epoll_add_wp [OF assms(1)] assms(3)] by auto
  have "handler_on handler ep s1" using assms(1) 1(1) by (simp add: handler_on_def)
  from wpD [OF epoll_remove_wp [OF this] assms(4)] have 2: "heap s2 = heap s1" "r2 \<in> {Ret 0, Ret (-1)}" by auto
  have "watched ep (trace s2) = watched ep (trace s)" if "r1 = Ret 0 \<and> r2 = Ret 0"
    using ep.add_then_del(1) [OF assms(1,2)] that assms(3,4) by blast
  then show ?thesis using 1 2
    by (auto simp: epoll_handler_add_def epoll_handler_remove_def run_simps)
qed

text \<open>
  C34. \<open>epoll_handler_wait\<close> calls the callback once for every event the kernel reported, in the
  kernel's order, with the pointer stored for the descriptor and the event mask, and then
  returns their number, as long as the callbacks do not touch the handler.
\<close>

theorem epoll_wait_dispatches:
  fixes s :: "'z mem_scheme"
  assumes "handler_on handler ep s" and "K (trace s) (Epoll_wait ep 64 timeout) = Ready evs" and "length evs \<le> 64"
    and "\<forall>p ev. spares handler (cb p ev ud)"
  shows "\<exists>s1. trace s1 = trace s @ [Call (Epoll_wait ep 64 timeout) (Ready evs)] \<and> handler_on handler ep s1 \<and>
    (\<forall>q. q \<noteq> handler \<longrightarrow> heap s1 q = heap s q) \<and>
    epoll_handler_wait K handler timeout (Some cb) ud s =
      then_c (skip_all (map (\<lambda>(p, ev). cb p ev ud) evs)) (return_c (int (length evs))) s1"
  using assms by (rule epoll_wait_run)

text \<open>
  When \<open>epoll_wait\<close> fails (a signal, say) no callback runs: the error is printed and -1
  returned; so it is for a NULL handler or a NULL callback, without any call.
\<close>

theorem epoll_wait_fails:
  fixes s :: "'z mem_scheme"
  assumes "handler_on handler ep s" and "K (trace s) (Epoll_wait ep 64 timeout) = Err e"
  shows "\<exists>s'. epoll_handler_wait K handler timeout (Some cb) ud s = (Ret (-1), s') \<and> heap s' = heap s \<and> errno s' = e \<and>
      trace s' = trace s @ [Call (Epoll_wait ep 64 timeout) (Err e), Perror ''epoll_wait'' e] \<and>
    epoll_handler_wait K handler timeout None ud s = (Ret (-1), s) \<and>
    epoll_handler_wait K 0 timeout (Some cb) ud s = (Ret (-1), s)"
  using assms by (auto simp: handler_on_def epoll_handler_wait_def run_simps EPOLL_MAX_EVENTS_def err_of_def)

text \<open>
  C38. A callback must not destroy the handler it is called from: with a second event
  pending, the loop of \<open>epoll_handler_wait\<close> then reads the freed event buffer.
\<close>

theorem epoll_destroy_in_callback:
  fixes s :: "'z mem_scheme"
  assumes "handler_on handler ep s" and "K (trace s) (Epoll_wait ep 64 timeout) = Ready (e1 # e2 # evs)"
    and "length evs \<le> 62"
  shows "\<exists>s'. epoll_handler_wait K handler timeout (Some (\<lambda>p ev ud. epoll_handler_destroy K handler)) ud s =
    (Fault Dangling, s') \<and> handler \<notin> allocated (trace s')"
proof -
  obtain h where h: "handler \<noteq> 0" "heap s handler = Some (Handler h)" "eh_epoll_fd h = ep" "length (eh_events h) = 64"
    using assms(1) by (auto simp: handler_on_def EPOLL_MAX_EVENTS_def)
  define h' where "h' = h\<lparr>eh_events := (e1 # e2 # evs) @ drop (Suc (Suc (length evs))) (eh_events h)\<rparr>"
  define s1 where "s1 = (after (Epoll_wait ep 64 timeout) (Ready (e1 # e2 # evs)) s)\<lparr>heap := (heap s)(handler \<mapsto> Handler h')\<rparr>"
  have "handler_on handler ep s1" using h assms(3) by (simp add: handler_on_def s1_def h'_def EPOLL_MAX_EVENTS_def)
  then obtain s2 where s2: "epoll_handler_destroy K handler s1 = (Ret (), s2)" "heap s2 handler = None"
    "handler \<notin> allocated (trace s2)" using epoll_destroy_run [of handler ep s1 K] by auto
  let ?cb = "\<lambda>p ev ud. epoll_handler_destroy K handler"
  have upt: "[0..<Suc (Suc (length evs))] = 0 # 1 # [2..<Suc (Suc (length evs))]"
    by (simp add: upt_conv_Cons numeral_2_eq_2 del: upt_Suc)
  have "dispatch handler ?cb ud [0..<Suc (Suc (length evs))] s1 = (Fault Dangling, s2)"
    unfolding upt using h(1) s2(1,2) s1_def by (simp add: run_simps h'_def split: prod.split)
  then have "then_c (dispatch handler ?cb ud [0..<Suc (Suc (length evs))]) (return_c (2 + int (length evs))) s1 = (Fault Dangling, s2)"
    by (simp add: run_simps del: upt_Suc)
  then have "epoll_handler_wait K handler timeout (Some ?cb) ud s = (Fault Dangling, s2)"
    using h assms(2,3) by (simp add: epoll_handler_wait_def run_simps EPOLL_MAX_EVENTS_def s1_def h'_def del: upt_Suc)
  then show ?thesis using s2(3) by blast
qed

section \<open>Concrete runs\<close>

definition sample_handler_mem :: mem where
  "sample_handler_mem = \<lparr>trace = [], errno = 0,
     heap = [4160 \<mapsto> Handler \<lparr>eh_epoll_fd = 5, eh_events = replicate EPOLL_MAX_EVENTS (0, 0)\<rparr>]\<rparr>"

definition empty_mem :: mem where
  "empty_mem = \<lparr>trace = [], errno = 0, heap = Map.empty\<rparr>"

lemma sample_handler: "handler_on 4160 5 sample_handler_mem"
  by (simp add: handler_on_def sample_handler_mem_def)

lemma sample_poll_fits: "poll_fits sample_kernel"
  by (simp add: poll_fits_def sample_kernel_def)

lemma sample_epoll_fresh: "epoll_fresh sample_kernel"
  unfolding epoll_fresh_def
proof
  fix tr
  show "int_of (sample_kernel tr Epoll_create) = -1 \<or>
     0 \<le> int_of (sample_kernel tr Epoll_create) \<and> int_of (sample_kernel tr Epoll_create) \<notin> open_fds tr"
    using fresh_fd [of tr] by (simp add: sample_kernel_def)
qed

lemma empty_heap_ok: "heap_ok empty_mem"
  by (simp add: heap_ok_def empty_mem_def)

lemma sample_epoll_create: "\<exists>s'. epoll_handler_create sample_kernel empty_mem = (Ret 4160, s')"
  by (simp add: epoll_handler_create_def alloc_c_def empty_mem_def run_simps sample_kernel_def ptr_of_def fresh_fd_def open_fds_def)

theorem epoll_create_all_or_nothing_witness:
  "\<exists>s' ep. epoll_handler_create sample_kernel empty_mem = (Ret 4160, s') \<and> handler_on 4160 ep s'"
proof -
  obtain s' where run: "epoll_handler_create sample_kernel empty_mem = (Ret 4160, s')"
    using sample_epoll_create by blast
  from epoll_create_all_or_nothing [OF sample_malloc_fresh sample_epoll_fresh empty_heap_ok run] run
  show ?thesis by auto
qed

theorem epoll_create_destroy_witness:
  "\<exists>s' s''. epoll_handler_create sample_kernel empty_mem = (Ret 4160, s') \<and>
     epoll_handler_destroy sample_kernel 4160 s' = (Ret (), s'') \<and> open_fds (trace s'') = {}"
proof -
  obtain s' where run: "epoll_handler_create sample_kernel empty_mem = (Ret 4160, s')"
    using sample_epoll_create by blast
  from epoll_create_destroy [OF sample_malloc_fresh sample_epoll_fresh empty_heap_ok run] run
  show ?thesis by (auto simp: empty_mem_def)
qed

theorem epoll_add_remove_witness:
  "\<exists>r1 s1. epoll_handler_add sample_kernel 4160 7 0 EPOLLIN sample_handler_mem = (r1, s1) \<and>
     watched 5 (trace s1) 7 = Some 0"
proof -
  obtain r1 s1 r2 s2 where run: "epoll_handler_add sample_kernel 4160 7 0 EPOLLIN sample_handler_mem = (r1, s1)"
    "epoll_handler_remove sample_kernel 4160 7 s1 = (r2, s2)" by fastforce
  have none: "watched 5 (trace sample_handler_mem) 7 = None" by (simp add: sample_handler_mem_def)
  have "r1 = Ret 0" using run(1) by (auto simp: epoll_handler_add_def run_simps sample_handler_mem_def sample_kernel_def)
  with epoll_add_remove [OF sample_handler none run] run(1) show ?thesis by auto
qed

definition ready_kernel :: "(ptr \<times> 32 word) list \<Rightarrow> kernel" where
  "ready_kernel evs tr c = (case c of Epoll_wait ep n t \<Rightarrow> Ready evs | _ \<Rightarrow> Val 0)"

theorem epoll_wait_dispatches_witness:
  "\<exists>s2. epoll_handler_wait (ready_kernel [(0, EPOLLIN), (3, EPOLLIN)]) 4160 (-1)
       (Some (\<lambda>p ev ud. log_call LOG_INFO ''ready %d'' [Int_arg (int p)])) 0 sample_handler_mem = (Ret 2, s2) \<and>
     trace s2 = [Call (Epoll_wait 5 64 (-1)) (Ready [(0, EPOLLIN), (3, EPOLLIN)]),
       Logged LOG_INFO ''ready %d'' [Int_arg 0], Logged LOG_INFO ''ready %d'' [Int_arg 3]]"
proof -
  have k: "ready_kernel [(0, EPOLLIN), (3, EPOLLIN)] (trace sample_handler_mem) (Epoll_wait 5 64 (-1)) =
    Ready [(0, EPOLLIN), (3, EPOLLIN)]" by (simp add: ready_kernel_def)
  have sp: "\<forall>p ev. spares 4160 ((\<lambda>p ev ud. log_call LOG_INFO ''ready %d'' [Int_arg (int p)]) p ev (0 :: ptr))"
    by (simp add: spares_def run_simps)
  have "length [(0 :: ptr, EPOLLIN), (3, EPOLLIN)] \<le> 64" by simp
  from epoll_wait_dispatches [where K = "ready_kernel [(0, EPOLLIN), (3, EPOLLIN)]" and ud = 0 and cb = "\<lambda>p ev ud. log_call LOG_INFO ''ready %d'' [Int_arg (int p)]", OF sample_handler k this sp]
  show ?thesis by (auto simp: run_simps sample_handler_mem_def)
qed

theorem epoll_wait_fails_witness:
  "\<exists>s'. epoll_handler_wait sample_kernel 4160 (-1) (Some (\<lambda>p ev ud. return_c ())) 0 sample_handler_mem = (Ret (-1), s') \<and>
     errno s' = EINTR"
proof -
  have k: "sample_kernel (trace sample_handler_mem) (Epoll_wait 5 64 (-1)) = Err EINTR" by (simp add: sample_kernel_def)
  from epoll_wait_fails [where K = sample_kernel, OF sample_handler k] show ?thesis by blast
qed

theorem epoll_destroy_in_callback_witness:
  "\<exists>s'. epoll_handler_wait (ready_kernel [(0, EPOLLIN), (3, EPOLLIN)]) 4160 (-1)
       (Some (\<lambda>p ev ud. epoll_handler_destroy (ready_kernel [(0, EPOLLIN), (3, EPOLLIN)]) 4160)) 0 sample_handler_mem =
     (Fault Dangling, s')"
proof -
  have k: "ready_kernel [(0, EPOLLIN), (3, EPOLLIN)] (trace sample_handler_mem) (Epoll_wait 5 64 (-1)) =
    Ready [(0, EPOLLIN), (3, EPOLLIN)]" by (simp add: ready_kernel_def)
  from epoll_destroy_in_callback [where K = "ready_kernel [(0, EPOLLIN), (3, EPOLLIN)]", OF sample_handler k] show ?thesis by auto
qed

end
