(* ===== verification/Libsocket.thy ===== *)
theory Libsocket
  imports Kernel
begin

text \<open>
  The socket helpers and the echo routines of \<^verbatim>\<open>src/internal/libsocket.c\<close>: creating, binding,
  listening, connecting and accepting, with the log lines, closes and process exits of
  their error paths; \<open>comm_handle_data\<close>, the blocking echo loop; and
  \<open>socket_connect_with_client\<close>, the fork-per-connection loop. Loops whose length the
  kernel decides take fuel.
\<close>

section \<open>Addresses\<close>

fun split_on :: "char \<Rightarrow> char list \<Rightarrow> char list list" where
  "split_on d [] = [[]]"
| "split_on d (c # cs) =
     (if c = d then [] # split_on d cs
      else (case split_on d cs of [] \<Rightarrow> [[c]] | p # ps \<Rightarrow> (c # p) # ps))"

text \<open>
  \<open>inet_pton(AF_INET, ...)\<close>: four decimal numbers up to 255, without superfluous leading
  zeros, separated by dots. On any other text it fails and leaves its target alone.
\<close>

definition octet :: "char list \<Rightarrow> 8 word option" where
  "octet p =
     (if p \<noteq> [] \<and> (\<forall>c \<in> set p. c_isdigit c) \<and> (hd p \<noteq> CHR ''0'' \<or> length p = 1) \<and> decimal_value p \<le> 255
      then Some (word_of_nat (decimal_value p)) else None)"

definition inet_pton4 :: "char list \<Rightarrow> 8 word list option" where
  "inet_pton4 t =
     (let ps = split_on (CHR ''.'') t in if length ps = 4 then those (map octet ps) else None)"

definition zero_sockaddr :: sockaddr_in where
  "zero_sockaddr = \<lparr>sin_family = 0, sin_port = 0, sin_addr = INADDR_ANY\<rparr>"

text \<open>
  A 16-character host without terminator is no address and \<open>inet_pton\<close> rejects it before it
  would leave the array, so the C string in the buffer is all it looks at.
\<close>

definition set_sin_addr :: "char list \<Rightarrow> sockaddr_in \<Rightarrow> sockaddr_in" where
  "set_sin_addr ip a = (case inet_pton4 (cstr ip) of None \<Rightarrow> a | Some bs \<Rightarrow> a\<lparr>sin_addr := bs\<rparr>)"

definition socket_set_server_address :: "char list \<Rightarrow> int \<Rightarrow> sockaddr_in" where
  "socket_set_server_address server_ip server_port =
     set_sin_addr server_ip
       (zero_sockaddr\<lparr>sin_family := AF_INET, sin_port := htons (word_of_int server_port)\<rparr>)"

section \<open>Creating and connecting sockets\<close>

definition socket_init :: "kernel \<Rightarrow> ('z os_scheme, int) prog" where
  "socket_init K =
     bind_c (sys_int K Socket) (\<lambda>server_fd.
       if server_fd < 0 then
         bind_c (get_c errno) (\<lambda>err.
         then_c (log_call LOG_ERROR ''socket failed: %s'' [Strerror_arg err])
           (return_c (-1)))
       else return_c server_fd)"

text \<open>The error path the \<open>void\<close> helpers share: log, close, \<open>exit(1)\<close>.\<close>

definition fail_exit :: "kernel \<Rightarrow> char list \<Rightarrow> int \<Rightarrow> ('z os_scheme, 'a) prog" where
  "fail_exit K fmt fd =
     bind_c (get_c errno) (\<lambda>e.
     then_c (log_call LOG_ERROR fmt [Strerror_arg e])
     (then_c (sys_ignore K (Close fd))
       (exit_c 1)))"

definition socket_setsockopt_reuseaddr :: "kernel \<Rightarrow> int \<Rightarrow> ('z os_scheme, unit) prog" where
  "socket_setsockopt_reuseaddr K server_fd =
     bind_c (sys_int K (Setsockopt_reuseaddr server_fd)) (\<lambda>r.
       if r \<noteq> 0 then fail_exit K ''setsockopt failed: %s'' server_fd else return_c ())"

definition socket_bind_address :: "kernel \<Rightarrow> int \<Rightarrow> int \<Rightarrow> ('z os_scheme, unit) prog" where
  "socket_bind_address K port socket_fd =
     (let address = \<lparr>sin_family = AF_INET, sin_port = htons (word_of_int port), sin_addr = INADDR_ANY\<rparr> in
      bind_c (sys_int K (Bind socket_fd address)) (\<lambda>r.
        if r < 0 then fail_exit K ''bind failed: %s'' socket_fd else return_c ()))"

definition socket_listen :: "kernel \<Rightarrow> int \<Rightarrow> ('z os_scheme, unit) prog" where
  "socket_listen K socket_fd =
     bind_c (sys_int K (Listen socket_fd SOMAXCONN)) (\<lambda>r.
       if r < 0 then fail_exit K ''listen failed: %s'' socket_fd else return_c ())"

text \<open>The accepted descriptor is dropped: nothing of it is returned or stored.\<close>

definition socket_accept :: "kernel \<Rightarrow> int \<Rightarrow> ('z os_scheme, unit) prog" where
  "socket_accept K socket_fd =
     bind_c (sys K (Accept socket_fd)) (\<lambda>r.
       case peer_of r of
         None \<Rightarrow> fail_exit K ''accept failed: %s'' socket_fd
       | Some _ \<Rightarrow> return_c ())"

definition socket_connect :: "kernel \<Rightarrow> sockaddr_in \<Rightarrow> int \<Rightarrow> ('z os_scheme, unit) prog" where
  "socket_connect K server_address socket_fd =
     bind_c (sys_int K (Connect socket_fd server_address)) (\<lambda>r.
       if r < 0 then fail_exit K ''connect failed: %s'' socket_fd else return_c ())"

lemmas socket_defs = socket_init_def fail_exit_def socket_setsockopt_reuseaddr_def
  socket_bind_address_def socket_listen_def socket_accept_def socket_connect_def

definition tcp_socket_set_nonblocking :: "kernel \<Rightarrow> int \<Rightarrow> ('z os_scheme, int) prog" where
  "tcp_socket_set_nonblocking K fd =
     bind_c (sys_int K (Fcntl_getfl fd)) (\<lambda>flags.
       if flags = -1 then return_c (-1)
       else sys_int K (Fcntl_setfl fd (or (word_of_int flags) O_NONBLOCK)))"

definition tcp_socket_create_server ::
    "kernel \<Rightarrow> char list option \<Rightarrow> int \<Rightarrow> sockaddr_in \<Rightarrow> ('z os_scheme, int \<times> sockaddr_in) prog" where
  "tcp_socket_create_server K ip port addr =
     bind_c (socket_init K) (\<lambda>fd.
     if fd < 0 then return_c (-1, addr) else
     then_c (socket_setsockopt_reuseaddr K fd)
     (let addr1 = addr\<lparr>sin_family := AF_INET, sin_port := htons (word_of_int port)\<rparr>;
          addr2 = (case ip of Some t \<Rightarrow> set_sin_addr t addr1 | None \<Rightarrow> addr1\<lparr>sin_addr := INADDR_ANY\<rparr>) in
      bind_c (sys_int K (Bind fd addr2)) (\<lambda>r.
      if r < 0 then then_c (sys_ignore K (Close fd)) (return_c (-1, addr2)) else
      bind_c (sys_int K (Listen fd SOMAXCONN)) (\<lambda>r.
      if r < 0 then then_c (sys_ignore K (Close fd)) (return_c (-1, addr2)) else
      return_c (fd, addr2)))))"

text \<open>The descriptor, or -1, and the peer's address (the buffer is untouched on failure).\<close>

definition tcp_socket_accept ::
    "kernel \<Rightarrow> int \<Rightarrow> sockaddr_in \<Rightarrow> ('z os_scheme, int \<times> sockaddr_in) prog" where
  "tcp_socket_accept K listen_fd client_addr =
     bind_c (sys K (Accept listen_fd)) (\<lambda>r.
       return_c (case peer_of r of None \<Rightarrow> (-1, client_addr) | Some (fd, a) \<Rightarrow> (fd, a)))"

section \<open>One process per connection\<close>

text \<open>
  \<open>while (1)\<close>: accept, fork; the parent closes its copy of the connection, the child
  closes the listening socket and, since the \<open>execl\<close> is missing, exits with 1.
\<close>

primrec socket_connect_with_client :: "kernel \<Rightarrow> nat \<Rightarrow> int \<Rightarrow> ('z os_scheme, unit) prog" where
  "socket_connect_with_client K 0 server_fd = fuel_c"
| "socket_connect_with_client K (Suc n) server_fd =
     bind_c (sys K (Accept server_fd)) (\<lambda>r.
     case peer_of r of
       None \<Rightarrow>
         bind_c (get_c errno) (\<lambda>e.
         then_c (log_call LOG_ERROR ''accept failed: %s'' [Strerror_arg e])
           (socket_connect_with_client K n server_fd))
     | Some (client_fd, a) \<Rightarrow>
         then_c (log_call LOG_INFO ''Quekka: Client connected from %s:%d''
                  [Inet_ntoa_arg (sin_addr a), Int_arg (uint (htons (sin_port a)))])
         (bind_c (sys_int K Fork) (\<lambda>pid.
          if pid < 0 then
            bind_c (get_c errno) (\<lambda>e.
            then_c (log_call LOG_ERROR ''fork failed: %s'' [Strerror_arg e])
            (then_c (sys_ignore K (Close client_fd))
              (socket_connect_with_client K n server_fd)))
          else if pid = 0 then
            then_c (sys_ignore K (Close server_fd))
            (then_c (log_call LOG_ERROR ''execl failed'' [])
              (exit_c 1))
          else
            then_c (sys_ignore K (Close client_fd))
            (then_c (log_call LOG_INFO ''Quekka: Created child process %d for client'' [Int_arg pid])
              (socket_connect_with_client K n server_fd)))))"

section \<open>The echo routines\<close>

definition BUFFER_SIZE :: nat where "BUFFER_SIZE = 1024"

definition comm_init :: "kernel \<Rightarrow> int \<Rightarrow> ('z os_scheme, int) prog" where
  "comm_init K socket_fd =
     (if socket_fd < 0 then
        then_c (log_call LOG_ERROR ''Comm: Invalid socket file descriptor'' []) (return_c (-1))
      else
        bind_c (sys_int K Getpid) (\<lambda>pid.
        then_c (log_call LOG_INFO ''Comm: Initialized with socket fd %d (PID: %d)''
                 [Int_arg socket_fd, Int_arg pid])
          (return_c 0)))"

definition comm_cleanup :: "kernel \<Rightarrow> int \<Rightarrow> ('z os_scheme, unit) prog" where
  "comm_cleanup K socket_fd =
     then_c (log_call LOG_INFO ''Comm: Socket closed'' []) (sys_ignore K (Close socket_fd))"

text \<open>\<open>snprintf(response, sizeof(response), "Echo: %s", buffer)\<close>, up to the terminator.\<close>

definition echo_response :: "char list \<Rightarrow> char list" where
  "echo_response buffer = take (BUFFER_SIZE + 8 - 1) (''Echo: '' @ cstr buffer)"

definition is_quit :: "char list \<Rightarrow> bool" where
  "is_quit buffer \<longleftrightarrow> take 4 (cstr buffer) = ''quit''"

primrec comm_handle_data :: "kernel \<Rightarrow> nat \<Rightarrow> int \<Rightarrow> ('z os_scheme, int) prog" where
  "comm_handle_data K 0 socket_fd = fuel_c"
| "comm_handle_data K (Suc n) socket_fd =
     (let zeroed = replicate BUFFER_SIZE NUL in
      bind_c (sys K (Read socket_fd (BUFFER_SIZE - 1))) (\<lambda>r.
      case bytes_of r of
        None \<Rightarrow>
          bind_c (get_c errno) (\<lambda>e.
          then_c (log_call LOG_ERROR ''Comm: read failed: %s'' [Strerror_arg e]) (return_c 0))
      | Some b \<Rightarrow>
          if b = [] then then_c (log_call LOG_INFO ''Comm: Client disconnected'' []) (return_c 0) else
          bind_c (require_c Out_of_bounds (c_memcpy zeroed b (length b))) (\<lambda>buf.
          bind_c (require_c Out_of_bounds (c_store buf (length b) NUL)) (\<lambda>buffer.
          then_c (log_call LOG_DEBUG ''Comm: Received %ld bytes: %s''
                   [Int_arg (int (length b)), Str_arg (cstr buffer)])
          (if is_quit buffer then
             then_c (log_call LOG_INFO ''Comm: Client requested to quit'' []) (return_c 0)
           else
             bind_c (sys_int K (Write socket_fd (echo_response buffer))) (\<lambda>bytes_sent.
             if bytes_sent < 0 then
               bind_c (get_c errno) (\<lambda>e.
               then_c (log_call LOG_ERROR ''Comm: write failed: %s'' [Strerror_arg e]) (return_c 0))
             else
               then_c (log_call LOG_DEBUG ''Comm: Sent %ld bytes: %s''
                        [Int_arg bytes_sent, Str_arg (echo_response buffer)])
                 (comm_handle_data K n socket_fd)))))))"

section \<open>Properties of the socket helpers\<close>

text \<open>
  \<open>tcp_socket_create_server\<close> is all or nothing on descriptors, whatever the kernel
  answers: it returns a new open descriptor, or -1 with every descriptor it opened closed
  again, or the process exits with status 1 (from \<open>setsockopt\<close>), also with it closed. It
  never faults, and the address it leaves has the family and the port asked for.
\<close>

theorem tcp_create_server_accounting:
  assumes "int_of (K (trace s) Socket) \<notin> open_fds (trace s)"
    and "tcp_socket_create_server K ip port addr s = (r, s')"
  shows "(\<exists>fd a. r = Ret (fd, a) \<and> 0 \<le> fd \<and> fd \<notin> open_fds (trace s) \<and>
            open_fds (trace s') = insert fd (open_fds (trace s)) \<and>
            sin_family a = AF_INET \<and> sin_port a = htons (word_of_int port)) \<or>
         (\<exists>a. r = Ret (-1, a) \<and> open_fds (trace s') = open_fds (trace s)) \<or>
         (r = Exit 1 \<and> open_fds (trace s') = open_fds (trace s))"
    (is "?Q r s'")
proof -
  have sin: "sin_family (set_sin_addr x a) = sin_family a" "sin_port (set_sin_addr x a) = sin_port a" for x a
    by (simp_all add: set_sin_addr_def split: option.split)
  have "wp (tcp_socket_create_server K ip port addr) ?Q s"
    unfolding tcp_socket_create_server_def socket_defs Let_def flat_simps
    using assms(1) by (intro wp_intros; simp add: sin split: option.split)
  from wpD [OF this assms(2)] show ?thesis .
qed

theorem tcp_create_server_accounting_witness:
  "\<exists>r s'. tcp_socket_create_server sample_kernel None 8080 zero_sockaddr \<lparr>trace = [], errno = 0\<rparr> = (r, s') \<and>
     (case r of Ret (fd, a) \<Rightarrow> fd = -1 \<or> fd \<in> open_fds (trace s') | Exit n \<Rightarrow> n = 1 | _ \<Rightarrow> False)"
proof -
  obtain r s' where run: "tcp_socket_create_server sample_kernel None 8080 zero_sockaddr \<lparr>trace = [], errno = 0\<rparr> = (r, s')"
    by fastforce
  have "int_of (sample_kernel (trace (\<lparr>trace = [], errno = 0\<rparr> :: os)) Socket) \<notin> open_fds (trace (\<lparr>trace = [], errno = 0\<rparr> :: os))"
    by simp
  from tcp_create_server_accounting [OF this run] run show ?thesis by auto
qed

text \<open>
  C31. The \<open>void\<close> helpers never report a failure to their caller: each of setting the option,
  binding, listening, connecting and accepting either succeeds, or logs the error, closes
  the socket and ends the whole process with status 1.
\<close>

definition failed_with :: "'z os_scheme \<Rightarrow> 'z os_scheme \<Rightarrow> int \<Rightarrow> bool" where
  "failed_with s s' fd \<longleftrightarrow>
     (\<exists>c r fmt e q. trace s' = trace s @ [Call c r, Logged LOG_ERROR fmt [Strerror_arg e], Call (Close fd) q] \<and>
        e = err_of r (errno s))"

theorem socket_helpers_exit:
  assumes "m \<in> {socket_setsockopt_reuseaddr K fd, socket_bind_address K port fd, socket_listen K fd,
      socket_connect K addr fd, socket_accept K fd}" and "m s = (r, s')"
  shows "r = Ret () \<and> (\<exists>c q. trace s' = trace s @ [Call c q]) \<or> r = Exit 1 \<and> failed_with s s' fd"
    (is "?Q r s'")
proof -
  have "wp m ?Q s"
    using assms(1) unfolding insert_iff empty_iff
    by (elim disjE FalseE; simp only: socket_defs Let_def flat_simps; intro wp_intros; simp add: failed_with_def)
  from wpD [OF this assms(2)] show ?thesis .
qed

theorem socket_helpers_exit_witness:
  "\<exists>s'. socket_listen (\<lambda>tr c. Err EBADF) 5 \<lparr>trace = [], errno = 0\<rparr> = (Exit 1, s') \<and> length (trace s') = 3"
proof -
  let ?K = "\<lambda>tr c. Err EBADF"
  obtain r s' where run: "socket_listen ?K 5 (\<lparr>trace = [], errno = 0\<rparr> :: os) = (r, s')" by fastforce
  have "r = Exit 1" using run by (auto simp: socket_defs run_simps)
  moreover have "socket_listen ?K 5 \<in> {socket_setsockopt_reuseaddr ?K 5, socket_bind_address ?K 80 5, socket_listen ?K 5,
      socket_connect ?K zero_sockaddr 5, socket_accept ?K 5}" by simp
  from socket_helpers_exit [OF this run] \<open>r = Exit 1\<close> have "length (trace s') = 3"
    by (auto simp: failed_with_def)
  ultimately show ?thesis using run by blast
qed

text \<open>
  \<open>socket_accept\<close> loses the connection it accepts: on success the process holds one
  descriptor more, and nothing of it is returned, stored or logged.
\<close>

theorem socket_accept_leaks:
  assumes "K (trace s) (Accept fd) = Peer c a" and "0 \<le> c" and "c \<notin> open_fds (trace s)"
  shows "\<exists>s'. socket_accept K fd s = (Ret (), s') \<and> open_fds (trace s') = insert c (open_fds (trace s)) \<and>
    trace s' = trace s @ [Call (Accept fd) (Peer c a)]"
  using assms by (simp add: socket_accept_def run_simps)

theorem socket_accept_leaks_witness:
  "\<exists>s'. socket_accept (\<lambda>tr c. Peer 7 zero_sockaddr) 3 \<lparr>trace = [], errno = 0\<rparr> = (Ret (), s') \<and> 7 \<in> open_fds (trace s')"
  using socket_accept_leaks [of "\<lambda>tr c. Peer 7 zero_sockaddr" "\<lparr>trace = [], errno = 0\<rparr>" 3 7 zero_sockaddr] by auto

section \<open>Addresses in text form\<close>

lemma split_on_none: "d \<notin> set p \<Longrightarrow> split_on d p = [p]"
  by (induction p) auto

lemma split_on_append: "d \<notin> set p \<Longrightarrow> split_on d (p @ d # q) = p # split_on d q"
  by (induction p) auto

lemma decimal_value_snoc: "decimal_value (ds @ [d]) = 10 * decimal_value ds + digit_value d"
  by (simp add: decimal_value_def)

lemma digit_char:
  assumes "d < (10 :: nat)"
  shows "c_isdigit (char_of (48 + d))" "digit_value (char_of (48 + d)) = d"
  using assms by (simp_all add: c_isdigit_def digit_value_def)

lemma show_nat_digits: "c \<in> set (show_nat n) \<Longrightarrow> c_isdigit c"
proof (induction n rule: show_nat.induct)
  case (1 n)
  then show ?case by (subst (asm) (2) show_nat.simps) (auto split: if_splits intro: digit_char)
qed

lemma decimal_value_show_nat: "decimal_value (show_nat n) = n"
proof (induction n rule: show_nat.induct)
  case (1 n)
  show ?case
  proof (cases "n < 10")
    case True
    then show ?thesis using digit_char(2) [of n] by (simp add: show_nat.simps [of n] decimal_value_def)
  next
    case False
    then show ?thesis using 1 digit_char(2) [of "n mod 10"]
      by (simp add: show_nat.simps [of n] decimal_value_snoc)
  qed
qed

lemma show_nat_Nil: "show_nat n \<noteq> []"
  by (subst show_nat.simps) auto

lemma hd_show_nat: "0 < n \<Longrightarrow> hd (show_nat n) \<noteq> CHR ''0''"
proof (induction n rule: show_nat.induct)
  case (1 n)
  show ?case
  proof (cases "n < 10")
    case True
    have "char_of (48 + n) \<noteq> CHR ''0''"
    proof
      assume "char_of (48 + n) = CHR ''0''"
      then have "(of_char (char_of (48 + n) :: char) :: nat) = of_char (CHR ''0'')" by simp
      then show False using True 1(2) by simp
    qed
    then show ?thesis using True by (simp add: show_nat.simps [of n])
  next
    case False
    then have "hd (show_nat (n div 10)) \<noteq> CHR ''0''" using 1 by simp
    then show ?thesis using False show_nat_Nil [of "n div 10"] by (simp add: show_nat.simps [of n])
  qed
qed

lemma octet_show: "octet (show_nat (unat b)) = Some b"
proof -
  have "unat b \<le> 255" using unat8_less [of b] by simp
  moreover have "hd (show_nat (unat b)) \<noteq> CHR ''0'' \<or> length (show_nat (unat b)) = 1"
    using hd_show_nat [of "unat b"] by (cases "unat b") (auto simp: show_nat.simps [of 0])
  ultimately show ?thesis
    using show_nat_digits show_nat_Nil by (auto simp: octet_def decimal_value_show_nat)
qed

lemma dot_notin_show_nat: "CHR ''.'' \<notin> set (show_nat n)" "NUL \<notin> set (show_nat n)"
  using show_nat_digits [of _ n] by (auto simp: c_isdigit_def dest: show_nat_digits)

text \<open>
  The text form of an address is read back exactly: what \<open>inet_ntoa\<close> prints for any four
  bytes, \<open>socket_set_server_address\<close> turns into these four bytes, with the port in network
  byte order; a text that is not a dotted quad is not reported, it leaves the wildcard
  address 0.0.0.0.
\<close>

theorem server_address_roundtrip:
  assumes "length bs = 4"
  shows "socket_set_server_address (dotted bs @ [NUL]) port =
      \<lparr>sin_family = AF_INET, sin_port = htons (word_of_int port), sin_addr = bs\<rparr> \<and>
    (inet_pton4 (cstr bad) = None \<longrightarrow> sin_addr (socket_set_server_address bad port) = [0, 0, 0, 0])"
proof -
  obtain a b c d where bs: "bs = [a, b, c, d]"
    using assms by (auto simp: numeral_eq_Suc length_Suc_conv)
  have "NUL \<notin> set (dotted bs)" by (simp add: bs dot_notin_show_nat)
  moreover have "inet_pton4 (dotted bs) = Some bs"
    by (simp add: inet_pton4_def bs split_on_append split_on_none dot_notin_show_nat octet_show)
  ultimately show ?thesis
    by (simp add: socket_set_server_address_def set_sin_addr_def zero_sockaddr_def INADDR_ANY_def)
qed

theorem server_address_roundtrip_witness:
  "sin_addr (socket_set_server_address (dotted [127, 0, 0, 1] @ [NUL]) 9999) = [127, 0, 0, 1] \<and>
   sin_addr (socket_set_server_address (''localhost'' @ [NUL]) 9999) = [0, 0, 0, 0]"
proof -
  have "inet_pton4 (cstr (''localhost'' @ [NUL])) = None" by (simp add: inet_pton4_def)
  then show ?thesis
    using server_address_roundtrip [of "[127, 0, 0, 1]" 9999 "''localhost'' @ [NUL]"] by simp
qed

section \<open>The echo loop\<close>

text \<open>What the trace shows of the conversation: the chunks read and the answers written.\<close>

fun echo_in :: "int \<Rightarrow> event list \<Rightarrow> char list list" where
  "echo_in fd [] = []"
| "echo_in fd (Call (Read f n) (Bytes b) # tr) = (if f = fd \<and> b \<noteq> [] then b # echo_in fd tr else echo_in fd tr)"
| "echo_in fd (_ # tr) = echo_in fd tr"

fun echo_out :: "int \<Rightarrow> event list \<Rightarrow> char list list" where
  "echo_out fd [] = []"
| "echo_out fd (Call (Write f b) r # tr) = (if f = fd then b # echo_out fd tr else echo_out fd tr)"
| "echo_out fd (_ # tr) = echo_out fd tr"

lemma echo_in_append [simp]: "echo_in fd (tr @ tr') = echo_in fd tr @ echo_in fd tr'"
  by (induction fd tr rule: echo_in.induct) auto

lemma echo_out_append [simp]: "echo_out fd (tr @ tr') = echo_out fd tr @ echo_out fd tr'"
  by (induction fd tr rule: echo_out.induct) auto

text \<open>\<open>read\<close> gives at most as many bytes as it was asked for.\<close>

definition reads_fit :: "kernel \<Rightarrow> bool" where
  "reads_fit K \<longleftrightarrow> (\<forall>tr fd n b. K tr (Read fd n) = Bytes b \<longrightarrow> length b \<le> n)"

definition echo_of :: "char list \<Rightarrow> char list" where
  "echo_of c = ''Echo: '' @ cstr c"

definition echo_done :: "int \<Rightarrow> event list \<Rightarrow> event list \<Rightarrow> bool" where
  "echo_done fd tr tr' \<longleftrightarrow>
     (\<exists>cs. echo_in fd tr' = echo_in fd tr @ cs \<and>
       echo_out fd tr' = echo_out fd tr @ map echo_of (filter (\<lambda>c. \<not> is_quit c) cs) \<and>
       (\<forall>c \<in> set (butlast cs). \<not> is_quit c))"

lemma cstr_append_NUL: "cstr (b @ NUL # r) = cstr b"
  by (induction b) auto

lemma echo_buffer:
  assumes "length b \<le> 1023" and "c_memcpy (replicate BUFFER_SIZE NUL) b (length b) = Some x"
    and "c_store x (length b) NUL = Some y"
  shows "cstr y = cstr b" "is_quit y = is_quit b" "echo_response y = echo_of b"
proof -
  have "1024 - length b = Suc (1023 - length b)" using assms(1) by simp
  then have "y = b @ NUL # replicate (1023 - length b) NUL"
    using assms by (auto simp: c_memcpy_def c_store_def BUFFER_SIZE_def list_update_append Suc_diff_le split: if_splits nat.split)
  then show c: "cstr y = cstr b" by (simp add: cstr_append_NUL)
  then show "is_quit y = is_quit b" by (simp add: is_quit_def)
  show "echo_response y = echo_of b"
    using c assms(1) length_cstr_le [of b] by (simp add: echo_response_def echo_of_def BUFFER_SIZE_def)
qed

lemma echo_buffer_fits:
  assumes "length b \<le> 1023"
  shows "c_memcpy (replicate BUFFER_SIZE NUL) b (length b) \<noteq> None"
    "c_memcpy (replicate BUFFER_SIZE NUL) b (length b) = Some x \<Longrightarrow> c_store x (length b) NUL \<noteq> None"
  using assms by (auto simp: c_memcpy_def c_store_def BUFFER_SIZE_def split: if_splits)

lemma bytes_of_Some: "bytes_of r = Some b \<longleftrightarrow> r = Bytes b"
  by (cases r) auto

lemma echo_done_step:
  assumes "echo_done fd tr1 tr'" and "echo_in fd tr1 = echo_in fd tr @ [b]"
    and "echo_out fd tr1 = echo_out fd tr @ [echo_of b]" and "\<not> is_quit b"
  shows "echo_done fd tr tr'"
proof -
  obtain cs where "echo_in fd tr' = echo_in fd tr1 @ cs"
    "echo_out fd tr' = echo_out fd tr1 @ map echo_of (filter (\<lambda>c. \<not> is_quit c) cs)"
    "\<forall>c \<in> set (butlast cs). \<not> is_quit c"
    using assms(1) by (auto simp: echo_done_def)
  then show ?thesis unfolding echo_done_def using assms(2-4)
    by (intro exI [of _ "b # cs"]) auto
qed

lemma echo_done_end:
  "echo_in fd tr1 = echo_in fd tr \<Longrightarrow> echo_out fd tr1 = echo_out fd tr \<Longrightarrow> echo_done fd tr tr1"
  "echo_in fd tr1 = echo_in fd tr @ [b] \<Longrightarrow> is_quit b \<Longrightarrow> echo_out fd tr1 = echo_out fd tr \<Longrightarrow> echo_done fd tr tr1"
  "echo_in fd tr1 = echo_in fd tr @ [b] \<Longrightarrow> \<not> is_quit b \<Longrightarrow> echo_out fd tr1 = echo_out fd tr @ [echo_of b] \<Longrightarrow> echo_done fd tr tr1"
  by (force simp: echo_done_def)+

lemma comm_handle_data_wp:
  assumes "reads_fit K"
  shows "wp (comm_handle_data K n fd) (\<lambda>r s'. (r = Ret 0 \<or> r = Out_of_fuel) \<and> echo_done fd (trace s) (trace s')) s"
proof (induction n arbitrary: s)
  case 0
  show ?case by (simp add: wp_leaf echo_done_end)
next
  case (Suc n)
  have fit: "length b \<le> 1023" if "K (trace s) (Read fd (BUFFER_SIZE - 1)) = Bytes b" for b
    using assms that by (fastforce simp: reads_fit_def BUFFER_SIZE_def)
  show ?case
    unfolding comm_handle_data.simps Let_def flat_simps
  proof (intro wp_intros, goal_cases)
    case (1 r)
    then show ?case by (cases r) (auto intro: echo_done_end)
  next
    case (2 r b)
    then show ?case by (auto simp: bytes_of_Some intro: echo_done_end)
  next
    case (3 r b)
    then show ?case using echo_buffer_fits(1) fit by (auto simp: bytes_of_Some)
  next
    case (4 r b x)
    then show ?case using echo_buffer_fits(2) fit by (auto simp: bytes_of_Some)
  next
    case (5 r b x y)
    then show ?case using echo_buffer(2) fit by (auto simp: bytes_of_Some intro!: echo_done_end(2) [of _ _ _ b])
  next
    case (6 r b x y q)
    then show ?case using echo_buffer fit by (auto simp: bytes_of_Some intro!: echo_done_end(3) [of _ _ _ b])
  next
    case (7 r b x y q)
    have len: "length b \<le> 1023" using 7 fit by (simp add: bytes_of_Some)
    note buf = echo_buffer [OF len 7(4,5)]
    show ?case
      by (rule wp_mono [OF Suc.IH], elim conjE, intro conjI, assumption, erule echo_done_step [where b = b])
        (use 7 buf in \<open>simp_all add: bytes_of_Some\<close>)
  qed
qed

text \<open>
  C35. The echo loop is safe and faithful. Whatever the peer sends and however long it goes
  on, \<open>comm_handle_data\<close> never leaves its buffers; every chunk it reads is answered once, in
  order, by \<open>Echo: \<close> and the chunk's text (up to a NUL byte), uncut, except a chunk that begins
  with \<open>quit\<close>, which is not answered and is the last one read.
\<close>

theorem echo_loop_faithful:
  assumes "reads_fit K" and "comm_handle_data K n fd s = (r, s')"
  shows "(r = Ret 0 \<or> r = Out_of_fuel) \<and>
    (\<exists>cs. echo_in fd (trace s') = echo_in fd (trace s) @ cs \<and>
       echo_out fd (trace s') = echo_out fd (trace s) @ map (\<lambda>c. ''Echo: '' @ cstr c) (filter (\<lambda>c. \<not> is_quit c) cs) \<and>
       (\<forall>c \<in> set (butlast cs). \<not> is_quit c))"
  using wpD [OF comm_handle_data_wp [OF assms(1)] assms(2)]
  by (simp add: echo_done_def echo_of_def [abs_def])

text \<open>
  The echo loop ends when the peer does: if the descriptor yields no bytes any more
  after \<open>N\<close> further chunks, \<open>comm_handle_data\<close> returns 0 within \<open>N + 1\<close> rounds.
\<close>

theorem echo_loop_ends:
  assumes "reads_fit K"
    and "\<forall>tr. length (echo_in fd (trace s)) + N \<le> length (echo_in fd tr) \<longrightarrow>
           (case bytes_of (K tr (Read fd 1023)) of None \<Rightarrow> True | Some b \<Rightarrow> b = [])"
  shows "\<exists>s'. comm_handle_data K (Suc N) fd s = (Ret 0, s')"
proof -
  have "wp (comm_handle_data K (Suc N) fd) (\<lambda>r s'. r = Ret 0) s"
    using assms(2)
  proof (induction N arbitrary: s)
    case 0
    then show ?case
      unfolding comm_handle_data.simps(2) Let_def flat_simps
      by (intro wp_intros) (auto simp: bytes_of_Some BUFFER_SIZE_def)
  next
    case (Suc N)
    have fit: "length b \<le> 1023" if "K (trace s) (Read fd (BUFFER_SIZE - 1)) = Bytes b" for b
      using assms that by (fastforce simp: reads_fit_def BUFFER_SIZE_def)
    show ?case
      unfolding comm_handle_data.simps(2) [of K "Suc N"] Let_def flat_simps
    proof (intro wp_intros, goal_cases)
      case (7 r b x y q)
      show ?case
        by (rule Suc.IH, use Suc.prems 7 in \<open>simp add: bytes_of_Some\<close>)
    qed (use echo_buffer_fits fit in \<open>auto simp: bytes_of_Some\<close>)
  qed
  then show ?thesis by (cases "comm_handle_data K (Suc N) fd s") (simp add: wp_def)
qed

definition echo_peer :: kernel where
  "echo_peer tr c =
     (case c of
        Read fd n \<Rightarrow> (if echo_in fd tr = [] then Bytes (take n ''hello'') else if length (echo_in fd tr) = 1 then Bytes (take n ''quit'') else Bytes [])
      | Write fd b \<Rightarrow> Val (int (length b))
      | _ \<Rightarrow> Val 0)"

lemma echo_peer_fits: "reads_fit echo_peer"
  by (auto simp: reads_fit_def echo_peer_def split: if_splits)

theorem echo_loop_faithful_witness:
  "\<exists>r s'. comm_handle_data echo_peer 5 4 \<lparr>trace = [], errno = 0\<rparr> = (r, s') \<and> (r = Ret 0 \<or> r = Out_of_fuel) \<and>
     (\<exists>cs. echo_in 4 (trace s') = cs \<and>
        echo_out 4 (trace s') = map (\<lambda>c. ''Echo: '' @ cstr c) (filter (\<lambda>c. \<not> is_quit c) cs))"
proof -
  obtain r s' where run: "comm_handle_data echo_peer 5 4 (\<lparr>trace = [], errno = 0\<rparr> :: os) = (r, s')" by fastforce
  from echo_loop_faithful [OF echo_peer_fits run] run show ?thesis by simp
qed

theorem echo_loop_ends_witness:
  "\<exists>s'. comm_handle_data echo_peer (Suc 2) 4 \<lparr>trace = [], errno = 0\<rparr> = (Ret 0, s')"
proof (rule echo_loop_ends [OF echo_peer_fits])
  show "\<forall>tr. length (echo_in 4 (trace (\<lparr>trace = [], errno = 0\<rparr> :: os))) + 2 \<le> length (echo_in 4 tr) \<longrightarrow>
    (case bytes_of (echo_peer tr (Read 4 1023)) of None \<Rightarrow> True | Some b \<Rightarrow> b = [])"
    by (auto simp: echo_peer_def)
qed

section \<open>One process per connection\<close>

text \<open>Every successful \<open>accept\<close> gives a descriptor that is not in use.\<close>

definition accept_fresh :: "kernel \<Rightarrow> bool" where
  "accept_fresh K \<longleftrightarrow> (\<forall>tr l fd a. K tr (Accept l) = Peer fd a \<longrightarrow> fd \<notin> open_fds tr)"

text \<open>
  The accept loop never returns: the parent goes round for ever (any number of rounds is
  used up), holding after each round exactly the descriptors it started with, and a child
  ends with status 1. It goes round also when \<open>accept\<close> fails at once every time; each such
  round logs an error.
\<close>

theorem fork_loop_keeps_descriptors:
  assumes "accept_fresh K" and "socket_connect_with_client K n server_fd s = (r, s')"
  shows "r = Out_of_fuel \<and> open_fds (trace s') = open_fds (trace s) \<or>
    r = Exit 1 \<and> server_fd \<notin> open_fds (trace s')"
    (is "?Q s r s'")
proof -
  have "wp (socket_connect_with_client K n server_fd) (?Q s) s"
  proof (induction n arbitrary: s)
    case (Suc n)
    have fresh: "fd \<notin> open_fds (trace s)" if "peer_of (K (trace s) (Accept server_fd)) = Some (fd, a)" for fd a
      using assms(1) that by (cases "K (trace s) (Accept server_fd)") (auto simp: accept_fresh_def split: if_splits)
    show ?case
      unfolding socket_connect_with_client.simps flat_simps
    proof (intro wp_intros, goal_cases)
      case (1 r)
      show ?case by (rule wp_mono [OF Suc.IH]) (use 1 in simp)
    next
      case (2 r x y fd a q)
      show ?case by (rule wp_mono [OF Suc.IH]) (use 2 fresh in auto)
    next
      case (4 r x fd a q p)
      show ?case by (rule wp_mono [OF Suc.IH]) (use 4 fresh in auto)
    qed auto
  qed (simp add: wp_leaf)
  from wpD [OF this assms(2)] show ?thesis .
qed

theorem fork_loop_keeps_descriptors_witness:
  "\<exists>r s'. socket_connect_with_client sample_kernel 9 3 \<lparr>trace = [], errno = 0\<rparr> = (r, s') \<and>
     (r = Out_of_fuel \<and> open_fds (trace s') = {} \<or> r = Exit 1)"
proof -
  obtain r s' where run: "socket_connect_with_client sample_kernel 9 3 (\<lparr>trace = [], errno = 0\<rparr> :: os) = (r, s')" by fastforce
  have "accept_fresh sample_kernel" by (simp add: accept_fresh_def sample_kernel_def)
  from fork_loop_keeps_descriptors [OF this run] run show ?thesis by auto
qed

end
