(* ===== verification/Socket_Server.thy ===== *)
theory Socket_Server
  imports Client_Manager Libepoll Libsocket
begin

text \<open>
  The event-driven server (\<^verbatim>\<open>src/internal/libsocket.c\<close> from \<open>socket_server_t\<close> on,
  \<^verbatim>\<open>src/internal/server.h\<close>): accepting connections, reading from clients, the event loop and
  the server's life cycle, over the heap, the client manager and the epoll wrapper. The
  user's callbacks are a parameter \<open>U\<close> that maps a function number and its arguments to a
  program. The loops whose length the kernel decides take fuel.
\<close>

section \<open>Callbacks\<close>

datatype cb_args =
    Cb_start ptr
  | Cb_stop ptr
  | Cb_connection ptr ptr
  | Cb_disconnected ptr ptr
  | Cb_received ptr "char list" nat ptr

type_synonym 's user = "fn \<Rightarrow> cb_args \<Rightarrow> ('s, unit) prog"

definition call_opt :: "'s user \<Rightarrow> fn option \<Rightarrow> cb_args \<Rightarrow> ('s, unit) prog" where
  "call_opt U f args = (case f of None \<Rightarrow> return_c () | Some g \<Rightarrow> U g args)"

section \<open>Event handlers\<close>

primrec handle_accept :: "kernel \<Rightarrow> 'z mem_scheme user \<Rightarrow> nat \<Rightarrow> ptr \<Rightarrow> ('z mem_scheme, unit) prog" where
  "handle_accept K U 0 server = fuel_c"
| "handle_accept K U (Suc n) server =
     bind_c (load the_server server) (\<lambda>sv.
     bind_c (tcp_socket_accept K (ss_listen_fd sv) zero_sockaddr) (\<lambda>(client_fd, client_addr).
     if client_fd = -1 then
       bind_c (get_c errno) (\<lambda>e. if e = EAGAIN then return_c () else perror ''accept'')
     else
       bind_c (tcp_socket_set_nonblocking K client_fd) (\<lambda>nb.
       if nb = -1 then
         then_c (sys_ignore K (Close client_fd)) (handle_accept K U n server)
       else
         bind_c (client_manager_add K (ss_client_mgr sv) client_fd client_addr) (\<lambda>client.
         if client = 0 then
           then_c (eprint ''Too Many Clients'')
           (then_c (sys_ignore K (Close client_fd))
             (handle_accept K U n server))
         else
           bind_c (epoll_handler_add K (ss_epoll sv) client_fd 0 (or EPOLLIN EPOLLET)) (\<lambda>added.
           if added = -1 then
             then_c (client_manager_remove K (ss_client_mgr sv) client_fd)
             (then_c (sys_ignore K (Close client_fd))
               (handle_accept K U n server))
           else
             then_c (call_opt U (on_connection (ss_callbacks sv)) (Cb_connection client (ss_user_data sv)))
               (handle_accept K U n server))))))"

text \<open>The common end of a connection: callback, epoll, descriptor, registry.\<close>

definition drop_client ::
    "kernel \<Rightarrow> 'z mem_scheme user \<Rightarrow> ptr \<Rightarrow> int \<Rightarrow> ptr \<Rightarrow> ('z mem_scheme, unit) prog" where
  "drop_client K U server client_fd client =
     bind_c (load the_server server) (\<lambda>sv.
     then_c (call_opt U (on_disconnected (ss_callbacks sv)) (Cb_disconnected client (ss_user_data sv)))
     (bind_c (load the_server server) (\<lambda>sv.
     bind_c (epoll_handler_remove K (ss_epoll sv) client_fd) (\<lambda>_.
     then_c (sys_ignore K (Close client_fd))
       (client_manager_remove K (ss_client_mgr sv) client_fd)))))"

primrec receive_loop ::
    "kernel \<Rightarrow> 'z mem_scheme user \<Rightarrow> nat \<Rightarrow> ptr \<Rightarrow> int \<Rightarrow> ptr \<Rightarrow> ('z mem_scheme, unit) prog" where
  "receive_loop K U 0 server client_fd client = fuel_c"
| "receive_loop K U (Suc n) server client_fd client =
     bind_c (sys K (Recv client_fd BUFFER_SIZE No_flag)) (\<lambda>r.
     case bytes_of r of
       None \<Rightarrow>
         bind_c (get_c errno) (\<lambda>e.
         if e = EAGAIN then return_c ()
         else then_c (perror ''recv'') (drop_client K U server client_fd client))
     | Some b \<Rightarrow>
         if b = [] then drop_client K U server client_fd client
         else
           bind_c (require_c Out_of_bounds (if length b \<le> BUFFER_SIZE then Some () else None)) (\<lambda>_.
           bind_c (load the_server server) (\<lambda>sv.
           then_c (call_opt U (on_received (ss_callbacks sv))
                    (Cb_received client b (length b) (ss_user_data sv)))
             (receive_loop K U n server client_fd client))))"

definition handle_client ::
    "kernel \<Rightarrow> 'z mem_scheme user \<Rightarrow> nat \<Rightarrow> ptr \<Rightarrow> int \<Rightarrow> ('z mem_scheme, unit) prog" where
  "handle_client K U n server client_fd =
     bind_c (load the_server server) (\<lambda>sv.
     bind_c (client_manager_find (ss_client_mgr sv) client_fd) (\<lambda>client.
     if client = 0 then return_c ()
     else receive_loop K U n server client_fd client))"

text \<open>
  The callback type has a pointer where this function has an \<open>int\<close>: on the 64-bit hosts the
  program is built for, the function sees the low half of the pointer.
\<close>

definition epoll_event_callback ::
    "kernel \<Rightarrow> 'z mem_scheme user \<Rightarrow> nat \<Rightarrow> 'z mem_scheme event_callback" where
  "epoll_event_callback K U n p events user_data =
     (let fd = ptr_as_int p in
      bind_c (load the_server user_data) (\<lambda>server.
      if fd = ss_listen_fd server then handle_accept K U n user_data
      else handle_client K U n user_data fd))"

section \<open>Life cycle\<close>

definition no_callbacks :: server_callbacks where
  "no_callbacks = \<lparr>on_start = None, on_stop = None, on_connection = None, on_disconnected = None, on_received = None\<rparr>"

definition zero_server :: socket_server where
  "zero_server = \<lparr>ss_listen_fd = 0, ss_epoll = 0, ss_client_mgr = 0, ss_addr = zero_sockaddr,
     ss_callbacks = no_callbacks, ss_user_data = 0, ss_running = 0\<rparr>"

definition SIZEOF_SOCKET_SERVER :: nat where "SIZEOF_SOCKET_SERVER = 96"

definition set_server :: "ptr \<Rightarrow> (socket_server \<Rightarrow> socket_server) \<Rightarrow> ('z mem_scheme, unit) prog" where
  "set_server server f = bind_c (load the_server server) (\<lambda>sv. store server (Server (f sv)))"

definition socket_server_create ::
    "kernel \<Rightarrow> char list option \<Rightarrow> int \<Rightarrow> server_callbacks option \<Rightarrow> ptr \<Rightarrow> ('z mem_scheme, ptr) prog" where
  "socket_server_create K ip port callbacks user_data =
     (case callbacks of None \<Rightarrow> then_c (eprint ''Callbacks are required'') (return_c 0) | Some cbs \<Rightarrow>
      bind_c (alloc_c K SIZEOF_SOCKET_SERVER (Server zero_server)) (\<lambda>server.
      if server = 0 then return_c 0 else
      bind_c (socket_init K) (\<lambda>fd.
      then_c (set_server server (\<lambda>v. v\<lparr>ss_listen_fd := fd\<rparr>))
      (if fd < 0 then then_c (free_c K server) (return_c 0) else
      then_c (socket_setsockopt_reuseaddr K fd)
      (let addr1 = zero_sockaddr\<lparr>sin_family := AF_INET, sin_port := htons (word_of_int port)\<rparr>;
           addr2 = (case ip of Some t \<Rightarrow> set_sin_addr t addr1 | None \<Rightarrow> addr1\<lparr>sin_addr := INADDR_ANY\<rparr>) in
      then_c (set_server server (\<lambda>v. v\<lparr>ss_addr := addr2\<rparr>))
      (bind_c (sys_int K (Bind fd addr2)) (\<lambda>r.
      if r < 0 then
        bind_c (get_c errno) (\<lambda>e.
        then_c (log_call LOG_ERROR ''bind failed: %s'' [Strerror_arg e])
        (then_c (sys_ignore K (Close fd))
        (then_c (free_c K server)
          (return_c 0))))
      else
      then_c (socket_listen K fd)
      (bind_c (epoll_handler_create K) (\<lambda>ep.
      then_c (set_server server (\<lambda>v. v\<lparr>ss_epoll := ep\<rparr>))
      (if ep = 0 then
        then_c (sys_ignore K (Close fd)) (then_c (free_c K server) (return_c 0))
      else
      bind_c (client_manager_create K) (\<lambda>mgr.
      then_c (set_server server (\<lambda>v. v\<lparr>ss_client_mgr := mgr\<rparr>))
      (if mgr = 0 then
        then_c (epoll_handler_destroy K ep)
        (then_c (sys_ignore K (Close fd)) (then_c (free_c K server) (return_c 0)))
      else
      bind_c (epoll_handler_add K ep fd 0 (or EPOLLIN EPOLLET)) (\<lambda>r.
      if r = -1 then
        then_c (client_manager_destroy K mgr)
        (then_c (epoll_handler_destroy K ep)
        (then_c (sys_ignore K (Close fd)) (then_c (free_c K server) (return_c 0))))
      else
        then_c (set_server server (\<lambda>v. v\<lparr>ss_callbacks := cbs, ss_user_data := user_data, ss_running := 0\<rparr>))
          (return_c server))))))))))))))"

text \<open>\<open>n\<close> bounds the rounds of the event loop, \<open>m\<close> those of the loops in a callback.\<close>

primrec event_loop ::
    "kernel \<Rightarrow> 'z mem_scheme user \<Rightarrow> nat \<Rightarrow> nat \<Rightarrow> ptr \<Rightarrow> ('z mem_scheme, unit) prog" where
  "event_loop K U m 0 server = fuel_c"
| "event_loop K U m (Suc n) server =
     bind_c (load the_server server) (\<lambda>sv.
     if ss_running sv \<noteq> 0 then
       bind_c (epoll_handler_wait K (ss_epoll sv) (-1) (Some (epoll_event_callback K U m)) server) (\<lambda>ret.
       bind_c (get_c errno) (\<lambda>e.
       if ret = -1 \<and> e \<noteq> EINTR then return_c ()
       else event_loop K U m n server))
     else return_c ())"

definition socket_server_start ::
    "kernel \<Rightarrow> 'z mem_scheme user \<Rightarrow> nat \<Rightarrow> nat \<Rightarrow> ptr \<Rightarrow> ('z mem_scheme, int) prog" where
  "socket_server_start K U m n server =
     (if server = 0 then return_c (-1) else
      then_c (set_server server (\<lambda>v. v\<lparr>ss_running := 1\<rparr>))
      (bind_c (load the_server server) (\<lambda>sv.
      then_c (call_opt U (on_start (ss_callbacks sv)) (Cb_start (ss_user_data sv)))
      (then_c (event_loop K U m n server)
      (bind_c (load the_server server) (\<lambda>sv.
      then_c (call_opt U (on_stop (ss_callbacks sv)) (Cb_stop (ss_user_data sv)))
        (return_c 0)))))))"

definition socket_server_stop :: "ptr \<Rightarrow> ('z mem_scheme, unit) prog" where
  "socket_server_stop server =
     (if server = 0 then return_c () else set_server server (\<lambda>v. v\<lparr>ss_running := 0\<rparr>))"

definition socket_server_destroy :: "kernel \<Rightarrow> ptr \<Rightarrow> ('z mem_scheme, unit) prog" where
  "socket_server_destroy K server =
     (if server = 0 then return_c () else
      bind_c (load the_server server) (\<lambda>sv.
      then_c (if ss_listen_fd sv \<noteq> -1 then sys_ignore K (Close (ss_listen_fd sv)) else return_c ())
      (then_c (if ss_epoll sv \<noteq> 0 then epoll_handler_destroy K (ss_epoll sv) else return_c ())
      (then_c (if ss_client_mgr sv \<noteq> 0 then client_manager_destroy K (ss_client_mgr sv) else return_c ())
        (free_c K server)))))"

text \<open>The result of \<open>send\<close> is cut to an \<open>int\<close>.\<close>

definition socket_server_send ::
    "kernel \<Rightarrow> ptr \<Rightarrow> char list option \<Rightarrow> nat \<Rightarrow> ('z mem_scheme, int) prog" where
  "socket_server_send K client data len =
     (case data of None \<Rightarrow> return_c (-1) | Some d \<Rightarrow>
      if client = 0 then return_c (-1) else
      bind_c (load the_node client) (\<lambda>nd.
      bind_c (require_c Out_of_bounds (if len \<le> length d then Some (take len d) else None)) (\<lambda>b.
      bind_c (sys_int K (Send (ci_fd (cn_info nd)) b No_flag)) (\<lambda>r.
      return_c (sint (word_of_int r :: 32 word))))))"

definition socket_server_disconnect :: "kernel \<Rightarrow> ptr \<Rightarrow> ('z mem_scheme, unit) prog" where
  "socket_server_disconnect K client =
     (if client = 0 then return_c () else
      bind_c (load the_node client) (\<lambda>nd. sys_ignore K (Close (ci_fd (cn_info nd)))))"

section \<open>The server's invariant\<close>

definition client_fds :: "client list \<Rightarrow> int list" where
  "client_fds cs = map (\<lambda>c. ci_fd (snd c)) cs"

text \<open>
  A server at \<open>server\<close> with fields \<open>sv\<close>, epoll descriptor \<open>ep\<close> and clients \<open>cs\<close>: the objects are
  in place; registry, open descriptors and watched descriptors agree on the clients; every client's
  descriptor is in non-blocking mode, and none is the listening or the epoll descriptor.
\<close>

definition server_ok :: "ptr \<Rightarrow> socket_server \<Rightarrow> int \<Rightarrow> client list \<Rightarrow> 'z mem_scheme \<Rightarrow> bool" where
  "server_ok server sv ep cs s \<longleftrightarrow>
     server \<noteq> 0 \<and> heap s server = Some (Server sv) \<and> handler_on (ss_epoll sv) ep s \<and>
     registry (ss_client_mgr sv) cs s \<and> distinct (client_fds cs) \<and>
     ss_listen_fd sv \<in> open_fds (trace s) \<and> ep \<in> open_fds (trace s) \<and>
     (\<forall>fd \<in> set (client_fds cs). fd \<in> open_fds (trace s) \<and> watched ep (trace s) fd = Some 0 \<and>
        fd \<in> nonblocking (trace s) \<and> fd \<noteq> ss_listen_fd sv \<and> fd \<noteq> ep)"

lemma server_okE:
  assumes "server_ok server sv ep cs s"
  obtains "server \<noteq> 0" "heap s server = Some (Server sv)" "handler_on (ss_epoll sv) ep s"
    "registry (ss_client_mgr sv) cs s" "distinct (client_fds cs)"
    "ss_listen_fd sv \<in> open_fds (trace s)" "ep \<in> open_fds (trace s)"
    "\<forall>fd \<in> set (client_fds cs). fd \<in> open_fds (trace s) \<and> watched ep (trace s) fd = Some 0 \<and>
        fd \<in> nonblocking (trace s) \<and> fd \<noteq> ss_listen_fd sv \<and> fd \<noteq> ep"
  using assms by (auto simp: server_ok_def)

text \<open>A program that only adds to the trace, and nothing to do with descriptors or memory.\<close>

definition quiet :: "'z mem_scheme \<Rightarrow> 'z mem_scheme \<Rightarrow> bool" where
  "quiet s s' \<longleftrightarrow> heap s' = heap s \<and> open_fds (trace s') = open_fds (trace s) \<and>
     allocated (trace s') = allocated (trace s) \<and> (\<forall>ep. watched ep (trace s') = watched ep (trace s)) \<and>
     nonblocking (trace s') = nonblocking (trace s) \<and> (\<exists>evs. trace s' = trace s @ evs)"

definition quiet_user :: "'z mem_scheme user \<Rightarrow> bool" where
  "quiet_user U \<longleftrightarrow> (\<forall>g a s. \<exists>s'. U g a s = (Ret (), s') \<and> quiet s s')"

lemma quiet_refl: "quiet s s"
  by (simp add: quiet_def)

lemma call_opt_wp:
  assumes "quiet_user U" and "\<And>s'. quiet s s' \<Longrightarrow> wp (f ()) Q s'"
  shows "wp (bind_c (call_opt U g a) f) Q s"
proof (cases g)
  case None
  then show ?thesis using assms(2) [OF quiet_refl] by (simp add: call_opt_def flat_simps)
next
  case (Some h)
  obtain s' where "U h a s = (Ret (), s')" "quiet s s'" using assms(1) unfolding quiet_user_def by blast
  then show ?thesis using assms(2) by (simp add: Some call_opt_def wp_run)
qed

lemma registry_same:
  "heap s' = heap s \<Longrightarrow> allocated (trace s') = allocated (trace s) \<Longrightarrow> registry mgr cs s' \<longleftrightarrow> registry mgr cs s"
  by (simp add: registry_def heap_ok_def)

lemma handler_same: "heap s' = heap s \<Longrightarrow> handler_on h ep s' \<longleftrightarrow> handler_on h ep s"
  by (simp add: handler_on_def)

lemma on_trace [simp]:
  "handler_on h ep (s\<lparr>trace := t\<rparr>) = handler_on h ep s"
  "handler_on h ep (s\<lparr>trace := t, errno := e\<rparr>) = handler_on h ep s"
  "allocated t = allocated (trace s) \<Longrightarrow> registry mgr cs (s\<lparr>trace := t\<rparr>) = registry mgr cs s"
  "allocated t = allocated (trace s) \<Longrightarrow> registry mgr cs (s\<lparr>trace := t, errno := e\<rparr>) = registry mgr cs s"
  by (simp_all add: handler_on_def registry_def heap_ok_def)

lemma registry_quiet: "quiet s s' \<Longrightarrow> registry mgr cs s' \<longleftrightarrow> registry mgr cs s"
  by (simp add: quiet_def registry_def heap_ok_def)

lemma handler_quiet: "quiet s s' \<Longrightarrow> handler_on h ep s' \<longleftrightarrow> handler_on h ep s"
  by (simp add: quiet_def handler_on_def)

lemma server_quiet: "quiet s s' \<Longrightarrow> server_ok server sv ep cs s' \<longleftrightarrow> server_ok server sv ep cs s"
  by (simp add: server_ok_def registry_quiet handler_quiet) (simp add: quiet_def)

section \<open>Accepting\<close>

text \<open>The state after an accepted connection was made non-blocking, before it is registered.\<close>

definition pending :: "int \<Rightarrow> 'z mem_scheme \<Rightarrow> 'z mem_scheme \<Rightarrow> bool" where
  "pending fd s s' \<longleftrightarrow> heap s' = heap s \<and> open_fds (trace s') = insert fd (open_fds (trace s)) \<and>
     allocated (trace s') = allocated (trace s) \<and> (\<forall>ep. watched ep (trace s') = watched ep (trace s)) \<and>
     nonblocking (trace s') = insert fd (nonblocking (trace s))"

text \<open>How often connections were taken from a listening descriptor.\<close>

fun accepts :: "int \<Rightarrow> event list \<Rightarrow> nat" where
  "accepts l [] = 0"
| "accepts l (Call (Accept l') r # tr) = (if l' = l \<and> peer_of r \<noteq> None then 1 else 0) + accepts l tr"
| "accepts l (ev # tr) = accepts l tr"

lemma accepts_append [simp]: "accepts l (tr @ tr') = accepts l tr + accepts l tr'"
  by (induction l tr rule: accepts.induct) auto

text \<open>
  The call that ends the loop: \<open>accept\<close>, called after the trace \<open>tr0\<close>, had no connection to give. The
  descriptors open at the start are then in the mode they were in.
\<close>

definition drained :: "int \<Rightarrow> event list \<Rightarrow> event list \<Rightarrow> bool" where
  "drained l tr0 tr \<longleftrightarrow> (\<exists>tr1 q rest. tr = tr1 @ Call (Accept l) q # rest \<and> peer_of q = None \<and>
     length tr0 \<le> length tr1 \<and> (\<forall>x \<in> open_fds tr0. x \<in> nonblocking tr1 \<longleftrightarrow> x \<in> nonblocking tr0))"

lemma drained_back:
  "drained l tr1 tr \<Longrightarrow> open_fds tr0 \<subseteq> open_fds tr1 \<Longrightarrow> \<forall>x \<in> open_fds tr0. x \<in> nonblocking tr1 \<longleftrightarrow> x \<in> nonblocking tr0 \<Longrightarrow>
   length tr0 \<le> length tr1 \<Longrightarrow> drained l tr0 tr"
  unfolding drained_def by (metis subsetD le_trans)

definition accept_post ::
    "kernel \<Rightarrow> nat \<Rightarrow> ptr \<Rightarrow> socket_server \<Rightarrow> int \<Rightarrow> client list \<Rightarrow> 'z mem_scheme \<Rightarrow> unit outcome \<Rightarrow> 'z mem_scheme \<Rightarrow> bool" where
  "accept_post K n server sv ep cs s r s' \<longleftrightarrow>
     (\<exists>new. server_ok server sv ep (new @ cs) s' \<and>
        open_fds (trace s') = set (client_fds new) \<union> open_fds (trace s) \<and>
        set (client_fds new) \<inter> open_fds (trace s) = {}) \<and>
     (r = Ret () \<and> drained (ss_listen_fd sv) (trace s) (trace s') \<or> r = Out_of_fuel \<and>
        (n = 0 \<or> (\<exists>tr. accepts (ss_listen_fd sv) (trace s) + (n - 1) \<le> accepts (ss_listen_fd sv) tr \<and>
                   peer_of (K tr (Accept (ss_listen_fd sv))) \<noteq> None)))"

text \<open>One round done, with the clients \<open>front\<close> added: what the rest achieves carries over.\<close>

lemma accept_post_step:
  assumes "accept_post K n server sv ep (front @ cs) s1 r s'"
    and "open_fds (trace s1) = set (client_fds front) \<union> open_fds (trace s)"
    and "set (client_fds front) \<inter> open_fds (trace s) = {}"
    and "accepts (ss_listen_fd sv) (trace s) + 1 \<le> accepts (ss_listen_fd sv) (trace s1)"
    and "peer_of (K (trace s) (Accept (ss_listen_fd sv))) \<noteq> None"
    and "\<forall>x \<in> open_fds (trace s). x \<in> nonblocking (trace s1) \<longleftrightarrow> x \<in> nonblocking (trace s)"
    and "length (trace s) \<le> length (trace s1)"
  shows "accept_post K (Suc n) server sv ep cs s r s'"
proof -
  from assms(1) obtain new where new: "server_ok server sv ep (new @ front @ cs) s'"
    "open_fds (trace s') = set (client_fds new) \<union> open_fds (trace s1)"
    "set (client_fds new) \<inter> open_fds (trace s1) = {}" by (auto simp: accept_post_def)
  have "server_ok server sv ep ((new @ front) @ cs) s'" using new(1) by simp
  moreover have "set (client_fds (new @ front)) \<inter> open_fds (trace s) = {}"
    "open_fds (trace s') = set (client_fds (new @ front)) \<union> open_fds (trace s)"
    using new(2,3) assms(2,3) by (auto simp: client_fds_def)
  moreover have "\<exists>tr. accepts (ss_listen_fd sv) (trace s) + n \<le> accepts (ss_listen_fd sv) tr \<and>
      peer_of (K tr (Accept (ss_listen_fd sv))) \<noteq> None" if "r = Out_of_fuel"
  proof (cases n)
    case 0
    then show ?thesis using assms(5) by (intro exI [of _ "trace s"]) simp
  next
    case (Suc m)
    with assms(1) that obtain tr where "accepts (ss_listen_fd sv) (trace s1) + m \<le> accepts (ss_listen_fd sv) tr"
      "peer_of (K tr (Accept (ss_listen_fd sv))) \<noteq> None" by (auto simp: accept_post_def)
    then show ?thesis using assms(4) Suc by (intro exI [of _ tr]) simp
  qed
  moreover have "r = Ret () \<and> drained (ss_listen_fd sv) (trace s) (trace s') \<or> r = Out_of_fuel"
  proof -
    have "open_fds (trace s) \<subseteq> open_fds (trace s1)" using assms(2) by simp
    then show ?thesis using assms(1) drained_back [OF _ _ assms(6,7)] by (auto simp: accept_post_def)
  qed
  ultimately show ?thesis unfolding accept_post_def by (intro conjI exI [of _ "new @ front"]) auto
qed

text \<open>Rules for the calls of the handlers, in terms of the registry and of what is watched.\<close>

lemma wp_add:
  assumes "malloc_fresh K" and "registry mgr cs s"
    and "\<And>s'. registry mgr cs s' \<Longrightarrow> mem_step {mgr, 0} s s' \<Longrightarrow> wp (f 0) Q s'"
    and "\<And>p s'. p \<noteq> 0 \<Longrightarrow> heap s p = None \<Longrightarrow> registry mgr ((p, new_client fd a) # cs) s' \<Longrightarrow> mem_step {mgr, p} s s' \<Longrightarrow>
      wp (f p) Q s'"
  shows "wp (bind_c (client_manager_add K mgr fd a) f) Q s"
proof -
  obtain r s' where run: "client_manager_add K mgr fd a s = (r, s')" by fastforce
  let ?p = "ptr_of (K (trace s) (Malloc SIZEOF_CLIENT_NODE))"
  have none: "heap s ?p = None" using heap_ok_fresh [OF assms(1) _ refl] assms(2) by (auto simp: registry_def)
  from wpD [OF add_refines [OF assms(1,2)] run]
  consider "r = Ret 0" "s' = s" | "r = Ret 0" "registry mgr cs s'" "mem_step {mgr, 0} s s'"
    | "r = Ret ?p" "?p \<noteq> 0" "registry mgr ((?p, new_client fd a) # cs) s'" "mem_step {mgr, ?p} s s'"
    by (auto simp: Let_def split: if_splits)
  then show ?thesis
  proof cases
    case 1
    have "mem_step {mgr, 0} s s" by (simp add: mem_step_def)
    with 1 run assms(2,3) show ?thesis by (simp add: wp_run)
  qed (use run assms(3,4) none in \<open>simp_all add: wp_run\<close>)
qed

lemma wp_remove:
  assumes "registry mgr cs s"
    and "\<And>s'. registry mgr (strike fd cs) s' \<Longrightarrow> mem_step (insert mgr (fst ` set cs)) s s' \<Longrightarrow> wp (f ()) Q s'"
  shows "wp (bind_c (client_manager_remove K mgr fd) f) Q s"
proof -
  obtain r s' where run: "client_manager_remove K mgr fd s = (r, s')" by fastforce
  from wpD [OF remove_refines [OF assms(1)] run] have "r = Ret ()" "registry mgr (strike fd cs) s'"
    "mem_step (insert mgr (fst ` set cs)) s s'" by (auto simp: removed_def)
  then show ?thesis using run assms(2) by (simp add: wp_run)
qed

text \<open>The events of taking \<open>fd\<close> out of epoll instance \<open>ep\<close>: the call, and a message when it fails.\<close>

definition removal :: "int \<Rightarrow> int \<Rightarrow> event list \<Rightarrow> bool" where
  "removal ep fd evs \<longleftrightarrow> (\<exists>d e. evs = Call (Epoll_del ep fd) d # (if int_of d = -1 then [Perror ''epoll_ctl: del'' e] else []))"

text \<open>What a call to the epoll wrapper leaves alone.\<close>

definition same_mem :: "'z mem_scheme \<Rightarrow> 'z mem_scheme \<Rightarrow> bool" where
  "same_mem s s' \<longleftrightarrow> heap s' = heap s \<and> open_fds (trace s') = open_fds (trace s) \<and>
     allocated (trace s') = allocated (trace s) \<and> nonblocking (trace s') = nonblocking (trace s) \<and>
     length (trace s) \<le> length (trace s') \<and> (\<forall>l. accepts l (trace s') = accepts l (trace s))"

lemma wp_poll_add:
  assumes "handler_on h ep s"
    and "\<And>s'. same_mem s s' \<Longrightarrow> watched ep (trace s') = (watched ep (trace s))(fd \<mapsto> p) \<Longrightarrow>
      \<exists>q. int_of q \<noteq> -1 \<and> trace s' = trace s @ [Call (Epoll_add ep fd p ev) q] \<Longrightarrow> wp (f 0) Q s'"
    and "\<And>s'. same_mem s s' \<Longrightarrow> watched ep (trace s') = watched ep (trace s) \<Longrightarrow> wp (f (-1)) Q s'"
  shows "wp (bind_c (epoll_handler_add K h fd p ev) f) Q s"
  unfolding epoll_handler_add_def flat_simps
  using assms by (intro wp_intros) (auto simp: handler_on_def same_mem_def)

lemma wp_poll_remove:
  assumes "handler_on h ep s"
    and "\<And>r s'. same_mem s s' \<Longrightarrow> \<forall>x. x \<noteq> fd \<longrightarrow> watched ep (trace s') x = watched ep (trace s) x \<Longrightarrow>
      \<exists>evs. trace s' = trace s @ evs \<and> removal ep fd evs \<Longrightarrow> wp (f r) Q s'"
  shows "wp (bind_c (epoll_handler_remove K h fd) f) Q s"
  unfolding epoll_handler_remove_def flat_simps
  using assms by (intro wp_intros) (auto simp: handler_on_def same_mem_def removal_def)

lemma server_apart:
  assumes "server_ok server sv ep cs s"
  shows "server \<noteq> ss_client_mgr sv" "ss_epoll sv \<noteq> ss_client_mgr sv" "server \<notin> fst ` set cs" "ss_epoll sv \<notin> fst ` set cs"
    "server \<noteq> 0" "ss_epoll sv \<noteq> 0" "ss_client_mgr sv \<noteq> 0" "server \<noteq> ss_epoll sv"
proof -
  from assms obtain h where o: "heap s server = Some (Server sv)" "server \<noteq> 0" "registry (ss_client_mgr sv) cs s"
    "heap s (ss_epoll sv) = Some (Handler h)" "ss_epoll sv \<noteq> 0"
    by (auto elim!: server_okE simp: handler_on_def)
  from o(3) obtain q where m: "ss_client_mgr sv \<noteq> 0" "heap s (ss_client_mgr sv) = Some (Manager q)" "\<exists>p. chain (heap s) p cs"
    by (auto elim!: registryE)
  show "server \<noteq> ss_client_mgr sv" "ss_epoll sv \<noteq> ss_client_mgr sv" "server \<noteq> 0" "ss_epoll sv \<noteq> 0"
    "ss_client_mgr sv \<noteq> 0" "server \<noteq> ss_epoll sv" using o m by auto
  show "server \<notin> fst ` set cs" "ss_epoll sv \<notin> fst ` set cs" using o m(3) seg_nodes by fastforce+
qed

lemma mem_step_handler: "mem_step A s s' \<Longrightarrow> h \<notin> A \<Longrightarrow> handler_on h ep s' \<longleftrightarrow> handler_on h ep s"
  by (simp add: mem_step_def handler_on_def)

text \<open>How the invariant is rebuilt after the registry changed.\<close>

lemma server_ok_registry:
  assumes "server_ok server sv ep cs s" and "heap s1 = heap s" and "mem_step A s1 s'"
    and "server \<notin> A" and "ss_epoll sv \<notin> A" and "registry (ss_client_mgr sv) cs' s'"
  shows "heap s' server = Some (Server sv)" and "handler_on (ss_epoll sv) ep s'" and "registry (ss_client_mgr sv) cs' s'"
proof -
  show "heap s' server = Some (Server sv)" using assms(1-4) by (auto simp: mem_step_def elim: server_okE)
  have "handler_on (ss_epoll sv) ep s1" using assms(1,2) by (auto simp: handler_on_def elim: server_okE)
  then show "handler_on (ss_epoll sv) ep s'" using mem_step_handler [OF assms(3,5)] by simp
qed (rule assms(6))

text \<open>A connection on the new descriptor \<open>fd\<close> was taken from \<open>l\<close> and nothing else happened to any descriptor's mode.\<close>

definition taken :: "int \<Rightarrow> int \<Rightarrow> 'z mem_scheme \<Rightarrow> 'z mem_scheme \<Rightarrow> bool" where
  "taken l fd s s' \<longleftrightarrow> fd \<notin> open_fds (trace s) \<and> accepts l (trace s) + 1 \<le> accepts l (trace s') \<and>
     length (trace s) \<le> length (trace s') \<and>
     (\<forall>x. x \<noteq> fd \<longrightarrow> (x \<in> nonblocking (trace s') \<longleftrightarrow> x \<in> nonblocking (trace s)))"

lemma taken_more:
  "taken l fd s s1 \<Longrightarrow> mem_step A s1 s' \<Longrightarrow> taken l fd s s'"
  "taken l fd s s1 \<Longrightarrow> same_mem s1 s' \<Longrightarrow> taken l fd s s'"
  "taken l fd s s1 \<Longrightarrow> quiet s1 s' \<Longrightarrow> taken l fd s s'"
  "taken l fd s s1 \<Longrightarrow> taken l fd s (s1\<lparr>trace := trace s1 @ [Eprint u]\<rparr>)"
  "taken l fd s s1 \<Longrightarrow> taken l fd s (after (Close fd) r s1)"
proof -
  assume t: "taken l fd s s1"
  show "taken l fd s s'" if "mem_step A s1 s'"
    using t mem_step_trace(3) [OF that] that by (auto simp: taken_def mem_step_def)
  show "taken l fd s s'" if "same_mem s1 s'" using t that by (auto simp: taken_def same_mem_def)
  show "taken l fd s s'" if "quiet s1 s'" using t that by (auto simp: taken_def quiet_def)
  show "taken l fd s (s1\<lparr>trace := trace s1 @ [Eprint u]\<rparr>)" "taken l fd s (after (Close fd) r s1)"
    using t by (auto simp: taken_def)
qed

text \<open>What the rest of the loop achieves, once a round is done.\<close>

abbreviation accepting :: "kernel \<Rightarrow> 'z mem_scheme user \<Rightarrow> nat \<Rightarrow> ptr \<Rightarrow> socket_server \<Rightarrow> int \<Rightarrow> bool" where
  "accepting K U n server sv ep \<equiv> (\<forall>cs s. server_ok server sv ep cs s \<longrightarrow>
     wp (handle_accept K U n server) (accept_post K n server sv ep cs s) s)"

lemma resume_wp:
  assumes "accepting K U n server sv ep" and "peer_of (K (trace s) (Accept (ss_listen_fd sv))) \<noteq> None"
    and "taken (ss_listen_fd sv) fd s s'" and "server_ok server sv ep (front @ cs) s'"
    and "open_fds (trace s') = set (client_fds front) \<union> open_fds (trace s)" and "set (client_fds front) \<inter> open_fds (trace s) = {}"
  shows "wp (handle_accept K U n server) (accept_post K (Suc n) server sv ep cs s) s'"
proof (rule wp_mono [OF assms(1) [rule_format, OF assms(4)]])
  fix r s''
  assume "accept_post K n server sv ep (front @ cs) s' r s''"
  then show "accept_post K (Suc n) server sv ep cs s r s''"
    by (rule accept_post_step) (use assms(2,3,5,6) in \<open>auto simp: taken_def\<close>)
qed

text \<open>The connection was given up: its descriptor is closed again and the registry is as it was.\<close>

lemma closed_wp:
  assumes "accepting K U n server sv ep" and "peer_of (K (trace s) (Accept (ss_listen_fd sv))) \<noteq> None"
    and "server_ok server sv ep cs s" and "taken (ss_listen_fd sv) fd s s'" and "heap s' server = Some (Server sv)"
    and "handler_on (ss_epoll sv) ep s'" and "registry (ss_client_mgr sv) cs s'" and "open_fds (trace s') = open_fds (trace s)"
    and "\<forall>x. x \<noteq> fd \<longrightarrow> watched ep (trace s') x = watched ep (trace s) x"
  shows "wp (handle_accept K U n server) (accept_post K (Suc n) server sv ep cs s) s'"
proof (rule resume_wp [OF assms(1,2,4), of "[]"])
  have "\<forall>x \<in> set (client_fds cs). x \<noteq> fd" using assms(3,4) by (auto simp: taken_def elim!: server_okE)
  then show "server_ok server sv ep ([] @ cs) s'"
    using assms(3-9) by (auto simp: server_ok_def taken_def)
qed (simp_all add: client_fds_def assms(8))

text \<open>The connection was registered and is watched.\<close>

lemma admitted:
  assumes ok: "server_ok server sv ep cs s" and pend: "pending fd s s2" "fd \<notin> open_fds (trace s)"
    and reg: "mem_step A s2 s3" "server \<notin> A" "ss_epoll sv \<notin> A" "registry (ss_client_mgr sv) ((p, new_client fd addr) # cs) s3"
    and s4: "same_mem s3 s4" "watched ep (trace s4) = (watched ep (trace s3))(fd \<mapsto> 0)"
  shows "server_ok server sv ep ([(p, new_client fd addr)] @ cs) s4" and "open_fds (trace s4) = insert fd (open_fds (trace s))"
proof -
  have hp: "heap s2 = heap s" using pend(1) by (simp add: pending_def)
  note o = server_ok_registry [OF ok hp reg]
  have "registry (ss_client_mgr sv) ((p, new_client fd addr) # cs) s4" "handler_on (ss_epoll sv) ep s4" "heap s4 server = Some (Server sv)"
    using s4(1) o registry_same [of s4 s3] handler_same [of s4 s3] by (simp_all add: same_mem_def)
  moreover have tr: "open_fds (trace s4) = insert fd (open_fds (trace s))" "watched ep (trace s4) = (watched ep (trace s))(fd \<mapsto> 0)"
    "nonblocking (trace s4) = insert fd (nonblocking (trace s))"
    using s4 mem_step_trace [OF reg(1)] pend(1) by (simp_all add: same_mem_def pending_def)
  ultimately show "server_ok server sv ep ([(p, new_client fd addr)] @ cs) s4"
    using ok pend(2) unfolding server_ok_def by (auto simp: client_fds_def new_client_def)
  show "open_fds (trace s4) = insert fd (open_fds (trace s))" by (rule tr)
qed

text \<open>Epoll refused the connection: it is struck from the registry and closed.\<close>

lemma refused_wp:
  assumes "accepting K U n server sv ep" and "peer_of (K (trace s) (Accept (ss_listen_fd sv))) \<noteq> None"
    and "server_ok server sv ep cs s" and "taken (ss_listen_fd sv) fd s s4" and "heap s4 server = Some (Server sv)"
    and "handler_on (ss_epoll sv) ep s4" and "registry (ss_client_mgr sv) ((p, new_client fd addr) # cs) s4"
    and "server \<noteq> p" and "ss_epoll sv \<noteq> p" and "open_fds (trace s4) = insert fd (open_fds (trace s))"
    and "watched ep (trace s4) = watched ep (trace s)"
  shows "wp (bind_c (client_manager_remove K (ss_client_mgr sv) fd) (\<lambda>_. bind_c (sys_ignore K (Close fd)) (\<lambda>_. handle_accept K U n server)))
    (accept_post K (Suc n) server sv ep cs s) s4"
proof (rule wp_remove [OF assms(7)])
  fix s5
  assume a: "registry (ss_client_mgr sv) (strike fd ((p, new_client fd addr) # cs)) s5"
    "mem_step (insert (ss_client_mgr sv) (fst ` set ((p, new_client fd addr) # cs))) s4 s5"
  have "registry (ss_client_mgr sv) cs s5" using a(1) by (simp add: on_fd_def new_client_def)
  moreover have "server \<notin> insert (ss_client_mgr sv) (fst ` set ((p, new_client fd addr) # cs))"
    "ss_epoll sv \<notin> insert (ss_client_mgr sv) (fst ` set ((p, new_client fd addr) # cs))"
    using server_apart [OF assms(3)] assms(8,9) by auto
  then have "heap s5 server = Some (Server sv)" "handler_on (ss_epoll sv) ep s5"
    using a(2) assms(5,6) mem_step_handler [OF a(2)] by (simp_all add: mem_step_def)
  moreover have "fd \<noteq> ep" "fd \<notin> open_fds (trace s)" using assms(3,4) by (auto simp: taken_def elim: server_okE)
  ultimately show "wp (bind_c (sys_ignore K (Close fd)) (\<lambda>_. handle_accept K U n server)) (accept_post K (Suc n) server sv ep cs s) s5"
    using mem_step_trace [OF a(2)] assms(10,11)
    by (intro wp_sys(3) closed_wp [where fd = fd, OF assms(1-3)] taken_more(5) taken_more(1) [OF assms(4) a(2)]) simp_all
qed

lemma admit_wp:
  fixes s :: "'z mem_scheme"
  assumes "malloc_fresh K" and "quiet_user U" and ok: "server_ok server sv ep cs s"
    and pend: "pending fd s s2" and new: "taken (ss_listen_fd sv) fd s s2"
    and some: "peer_of (K (trace s) (Accept (ss_listen_fd sv))) \<noteq> None" and IH: "accepting K U n server sv ep"
  shows "wp (bind_c (client_manager_add K (ss_client_mgr sv) fd addr) (\<lambda>client.
         if client = 0 then
           bind_c (eprint ''Too Many Clients'') (\<lambda>_. bind_c (sys_ignore K (Close fd)) (\<lambda>_. handle_accept K U n server))
         else
           bind_c (epoll_handler_add K (ss_epoll sv) fd 0 ev) (\<lambda>added.
           if added = -1 then
             bind_c (client_manager_remove K (ss_client_mgr sv) fd)
               (\<lambda>_. bind_c (sys_ignore K (Close fd)) (\<lambda>_. handle_accept K U n server))
           else
             bind_c (call_opt U g (Cb_connection client ud)) (\<lambda>_. handle_accept K U n server))))
    (accept_post K (Suc n) server sv ep cs s) s2" (is "wp (bind_c _ ?C) ?Q s2")
proof -
  let ?mgr = "ss_client_mgr sv"
  note ap = server_apart [OF ok]
  have hp: "heap s2 = heap s" "allocated (trace s2) = allocated (trace s)" using pend by (simp_all add: pending_def)
  have fd: "fd \<notin> open_fds (trace s)" "fd \<noteq> ep" using new ok by (auto simp: taken_def elim: server_okE)
  have reg: "registry ?mgr cs s2" using ok registry_same [OF hp] by (auto elim: server_okE)
  show ?thesis
  proof (rule wp_add [OF assms(1) reg])
    fix s3
    assume a: "registry ?mgr cs s3" "mem_step {?mgr, 0} s2 s3"
    have o: "heap s3 server = Some (Server sv)" "handler_on (ss_epoll sv) ep s3"
      using server_ok_registry [OF ok hp(1) a(2) _ _ a(1)] ap by simp_all
    have "taken (ss_listen_fd sv) fd s s3" using new a(2) by (rule taken_more)
    then show "wp (?C 0) ?Q s3"
      using o a(1) mem_step_trace [OF a(2)] pend fd unfolding if_P [OF refl]
      by (intro wp_intros, intro closed_wp [where fd = fd, OF IH some ok] taken_more(4,5)) (simp_all add: pending_def)
  next
    fix p s3
    assume a: "p \<noteq> 0" "heap s2 p = None" "registry ?mgr ((p, new_client fd addr) # cs) s3" "mem_step {?mgr, p} s2 s3"
    have np: "server \<noteq> p" "ss_epoll sv \<noteq> p" using a(2) hp(1) ok by (auto simp: handler_on_def elim!: server_okE)
    then have notin: "server \<notin> {?mgr, p}" "ss_epoll sv \<notin> {?mgr, p}" using ap by auto
    note o = server_ok_registry [OF ok hp(1) a(4) notin a(3)]
    have t3: "taken (ss_listen_fd sv) fd s s3" using new a(4) by (rule taken_more)
    show "wp (?C p) ?Q s3"
      unfolding if_not_P [OF a(1)]
    proof (rule wp_poll_add [OF o(2)])
      fix s4
      assume s4: "same_mem s3 s4" "watched ep (trace s4) = (watched ep (trace s3))(fd \<mapsto> 0)"
      note ad = admitted [OF ok pend fd(1) a(4) notin a(3) s4]
      have "wp (bind_c (call_opt U g (Cb_connection p ud)) (\<lambda>_. handle_accept K U n server)) ?Q s4"
      proof (rule call_opt_wp [OF assms(2)], rule resume_wp [OF IH some, of fd _ "[(p, new_client fd addr)]"])
        fix s' assume q: "quiet s4 s'"
        show "taken (ss_listen_fd sv) fd s s'" by (rule taken_more(3) [OF taken_more(2) [OF t3 s4(1)] q])
        show "server_ok server sv ep ([(p, new_client fd addr)] @ cs) s'" using ad(1) q by (simp only: server_quiet)
        show "open_fds (trace s') = set (client_fds [(p, new_client fd addr)]) \<union> open_fds (trace s)"
          using q ad(2) by (simp add: quiet_def client_fds_def new_client_def)
      qed (simp add: client_fds_def new_client_def fd(1))
      then show "wp (if (0::int) = -1 then bind_c (client_manager_remove K ?mgr fd)
               (\<lambda>_. bind_c (sys_ignore K (Close fd)) (\<lambda>_. handle_accept K U n server))
           else bind_c (call_opt U g (Cb_connection p ud)) (\<lambda>_. handle_accept K U n server)) ?Q s4" by simp
    next
      fix s4
      assume s4: "same_mem s3 s4" "watched ep (trace s4) = watched ep (trace s3)"
      have "heap s4 = heap s3" "allocated (trace s4) = allocated (trace s3)" using s4(1) by (simp_all add: same_mem_def)
      then have "wp (bind_c (client_manager_remove K ?mgr fd)
               (\<lambda>_. bind_c (sys_ignore K (Close fd)) (\<lambda>_. handle_accept K U n server))) ?Q s4"
        using o np s4 mem_step_trace [OF a(4)] pend registry_same [of s4 s3] handler_same [of s4 s3]
        by (intro refused_wp [OF IH some ok taken_more(2) [OF t3 s4(1)]]) (simp_all add: same_mem_def pending_def)
      then show "wp (if (-1::int) = -1 then bind_c (client_manager_remove K ?mgr fd)
               (\<lambda>_. bind_c (sys_ignore K (Close fd)) (\<lambda>_. handle_accept K U n server))
           else bind_c (call_opt U g (Cb_connection p ud)) (\<lambda>_. handle_accept K U n server)) ?Q s4" by simp
    qed
  qed
qed

lemma peer_of_Some: "peer_of r = Some (fd, a) \<longleftrightarrow> r = Peer fd a \<and> 0 \<le> fd"
  by (cases r) (auto split: if_splits)

lemma server_ok_upd:
  assumes "server_ok server sv ep cs s" and "heap s' = heap s" and "open_fds (trace s') = open_fds (trace s)"
    and "allocated (trace s') = allocated (trace s)" and "watched ep (trace s') = watched ep (trace s)"
    and "nonblocking (trace s') = nonblocking (trace s)"
  shows "server_ok server sv ep cs s'"
  using assms registry_same [OF assms(2,4)] handler_same [OF assms(2)] by (simp add: server_ok_def)

text \<open>Nothing was pending: the loop ends.\<close>

lemma accept_post_empty:
  assumes "server_ok server sv ep cs s" and "heap s' = heap s" and "trace s' = trace s @ Call (Accept (ss_listen_fd sv)) q # rest"
    and "peer_of q = None" and "open_fds (trace s') = open_fds (trace s)" and "allocated (trace s') = allocated (trace s)"
    and "watched ep (trace s') = watched ep (trace s)" and "nonblocking (trace s') = nonblocking (trace s)"
  shows "accept_post K (Suc n) server sv ep cs s (Ret ()) s'"
proof -
  have "drained (ss_listen_fd sv) (trace s) (trace s')" unfolding drained_def assms(3) using assms(4) by blast
  then show ?thesis using server_ok_upd [OF assms(1,2,5-8)]
    unfolding accept_post_def by (intro conjI exI [of _ "[]"] disjI1) (simp_all add: client_fds_def assms(5))
qed

lemma handle_accept_wp:
  fixes s :: "'z mem_scheme"
  assumes "malloc_fresh K" and "accept_fresh K" and "quiet_user U"
  shows "server_ok server sv ep cs s \<Longrightarrow> wp (handle_accept K U n server) (accept_post K n server sv ep cs s) s"
proof (induction n arbitrary: cs s)
  case 0
  then show ?case by (auto simp: accept_post_def client_fds_def intro!: wp_leaf exI [of _ "[]"])
next
  case (Suc n)
  let ?Q = "accept_post K (Suc n) server sv ep cs s"
  let ?l = "ss_listen_fd sv"
  have srv: "load the_server server s = (Ret sv, s)" using Suc.prems by (auto simp: run_simps elim: server_okE)
  have IH: "accepting K U n server sv ep" using Suc.IH by blast
  have again: "wp (handle_accept K U n server) ?Q s5"
    if "heap s5 = heap s" "open_fds (trace s5) = open_fds (trace s)" "allocated (trace s5) = allocated (trace s)"
      "\<forall>x. x \<noteq> fd \<longrightarrow> watched ep (trace s5) x = watched ep (trace s) x" "taken ?l fd s s5" "peer_of (K (trace s) (Accept ?l)) \<noteq> None" for s5 fd
    by (rule closed_wp [OF IH that(6) Suc.prems that(5) _ _ _ that(2,4)])
      (use Suc.prems that registry_same [OF that(1,3)] handler_same [OF that(1)] in \<open>auto elim: server_okE\<close>)
  show ?case
    unfolding handle_accept.simps tcp_socket_accept_def flat_simps
  proof (rule wp_run, rule srv, rule wp_sys(1))
    fix r
    assume r: "K (trace s) (Accept ?l) = r"
    show "wp (case case peer_of r of None \<Rightarrow> (-1, zero_sockaddr) | Some (fd, a) \<Rightarrow> (fd, a) of (client_fd, client_addr) \<Rightarrow>
       if client_fd = -1 then
         bind_c (get_c errno) (\<lambda>e. if e = EAGAIN then return_c () else perror ''accept'')
       else
         bind_c (tcp_socket_set_nonblocking K client_fd) (\<lambda>nb.
         if nb = -1 then bind_c (sys_ignore K (Close client_fd)) (\<lambda>_. handle_accept K U n server)
         else
           bind_c (client_manager_add K (ss_client_mgr sv) client_fd client_addr) (\<lambda>client.
           if client = 0 then
             bind_c (eprint ''Too Many Clients'') (\<lambda>_. bind_c (sys_ignore K (Close client_fd)) (\<lambda>_. handle_accept K U n server))
           else
             bind_c (epoll_handler_add K (ss_epoll sv) client_fd 0 (or EPOLLIN EPOLLET)) (\<lambda>added.
             if added = -1 then
               bind_c (client_manager_remove K (ss_client_mgr sv) client_fd)
                 (\<lambda>_. bind_c (sys_ignore K (Close client_fd)) (\<lambda>_. handle_accept K U n server))
             else
               bind_c (call_opt U (on_connection (ss_callbacks sv)) (Cb_connection client (ss_user_data sv)))
                 (\<lambda>_. handle_accept K U n server))))) ?Q (after (Accept ?l) r s)"
    proof (cases "peer_of r")
      case None
      then show ?thesis by simp (intro wp_intros accept_post_empty [OF Suc.prems, of _ r]; simp)
    next
      case (Some fa)
      then obtain fd a where fa: "fa = (fd, a)" "r = Peer fd a" "0 \<le> fd" by (cases fa) (simp add: peer_of_Some)
      have new: "fd \<notin> open_fds (trace s)" using assms(2) r fa(2) unfolding accept_fresh_def by blast
      have fdep: "fd \<noteq> ep" using new Suc.prems by (auto elim!: server_okE)
      have m1: "fd \<noteq> -1" using fa(3) by simp
      show ?thesis
        unfolding Some fa(1) option.case prod.case if_not_P [OF m1] tcp_socket_set_nonblocking_def flat_simps
        using new fa r fdep
        by (intro wp_intros again [of _ fd] admit_wp [OF assms(1,3) Suc.prems _ _ _ IH]) (auto simp: pending_def taken_def)
    qed
  qed
qed

section \<open>Receiving\<close>

lemma client_fds_strike: "client_fds (strike fd cs) = remove1 fd (client_fds cs)"
  by (induction cs) (auto simp: client_fds_def on_fd_def)

text \<open>The connection is closed, unwatched and struck from the registry.\<close>

lemma struck:
  assumes ok: "server_ok server sv ep cs s" and fd: "fd \<in> set (client_fds cs)" and "heap s1 = heap s"
    and step: "mem_step (insert (ss_client_mgr sv) (fst ` set cs)) s1 s'" and reg: "registry (ss_client_mgr sv) (strike fd cs) s'"
    and "open_fds (trace s1) = open_fds (trace s) - {fd}"
    and rest: "\<forall>x. x \<noteq> fd \<longrightarrow> watched ep (trace s1) x = watched ep (trace s) x \<and> (x \<in> nonblocking (trace s1) \<longleftrightarrow> x \<in> nonblocking (trace s))"
  shows "server_ok server sv ep (strike fd cs) s'" and "open_fds (trace s') = open_fds (trace s) - {fd}"
proof -
  note tr = mem_step_trace [OF step]
  show fds: "open_fds (trace s') = open_fds (trace s) - {fd}" using tr(1) assms(6) by simp
  have "server \<notin> insert (ss_client_mgr sv) (fst ` set cs)" "ss_epoll sv \<notin> insert (ss_client_mgr sv) (fst ` set cs)"
    using server_apart [OF ok] by auto
  note o = server_ok_registry [OF ok assms(3) step this reg]
  from ok have f: "distinct (client_fds cs)" "ss_listen_fd sv \<in> open_fds (trace s)" "ep \<in> open_fds (trace s)" "server \<noteq> 0"
    "\<forall>x \<in> set (client_fds cs). x \<in> open_fds (trace s) \<and> watched ep (trace s) x = Some 0 \<and>
      x \<in> nonblocking (trace s) \<and> x \<noteq> ss_listen_fd sv \<and> x \<noteq> ep"
    by (auto elim: server_okE)
  then show "server_ok server sv ep (strike fd cs) s'"
    using o fds fd rest tr(2,3) by (auto simp: server_ok_def client_fds_strike)
qed

lemma lookup_client:
  assumes "server_ok server sv ep cs s" and "fd \<in> set (client_fds cs)"
  shows "lookup fd cs \<noteq> 0"
proof -
  from assms(1) have "registry (ss_client_mgr sv) cs s" by (rule server_okE)
  then have "\<forall>c \<in> set cs. fst c \<noteq> 0" by (auto elim!: registryE dest!: seg_nodes)
  from lookup_0 [OF this, of fd] assms(2) show ?thesis by (auto simp: client_fds_def on_fd_def)
qed

text \<open>
  The end of a connection, event by event: from \<open>s\<close> the user's callback is called, then the
  descriptor is taken out of epoll, closed, and the registry's entry is freed.
\<close>

definition client_gone ::
    "'z mem_scheme user \<Rightarrow> socket_server \<Rightarrow> int \<Rightarrow> int \<Rightarrow> ptr \<Rightarrow> 'z mem_scheme \<Rightarrow> 'z mem_scheme \<Rightarrow> bool" where
  "client_gone U sv ep fd client s s' \<longleftrightarrow> (\<exists>s1 evs c m.
     call_opt U (on_disconnected (ss_callbacks sv)) (Cb_disconnected client (ss_user_data sv)) s = (Ret (), s1) \<and>
     removal ep fd evs \<and> trace s' = trace s1 @ evs @ [Call (Close fd) c, Call (Free client) m])"

lemma call_opt_quiet:
  assumes "quiet_user U"
  obtains s1 where "call_opt U g a s = (Ret (), s1)" and "quiet s s1"
proof (cases g)
  case None
  then show ?thesis using that [of s] by (simp add: call_opt_def run_simps quiet_refl)
next
  case (Some h)
  then show ?thesis using assms that by (auto simp: call_opt_def quiet_user_def)
qed

lemma drop_client_wp:
  fixes s :: "'z mem_scheme"
  assumes "quiet_user U" and ok: "server_ok server sv ep cs s" and fd: "fd \<in> set (client_fds cs)"
  shows "wp (drop_client K U server fd (lookup fd cs)) (\<lambda>r s'. r = Ret () \<and> server_ok server sv ep (strike fd cs) s' \<and>
    open_fds (trace s') = open_fds (trace s) - {fd} \<and> client_gone U sv ep fd (lookup fd cs) s s') s"
  unfolding drop_client_def flat_simps
proof (rule wp_run)
  show "load the_server server s = (Ret sv, s)" using ok by (auto simp: run_simps elim: server_okE)
  obtain s1 where call: "call_opt U (on_disconnected (ss_callbacks sv)) (Cb_disconnected (lookup fd cs) (ss_user_data sv)) s = (Ret (), s1)"
    and q: "quiet s s1" using call_opt_quiet [OF assms(1)] by blast
  show "wp (bind_c (call_opt U (on_disconnected (ss_callbacks sv)) (Cb_disconnected (lookup fd cs) (ss_user_data sv)))
     (\<lambda>_. bind_c (load the_server server) (\<lambda>sv. bind_c (epoll_handler_remove K (ss_epoll sv) fd)
       (\<lambda>_. bind_c (sys_ignore K (Close fd)) (\<lambda>_. client_manager_remove K (ss_client_mgr sv) fd)))))
    (\<lambda>r s'. r = Ret () \<and> server_ok server sv ep (strike fd cs) s' \<and> open_fds (trace s') = open_fds (trace s) - {fd} \<and>
      client_gone U sv ep fd (lookup fd cs) s s') s"
  proof (rule wp_run, rule call, rule wp_run, rule_tac [2] wp_poll_remove, rule_tac [3] wp_sys(3))
    have ok1: "server_ok server sv ep cs s1" using ok q by (simp only: server_quiet)
    then show "load the_server server s1 = (Ret sv, s1)" "handler_on (ss_epoll sv) ep s1"
      by (auto simp: run_simps elim: server_okE)
    fix r and s2 :: "'z mem_scheme" and r'
    assume s2: "same_mem s1 s2" "\<forall>x. x \<noteq> fd \<longrightarrow> watched ep (trace s2) x = watched ep (trace s1) x"
      "\<exists>evs. trace s2 = trace s1 @ evs \<and> removal ep fd evs"
    let ?s3 = "after (Close fd) r' s2"
    have "fd \<noteq> ep" using ok fd by (auto elim: server_okE)
    then have s3: "heap ?s3 = heap s1" "open_fds (trace ?s3) = open_fds (trace s1) - {fd}"
      "\<forall>x. x \<noteq> fd \<longrightarrow> watched ep (trace ?s3) x = watched ep (trace s1) x \<and> (x \<in> nonblocking (trace ?s3) \<longleftrightarrow> x \<in> nonblocking (trace s1))"
      using s2 by (auto simp: same_mem_def)
    have reg: "registry (ss_client_mgr sv) cs ?s3"
      using ok1 s2(1) registry_same [of ?s3 s1] by (auto simp: same_mem_def elim: server_okE)
    show "wp (client_manager_remove K (ss_client_mgr sv) fd)
      (\<lambda>r s'. r = Ret () \<and> server_ok server sv ep (strike fd cs) s' \<and> open_fds (trace s') = open_fds (trace s) - {fd} \<and>
        client_gone U sv ep fd (lookup fd cs) s s') ?s3"
    proof (rule wp_mono [OF remove_refines [OF reg]])
      fix r and s' :: "'z mem_scheme"
      assume a: "r = Ret () \<and> removed (ss_client_mgr sv) fd [] cs ?s3 s'"
      then have st: "mem_step (insert (ss_client_mgr sv) (fst ` set cs)) ?s3 s'" "registry (ss_client_mgr sv) (strike fd cs) s'"
        "\<exists>m. trace s' = trace ?s3 @ [Call (Free (lookup fd cs)) m]"
        using lookup_client [OF ok fd] by (auto simp: removed_def)
      then have "client_gone U sv ep fd (lookup fd cs) s s'"
        using call s2(3) unfolding client_gone_def by fastforce
      then show "r = Ret () \<and> server_ok server sv ep (strike fd cs) s' \<and> open_fds (trace s') = open_fds (trace s) - {fd} \<and>
        client_gone U sv ep fd (lookup fd cs) s s'"
        using struck [OF ok1 fd s3(1) st(1,2) s3(2,3)] a q by (simp add: quiet_def)
    qed
  qed
qed

text \<open>\<open>recv\<close> gives at most as many bytes as it was asked for.\<close>

definition recv_fits :: "kernel \<Rightarrow> bool" where
  "recv_fits K \<longleftrightarrow> (\<forall>tr fd n f b. K tr (Recv fd n f) = Bytes b \<longrightarrow> length b \<le> n)"

text \<open>
  How serving a client ends, after a last \<open>recv\<close> with the answer \<open>q\<close>: the client stays as it is
  when nothing more was there to read, and is gone at end of file or on an error.
\<close>

definition receive_post ::
    "'z mem_scheme user \<Rightarrow> ptr \<Rightarrow> socket_server \<Rightarrow> int \<Rightarrow> client list \<Rightarrow> int \<Rightarrow> 'z mem_scheme \<Rightarrow> unit outcome \<Rightarrow>
     'z mem_scheme \<Rightarrow> bool" where
  "receive_post U server sv ep cs fd s r s' \<longleftrightarrow>
     r = Out_of_fuel \<and> server_ok server sv ep cs s' \<and> open_fds (trace s') = open_fds (trace s) \<or>
     r = Ret () \<and> (\<exists>tr q. length (trace s) \<le> length tr \<and>
       (bytes_of q = None \<and> (\<forall>e. q = Err e \<longrightarrow> e = EAGAIN) \<and> trace s' = tr @ [Call (Recv fd BUFFER_SIZE No_flag) q] \<and>
          server_ok server sv ep cs s' \<and> open_fds (trace s') = open_fds (trace s) \<or>
        (\<exists>s1 evs. (q = Bytes [] \<and> evs = [] \<or> bytes_of q = None \<and> q \<noteq> Err EAGAIN \<and> evs = [Perror ''recv'' (errno s1)]) \<and>
          trace s1 = tr @ Call (Recv fd BUFFER_SIZE No_flag) q # evs \<and> client_gone U sv ep fd (lookup fd cs) s1 s' \<and>
          server_ok server sv ep (strike fd cs) s' \<and> open_fds (trace s') = open_fds (trace s) - {fd})))"

lemma receive_post_back:
  assumes "receive_post U server sv ep cs fd s1 r s'" and "open_fds (trace s1) = open_fds (trace s)"
    and "length (trace s) \<le> length (trace s1)"
  shows "receive_post U server sv ep cs fd s r s'"
  using assms(1) le_trans [OF assms(3)] unfolding receive_post_def assms(2) by blast

lemma receive_post_stays:
  assumes "server_ok server sv ep cs s'" and "open_fds (trace s') = open_fds (trace s)"
    and "trace s' = trace s @ [Call (Recv fd BUFFER_SIZE No_flag) q]" and "bytes_of q = None" and "err_of q (errno s) = EAGAIN"
  shows "receive_post U server sv ep cs fd s (Ret ()) s'"
proof -
  have "\<forall>e. q = Err e \<longrightarrow> e = EAGAIN" using assms(5) by (auto simp: err_of_def)
  then show ?thesis unfolding receive_post_def
    by (rule_tac disjI2, rule_tac conjI [OF refl], rule_tac exI [of _ "trace s"], rule_tac exI [of _ q],
        rule_tac conjI [OF le_refl], rule_tac disjI1) (use assms in simp)
qed

lemma receive_post_gone:
  assumes "quiet_user U" and "server_ok server sv ep cs s1" and "fd \<in> set (client_fds cs)"
    and "open_fds (trace s1) = open_fds (trace s)" and "trace s1 = trace s @ Call (Recv fd BUFFER_SIZE No_flag) q # evs"
    and "q = Bytes [] \<and> evs = [] \<or> bytes_of q = None \<and> q \<noteq> Err EAGAIN \<and> evs = [Perror ''recv'' (errno s1)]"
  shows "wp (drop_client K U server fd (lookup fd cs)) (receive_post U server sv ep cs fd s) s1"
proof (rule wp_mono [OF drop_client_wp [OF assms(1-3)]])
  fix r s'
  assume "r = Ret () \<and> server_ok server sv ep (strike fd cs) s' \<and> open_fds (trace s') = open_fds (trace s1) - {fd} \<and>
    client_gone U sv ep fd (lookup fd cs) s1 s'"
  then show "receive_post U server sv ep cs fd s r s'"
    using assms(4-6) unfolding receive_post_def by (metis le_refl)
qed

lemma receive_loop_wp:
  fixes s :: "'z mem_scheme"
  assumes "quiet_user U" and "recv_fits K" and "fd \<in> set (client_fds cs)"
  shows "server_ok server sv ep cs s \<Longrightarrow>
    wp (receive_loop K U n server fd (lookup fd cs)) (receive_post U server sv ep cs fd s) s"
proof (induction n arbitrary: s)
  case 0
  then show ?case by (simp add: wp_leaf receive_post_def)
next
  case (Suc n)
  let ?cl = "lookup fd cs"
  have upd: "server_ok server sv ep cs s1" if "heap s1 = heap s" "open_fds (trace s1) = open_fds (trace s)"
    "allocated (trace s1) = allocated (trace s)" "watched ep (trace s1) = watched ep (trace s)"
    "nonblocking (trace s1) = nonblocking (trace s)" for s1
    by (rule server_ok_upd [OF Suc.prems that])
  have fit: "length b \<le> BUFFER_SIZE" if "K (trace s) (Recv fd BUFFER_SIZE No_flag) = r" "bytes_of r = Some b" for r b
    using that assms(2) unfolding recv_fits_def bytes_of_Some by blast
  have got: "wp (bind_c (load the_server server) (\<lambda>sv. bind_c (call_opt U (on_received (ss_callbacks sv))
      (Cb_received ?cl b (length b) (ss_user_data sv))) (\<lambda>_. receive_loop K U n server fd ?cl)))
      (receive_post U server sv ep cs fd s) s1"
    if "server_ok server sv ep cs s1" "open_fds (trace s1) = open_fds (trace s)" "length (trace s) \<le> length (trace s1)" for s1 b
  proof (rule wp_run)
    show "load the_server server s1 = (Ret sv, s1)" using that(1) by (auto simp: run_simps elim: server_okE)
    show "wp (bind_c (call_opt U (on_received (ss_callbacks sv)) (Cb_received ?cl b (length b) (ss_user_data sv)))
      (\<lambda>_. receive_loop K U n server fd ?cl)) (receive_post U server sv ep cs fd s) s1"
    proof (rule call_opt_wp [OF assms(1)])
      fix s2 assume q: "quiet s1 s2"
      have "server_ok server sv ep cs s2" using that(1) q by (simp only: server_quiet)
      from Suc.IH [OF this] show "wp (receive_loop K U n server fd ?cl) (receive_post U server sv ep cs fd s) s2"
        by (rule wp_mono, erule_tac receive_post_back) (use that(2,3) q in \<open>auto simp: quiet_def\<close>)
    qed
  qed
  show ?case
    unfolding receive_loop.simps flat_simps
  proof (rule wp_sys(1))
    fix q
    assume q: "K (trace s) (Recv fd BUFFER_SIZE No_flag) = q"
    let ?s1 = "after (Recv fd BUFFER_SIZE No_flag) q s"
    have s1: "server_ok server sv ep cs ?s1" by (rule upd) simp_all
    show "wp (case bytes_of q of
       None \<Rightarrow> bind_c (get_c errno) (\<lambda>e. if e = EAGAIN then return_c ()
         else bind_c (perror ''recv'') (\<lambda>_. drop_client K U server fd ?cl))
     | Some b \<Rightarrow> if b = [] then drop_client K U server fd ?cl
         else bind_c (require_c Out_of_bounds (if length b \<le> BUFFER_SIZE then Some () else None)) (\<lambda>_.
           bind_c (load the_server server) (\<lambda>sv.
           bind_c (call_opt U (on_received (ss_callbacks sv)) (Cb_received ?cl b (length b) (ss_user_data sv)))
             (\<lambda>_. receive_loop K U n server fd ?cl)))) (receive_post U server sv ep cs fd s) ?s1"
    proof (cases "bytes_of q")
      case None
      let ?s2 = "?s1\<lparr>trace := trace ?s1 @ [Perror ''recv'' (errno ?s1)]\<rparr>"
      have s2: "server_ok server sv ep cs ?s2" by (rule upd) simp_all
      show ?thesis
      proof (cases "err_of q (errno s) = EAGAIN")
        case True
        then have "receive_post U server sv ep cs fd s (Ret ()) ?s1"
          using None by (intro receive_post_stays [OF s1, where q = q]) simp_all
        then show ?thesis using True unfolding None option.case by (intro wp_intros) simp_all
      next
        case False
        then have "q \<noteq> Err EAGAIN" by (auto simp: err_of_def)
        then have "wp (drop_client K U server fd ?cl) (receive_post U server sv ep cs fd s) ?s2"
          using None
          by (intro receive_post_gone [OF assms(1) s2 assms(3), where q = q and evs = "[Perror ''recv'' (errno ?s1)]"] disjI2) simp_all
        then show ?thesis using False unfolding None option.case by (intro wp_intros) simp_all
      qed
    next
      case (Some b)
      show ?thesis
      proof (cases "b = []")
        case True
        then have "q = Bytes []" using Some by (simp add: bytes_of_Some)
        then have "wp (drop_client K U server fd ?cl) (receive_post U server sv ep cs fd s) ?s1"
          by (intro receive_post_gone [OF assms(1) s1 assms(3), where q = q]) simp_all
        then show ?thesis using Some True by simp
      next
        case False
        have "wp (bind_c (load the_server server) (\<lambda>sv. bind_c (call_opt U (on_received (ss_callbacks sv))
            (Cb_received ?cl b (length b) (ss_user_data sv))) (\<lambda>_. receive_loop K U n server fd ?cl)))
            (receive_post U server sv ep cs fd s) ?s1"
          by (rule got [OF s1]) simp_all
        then show ?thesis
          unfolding Some option.case if_not_P [OF False] if_P [OF fit [OF q Some]] by (intro wp_require(2)) simp_all
      qed
    qed
  qed
qed

text \<open>An event on a descriptor that is no client's does nothing; otherwise the client is found.\<close>

lemma handle_client_run:
  assumes "server_ok server sv ep cs s"
  shows "handle_client K U n server fd s =
    (if fd \<in> set (client_fds cs) then receive_loop K U n server fd (lookup fd cs) s else (Ret (), s))"
proof -
  from assms have o: "load the_server server s = (Ret sv, s)" "registry (ss_client_mgr sv) cs s"
    by (auto simp: run_simps elim: server_okE)
  from o(2) have "\<forall>c \<in> set cs. fst c \<noteq> 0" by (auto elim!: registryE dest!: seg_nodes)
  from lookup_0 [OF this, of fd] have "lookup fd cs = 0 \<longleftrightarrow> fd \<notin> set (client_fds cs)"
    by (auto simp: client_fds_def on_fd_def)
  then show ?thesis using o(1) find_refines [OF o(2), of fd] by (simp add: handle_client_def run_simps)
qed

lemma handle_client_wp:
  fixes s :: "'z mem_scheme"
  assumes "quiet_user U" and "recv_fits K" and "server_ok server sv ep cs s"
  shows "wp (handle_client K U n server fd) (\<lambda>r s'.
    if fd \<in> set (client_fds cs) then receive_post U server sv ep cs fd s r s' else r = Ret () \<and> s' = s) s"
  unfolding wp_def handle_client_run [OF assms(3)]
  using receive_loop_wp [OF assms(1,2) _ assms(3)] by (simp add: wp_def)

text \<open>
  A user whose \<open>on_received\<close> writes down what it is given and whose other callbacks do nothing:
  it makes visible what is delivered.
\<close>

primrec recorded :: "cb_args \<Rightarrow> ('z os_scheme, unit) prog" where
  "recorded (Cb_start ud) = return_c ()"
| "recorded (Cb_stop ud) = return_c ()"
| "recorded (Cb_connection c ud) = return_c ()"
| "recorded (Cb_disconnected c ud) = return_c ()"
| "recorded (Cb_received c b n ud) = log_call LOG_DEBUG ''received'' [Int_arg (int c), Str_arg b, Int_arg (int n)]"

definition recorder :: "'z mem_scheme user" where
  "recorder g a = recorded a"

fun chunks :: "int \<Rightarrow> event list \<Rightarrow> char list list" where
  "chunks fd [] = []"
| "chunks fd (Call (Recv f n fl) (Bytes b) # tr) = (if f = fd \<and> b \<noteq> [] then b # chunks fd tr else chunks fd tr)"
| "chunks fd (ev # tr) = chunks fd tr"

text \<open>What a user makes of its calls: the client and \<open>n\<close> bytes; with \<open>n\<close> beyond the bytes it is given it gets nothing.\<close>

fun delivered :: "event list \<Rightarrow> (ptr \<times> char list) list" where
  "delivered [] = []"
| "delivered (Logged l t [Int_arg c, Str_arg b, Int_arg n] # tr) =
     (if t = ''received'' \<and> n \<le> int (length b) then (nat c, take (nat n) b) # delivered tr else delivered tr)"
| "delivered (ev # tr) = delivered tr"

lemma chunks_append [simp]: "chunks fd (tr @ tr') = chunks fd tr @ chunks fd tr'"
  by (induction fd tr rule: chunks.induct) auto

lemma delivered_append [simp]: "delivered (tr @ tr') = delivered tr @ delivered tr'"
  by (induction tr rule: delivered.induct) auto

lemma recorder_quiet: "quiet_user recorder"
proof -
  have "\<exists>s'. recorded a s = (Ret (), s') \<and> quiet s s'" for a and s :: "'a mem_scheme"
    by (cases a) (simp_all add: run_simps quiet_def)
  then show ?thesis by (simp add: quiet_user_def recorder_def)
qed

section \<open>Properties of the event handlers\<close>

text \<open>
  C9. Accepting keeps the books. However many connections are pending and whatever fails on
  the way (non-blocking mode, the client limit, memory, epoll), \<open>handle_accept\<close> never faults;
  afterwards exactly the new clients it admitted are registered, open, watched and in non-blocking mode, and no
  descriptor it accepted is left open without being registered. (The user's callbacks keep their
  hands off descriptors and memory; \<open>accept\<close> and \<open>malloc\<close> answer fresh ones.)
\<close>

theorem handle_accept_accounting:
  fixes s :: "'z mem_scheme"
  assumes "malloc_fresh K" and "accept_fresh K" and "quiet_user U" and "server_ok server sv ep cs s"
    and "handle_accept K U n server s = (r, s')"
  shows "(r = Ret () \<or> r = Out_of_fuel) \<and>
    (\<exists>new. server_ok server sv ep (new @ cs) s' \<and>
       open_fds (trace s') = set (client_fds new) \<union> open_fds (trace s) \<and>
       set (client_fds new) \<inter> open_fds (trace s) = {})"
  using wpD [OF handle_accept_wp [OF assms(1-4)] assms(5)] by (auto simp: accept_post_def)

text \<open>
  C13. Accepting ends: once \<open>N\<close> connections have been taken and no further one is pending,
  \<open>handle_accept\<close> returns to the event loop, within \<open>N + 1\<close> rounds.
\<close>

theorem handle_accept_ends:
  fixes s :: "'z mem_scheme"
  assumes "malloc_fresh K" and "accept_fresh K" and "quiet_user U" and "server_ok server sv ep cs s"
    and "\<forall>tr. accepts (ss_listen_fd sv) (trace s) + N \<le> accepts (ss_listen_fd sv) tr \<longrightarrow>
      peer_of (K tr (Accept (ss_listen_fd sv))) = None"
  shows "\<exists>s'. handle_accept K U (Suc N) server s = (Ret (), s')"
proof -
  obtain r s' where run: "handle_accept K U (Suc N) server s = (r, s')" by fastforce
  have "r \<noteq> Out_of_fuel"
    using wpD [OF handle_accept_wp [OF assms(1-4)] run] assms(5) by (auto simp: accept_post_def)
  then show ?thesis using wpD [OF handle_accept_wp [OF assms(1-4)] run] run by (auto simp: accept_post_def)
qed

text \<open>
  C10. Serving a client keeps the books. An event on a descriptor that is not a client's does
  nothing at all. Otherwise the call receives until its last \<open>recv\<close>, with answer \<open>q\<close>. When nothing more
  was there (\<open>EAGAIN\<close>), this is the last event and the client stays registered, open and watched. At end
  of file or on any other error (reported first), exactly this follows: \<open>on_disconnected\<close> is called with
  the client, the descriptor is taken out of epoll (with a message should that fail), closed, and the registry's
  entry is freed; then the client is struck from the registry, its descriptor and no other is closed, and
  unless epoll refused it is not watched. The call never faults. (The user's callbacks keep their hands
  off descriptors and memory, and \<open>recv\<close> gives no more than it was asked for.)
\<close>

theorem handle_client_accounting:
  fixes s :: "'z mem_scheme"
  assumes "quiet_user U" and "recv_fits K" and "server_ok server sv ep cs s"
    and "handle_client K U n server fd s = (r, s')"
  shows "if fd \<notin> set (client_fds cs) then r = Ret () \<and> s' = s
    else r = Out_of_fuel \<and> server_ok server sv ep cs s' \<and> open_fds (trace s') = open_fds (trace s) \<or>
      r = Ret () \<and> (\<exists>tr q. length (trace s) \<le> length tr \<and>
        (bytes_of q = None \<and> (\<forall>e. q = Err e \<longrightarrow> e = EAGAIN) \<and> trace s' = tr @ [Call (Recv fd BUFFER_SIZE No_flag) q] \<and>
           server_ok server sv ep cs s' \<and> open_fds (trace s') = open_fds (trace s) \<or>
         (\<exists>s1 evs s2 d e c m.
           (q = Bytes [] \<and> evs = [] \<or> bytes_of q = None \<and> q \<noteq> Err EAGAIN \<and> evs = [Perror ''recv'' (errno s1)]) \<and>
           trace s1 = tr @ Call (Recv fd BUFFER_SIZE No_flag) q # evs \<and>
           call_opt U (on_disconnected (ss_callbacks sv)) (Cb_disconnected (lookup fd cs) (ss_user_data sv)) s1 = (Ret (), s2) \<and>
           trace s' = trace s2 @ Call (Epoll_del ep fd) d # (if int_of d = -1 then [Perror ''epoll_ctl: del'' e] else []) @
             [Call (Close fd) c, Call (Free (lookup fd cs)) m] \<and>
           server_ok server sv ep (strike fd cs) s' \<and> fd \<notin> set (client_fds (strike fd cs)) \<and>
           open_fds (trace s') = open_fds (trace s) - {fd} \<and> (int_of d = -1 \<or> watched ep (trace s') fd = None))))"
proof (cases "fd \<in> set (client_fds cs)")
  case False
  then show ?thesis using wpD [OF handle_client_wp [OF assms(1-3)] assms(4)] by simp
next
  case True
  have "distinct (client_fds cs)" using assms(3) by (rule server_okE)
  then have fd: "fd \<notin> set (client_fds (strike fd cs))" by (simp add: client_fds_strike)
  from wpD [OF handle_client_wp [OF assms(1-3)] assms(4)] True
  have "receive_post U server sv ep cs fd s r s'" by simp
  then consider (fuel) "r = Out_of_fuel" "server_ok server sv ep cs s'" "open_fds (trace s') = open_fds (trace s)"
    | (stays) tr q where "r = Ret ()" "length (trace s) \<le> length tr" "bytes_of q = None" "\<forall>e. q = Err e \<longrightarrow> e = EAGAIN"
      "trace s' = tr @ [Call (Recv fd BUFFER_SIZE No_flag) q]" "server_ok server sv ep cs s'" "open_fds (trace s') = open_fds (trace s)"
    | (gone) tr q s1 evs where "r = Ret ()" "length (trace s) \<le> length tr"
      "q = Bytes [] \<and> evs = [] \<or> bytes_of q = None \<and> q \<noteq> Err EAGAIN \<and> evs = [Perror ''recv'' (errno s1)]"
      "trace s1 = tr @ Call (Recv fd BUFFER_SIZE No_flag) q # evs" "client_gone U sv ep fd (lookup fd cs) s1 s'"
      "server_ok server sv ep (strike fd cs) s'" "open_fds (trace s') = open_fds (trace s) - {fd}"
    unfolding receive_post_def by blast
  then show ?thesis
  proof cases
    case fuel
    then show ?thesis using True by simp
  next
    case stays
    then show ?thesis using True by (simp only: not_not if_False simp_thms) blast
  next
    case gone
    from gone(5) obtain s2 d e c m where s2:
      "call_opt U (on_disconnected (ss_callbacks sv)) (Cb_disconnected (lookup fd cs) (ss_user_data sv)) s1 = (Ret (), s2)"
      "trace s' = trace s2 @ Call (Epoll_del ep fd) d # (if int_of d = -1 then [Perror ''epoll_ctl: del'' e] else []) @
         [Call (Close fd) c, Call (Free (lookup fd cs)) m]"
      by (auto simp: client_gone_def removal_def)
    have "int_of d = -1 \<or> watched ep (trace s') fd = None" unfolding s2(2) by simp
    then show ?thesis using True gone s2 fd by (simp only: not_not if_False simp_thms) blast
  qed
qed

section \<open>Concrete runs\<close>

definition sample_server :: socket_server where
  "sample_server = zero_server\<lparr>ss_listen_fd := 3, ss_epoll := 200, ss_client_mgr := 300, ss_running := 1,
     ss_callbacks := no_callbacks\<lparr>on_received := Some 1\<rparr>\<rparr>"

definition sample_client :: client where
  "sample_client = (400, new_client 5 any_addr)"

text \<open>A server at 100 with epoll descriptor 4 and one client on descriptor 5.\<close>

definition server_mem :: mem where
  "server_mem = \<lparr>trace = [Call (Malloc 96) (Val 100), Call Socket (Val 3), Call (Malloc 772) (Val 200),
       Call Epoll_create (Val 4), Call (Malloc 16) (Val 300), Call (Epoll_add 4 3 0 EPOLLIN) (Val 0),
       Call (Accept 3) (Peer 5 any_addr), Call (Fcntl_getfl 5) (Val 2), Call (Fcntl_setfl 5 (or 2 O_NONBLOCK)) (Val 0), Call (Malloc 40) (Val 400), Call (Epoll_add 4 5 0 EPOLLIN) (Val 0)],
     errno = 0,
     heap = [100 \<mapsto> Server sample_server, 200 \<mapsto> Handler \<lparr>eh_epoll_fd = 4, eh_events = replicate EPOLL_MAX_EVENTS (0, 0)\<rparr>,
       300 \<mapsto> Manager \<lparr>cm_clients = 400, cm_count = 1\<rparr>, 400 \<mapsto> Node \<lparr>cn_info = new_client 5 any_addr, cn_next = 0\<rparr>]\<rparr>"

lemma server_mem_ok: "server_ok 100 sample_server 4 [sample_client] server_mem"
proof -
  have "open_fds (trace server_mem) = {3, 4, 5}" "allocated (trace server_mem) = {100, 200, 300, 400}"
    "watched 4 (trace server_mem) 5 = Some 0" "5 \<in> nonblocking (trace server_mem)"
    by (auto simp: server_mem_def nonblocking_def open_fds_def allocated_def watched_def ptr_of_def any_addr_def)
  then show ?thesis
    unfolding server_ok_def registry_def heap_ok_def
    by (auto simp: server_mem_def sample_server_def zero_server_def handler_on_def sample_client_def
        client_fds_def new_client_def CLIENT_MAX_CLIENTS_def)
qed

text \<open>An environment with one pending connection, and one in which a client says hello and goes.\<close>

definition one_pending :: kernel where
  "one_pending tr c =
     (case c of Accept l \<Rightarrow> (if accepts l tr \<le> 1 then Peer (fresh_fd tr) any_addr else Err EAGAIN) | _ \<Rightarrow> sample_kernel tr c)"

definition hello_client :: kernel where
  "hello_client tr c =
     (case c of Recv fd n f \<Rightarrow> (if chunks fd tr = [] then Bytes (take n ''hello'') else Bytes []) | _ \<Rightarrow> sample_kernel tr c)"

lemma one_pending_fresh: "malloc_fresh one_pending" "accept_fresh one_pending"
proof -
  show "malloc_fresh one_pending"
    using sample_malloc_fresh by (simp add: malloc_fresh_def one_pending_def)
  show "accept_fresh one_pending"
    using fresh_fd(1) by (auto simp: accept_fresh_def one_pending_def)
qed

lemma hello_client_fits: "recv_fits hello_client"
  by (auto simp: recv_fits_def hello_client_def)

lemma no_more: "\<forall>tr. accepts 3 (trace server_mem) + 1 \<le> accepts 3 tr \<longrightarrow> peer_of (one_pending tr (Accept 3)) = None"
  by (auto simp: one_pending_def server_mem_def)

theorem handle_accept_accounting_witness:
  "\<exists>s' new. (handle_accept one_pending recorder 2 100 server_mem = (Ret (), s') \<or>
       handle_accept one_pending recorder 2 100 server_mem = (Out_of_fuel, s')) \<and>
     server_ok 100 sample_server 4 (new @ [sample_client]) s'"
proof -
  obtain r s' where run: "handle_accept one_pending recorder 2 100 server_mem = (r, s')" by fastforce
  from handle_accept_accounting [OF one_pending_fresh recorder_quiet server_mem_ok run] run show ?thesis by blast
qed

theorem handle_accept_ends_witness:
  "\<exists>s'. handle_accept one_pending recorder (Suc 1) 100 server_mem = (Ret (), s')"
proof -
  have "ss_listen_fd sample_server = 3" by (simp add: sample_server_def)
  with handle_accept_ends [OF one_pending_fresh recorder_quiet server_mem_ok] no_more show ?thesis by simp
qed

text \<open>The client of \<open>server_mem\<close> says hello and goes: it is gone.\<close>

theorem handle_client_accounting_witness:
  "\<exists>s' tr d err c m. handle_client hello_client recorder 2 100 5 server_mem = (Ret (), s') \<and>
     trace s' = tr @ Call (Epoll_del 4 5) d # err @ [Call (Close 5) c, Call (Free 400) m] \<and>
     server_ok 100 sample_server 4 [] s' \<and> open_fds (trace s') = {3, 4}"
proof -
  have fd: "5 \<in> set (client_fds [sample_client])" and cl: "lookup 5 [sample_client] = 400" and st: "strike 5 [sample_client] = []"
    by (simp_all add: client_fds_def sample_client_def new_client_def on_fd_def)
  have sv: "on_received (ss_callbacks sample_server) = Some 1" by (simp add: sample_server_def no_callbacks_def)
  have load: "load the_server 100 s = (Ret sample_server, s)" if "heap s = heap server_mem" for s :: mem
    using that by (simp add: run_simps server_mem_def)
  define s1 where "s1 = server_mem\<lparr>trace := trace server_mem @ [Call (Recv 5 BUFFER_SIZE No_flag) (Bytes ''hello''),
    Logged LOG_DEBUG ''received'' [Int_arg 400, Str_arg ''hello'', Int_arg 5], Call (Recv 5 BUFFER_SIZE No_flag) (Bytes [])]\<rparr>"
  have "chunks 5 (trace server_mem) = []" by (simp add: server_mem_def)
  then have hc: "handle_client hello_client recorder 2 100 5 server_mem = drop_client hello_client recorder 100 5 400 s1"
    using fd cl load [of server_mem]
    by (simp add: handle_client_run [OF server_mem_ok] run_simps hello_client_def BUFFER_SIZE_def load sv numeral_2_eq_2 call_opt_def
        recorder_def err_of_def s1_def)
  have s1: "server_ok 100 sample_server 4 [sample_client] s1"
    unfolding s1_def by (rule server_ok_upd [OF server_mem_ok]) simp_all
  obtain r s' where run: "handle_client hello_client recorder 2 100 5 server_mem = (r, s')" by fastforce
  from wpD [OF drop_client_wp [OF recorder_quiet s1 fd]] run hc cl have r: "r = Ret ()"
    and "client_gone recorder sample_server 4 5 400 s1 s'" by simp_all
  then have last: "trace s' \<noteq> tr @ [Call (Recv 5 BUFFER_SIZE No_flag) q]" for tr q by (auto simp: client_gone_def)
  have fds: "open_fds (trace server_mem) - {5} = {3, 4}"
    by (auto simp: server_mem_def open_fds_def any_addr_def)
  have "\<exists>tr d err c m. trace s' = tr @ Call (Epoll_del 4 5) d # err @ [Call (Close 5) c, Call (Free 400) m] \<and>
     server_ok 100 sample_server 4 [] s' \<and> open_fds (trace s') = {3, 4}"
    using handle_client_accounting [OF recorder_quiet hello_client_fits server_mem_ok run] fd r last
    unfolding cl st fds by (simp only: not_not if_False simp_thms outcome.distinct) blast
  then show ?thesis using run r by blast
qed

end
