(* ===== verification/Server_Life.thy ===== *)
theory Server_Life
  imports Socket_Server
begin

text \<open>
  The life of a server: what \<open>socket_server_create\<close> leaves behind on each of its paths, what
  the event loop keeps, whether it ever accepts, and what stopping, disconnecting and
  destroying do. The definitions are those of \<open>Socket_Server\<close>.
\<close>

section \<open>Creation\<close>

text \<open>\<open>socket\<close> fails or gives a descriptor that is not in use.\<close>

definition socket_fresh :: "kernel \<Rightarrow> bool" where
  "socket_fresh K \<longleftrightarrow> (\<forall>tr. int_of (K tr Socket) < 0 \<or> int_of (K tr Socket) \<notin> open_fds tr)"

text \<open>The state while a server is being built: the server object at \<open>server\<close> is the only addition.\<close>

definition building :: "'z mem_scheme \<Rightarrow> ptr \<Rightarrow> socket_server \<Rightarrow> int \<Rightarrow> 'z mem_scheme \<Rightarrow> bool" where
  "building s0 server sv fd s \<longleftrightarrow> server \<noteq> 0 \<and> heap s0 server = None \<and> server \<notin> allocated (trace s0) \<and>
     heap s = (heap s0)(server \<mapsto> Server sv) \<and> fd \<notin> open_fds (trace s0) \<and> ss_listen_fd sv = fd \<and> 0 \<le> fd \<and>
     open_fds (trace s) = insert fd (open_fds (trace s0)) \<and> allocated (trace s) = insert server (allocated (trace s0)) \<and>
     heap_ok s0"

text \<open>The address a server binds, and the events of a creation that succeeds.\<close>

definition listen_addr :: "char list option \<Rightarrow> int \<Rightarrow> sockaddr_in" where
  "listen_addr ip port =
     (let a = zero_sockaddr\<lparr>sin_family := AF_INET, sin_port := htons (word_of_int port)\<rparr>
      in case ip of Some t \<Rightarrow> set_sin_addr t a | None \<Rightarrow> a\<lparr>sin_addr := INADDR_ANY\<rparr>)"

definition creation :: "sockaddr_in \<Rightarrow> ptr \<Rightarrow> int \<Rightarrow> ptr \<Rightarrow> int \<Rightarrow> ptr \<Rightarrow> event list \<Rightarrow> bool" where
  "creation addr server fd h ep mgr evs \<longleftrightarrow> (\<exists>q1 q2 q3 q4 q5 q6 q7 q8 q9.
     evs = [Call (Malloc SIZEOF_SOCKET_SERVER) q1, Call Socket q2, Call (Setsockopt_reuseaddr fd) q3, Call (Bind fd addr) q4,
       Call (Listen fd SOMAXCONN) q5, Call (Malloc SIZEOF_EPOLL_HANDLER) q6, Call Epoll_create q7,
       Call (Malloc SIZEOF_CLIENT_MANAGER) q8, Call (Epoll_add ep fd 0 (or EPOLLIN EPOLLET)) q9] \<and>
     ptr_of q1 = server \<and> int_of q2 = fd \<and> int_of q3 = 0 \<and> 0 \<le> int_of q4 \<and> 0 \<le> int_of q5 \<and>
     ptr_of q6 = h \<and> int_of q7 = ep \<and> ptr_of q8 = mgr \<and> int_of q9 \<noteq> -1)"

definition create_post ::
    "sockaddr_in \<Rightarrow> server_callbacks \<Rightarrow> ptr \<Rightarrow> 'z mem_scheme \<Rightarrow> ptr outcome \<Rightarrow> 'z mem_scheme \<Rightarrow> bool" where
  "create_post addr cbs ud s r s' \<longleftrightarrow>
     r = Exit 1 \<and> open_fds (trace s') = open_fds (trace s) \<or>
     r = Ret 0 \<and> heap s' = heap s \<and> open_fds (trace s') = open_fds (trace s) \<and> allocated (trace s') = allocated (trace s) \<or>
     (\<exists>server sv ep. r = Ret server \<and> server_ok server sv ep [] s' \<and> ss_callbacks sv = cbs \<and> ss_user_data sv = ud \<and>
        ss_running sv = 0 \<and> 0 \<le> ss_listen_fd sv \<and> ss_listen_fd sv \<noteq> ep \<and>
        open_fds (trace s') = {ss_listen_fd sv, ep} \<union> open_fds (trace s) \<and>
        {ss_listen_fd sv, ep} \<inter> open_fds (trace s) = {} \<and>
        dom (heap s') = {server, ss_epoll sv, ss_client_mgr sv} \<union> dom (heap s) \<and>
        allocated (trace s') = {server, ss_epoll sv, ss_client_mgr sv} \<union> allocated (trace s) \<and>
        {server, ss_epoll sv, ss_client_mgr sv} \<inter> allocated (trace s) = {} \<and>
        distinct [server, ss_epoll sv, ss_client_mgr sv] \<and> ss_addr sv = addr \<and>
        (\<exists>evs. trace s' = trace s @ evs \<and> creation addr server (ss_listen_fd sv) (ss_epoll sv) ep (ss_client_mgr sv) evs) \<and>
        watched ep (trace s') = [ss_listen_fd sv \<mapsto> 0])"

lemma building_heap_ok: "building s0 server sv fd s \<Longrightarrow> heap_ok s"
  by (auto simp: building_def heap_ok_def)

lemma building_load: "building s0 server sv fd s \<Longrightarrow> load the_server server s = (Ret sv, s)"
  by (simp add: building_def run_simps)

lemma wp_set_server:
  "heap s server = Some (Server sv) \<Longrightarrow> server \<noteq> 0 \<Longrightarrow>
   wp (f ()) Q (s\<lparr>heap := (heap s)(server \<mapsto> Server (g sv))\<rparr>) \<Longrightarrow> wp (bind_c (set_server server g) f) Q s"
  unfolding set_server_def flat_simps by (intro wp_intros) auto

lemma building_set:
  "building s0 server sv fd s \<Longrightarrow> ss_listen_fd (g sv) = fd \<Longrightarrow>
   building s0 server (g sv) fd (s\<lparr>heap := (heap s)(server \<mapsto> Server (g sv))\<rparr>)"
  by (simp add: building_def)

lemma wp_building_set:
  assumes "building s0 server sv fd s" and "ss_listen_fd (g sv) = fd"
    and "\<And>s'. building s0 server (g sv) fd s' \<Longrightarrow> trace s' = trace s \<Longrightarrow> wp (f ()) Q s'"
  shows "wp (bind_c (set_server server g) f) Q s"
proof (rule wp_set_server)
  show "heap s server = Some (Server sv)" "server \<noteq> 0" using assms(1) by (auto simp: building_def)
  show "wp (f ()) Q (s\<lparr>heap := (heap s)(server \<mapsto> Server (g sv))\<rparr>)"
    by (rule assms(3), rule building_set [where g = g, OF assms(1,2)]) simp
qed

text \<open>A call that opens, closes and allocates nothing.\<close>

lemma building_trace:
  "building s0 server sv fd s \<Longrightarrow> open_fds t = open_fds (trace s) \<Longrightarrow> allocated t = allocated (trace s) \<Longrightarrow>
   building s0 server sv fd (s\<lparr>trace := t, errno := e\<rparr>)"
  "building s0 server sv fd s \<Longrightarrow> open_fds t = open_fds (trace s) \<Longrightarrow> allocated t = allocated (trace s) \<Longrightarrow>
   building s0 server sv fd (s\<lparr>trace := t\<rparr>)"
  by (simp_all add: building_def)

text \<open>Giving up: the descriptor is closed and the server freed.\<close>

lemma abandon_wp:
  assumes "building s0 server sv fd s"
  shows "wp (bind_c (sys_ignore K (Close fd)) (\<lambda>_. bind_c (free_c K server) (\<lambda>_. return_c 0))) (create_post addr cbs ud s0) s"
proof -
  have "(heap s0)(server := None) = heap s0" using assms by (auto simp: building_def fun_eq_iff)
  with assms show ?thesis
    by (intro wp_intros) (auto simp: building_def create_post_def)
qed

lemma abandon_exit_wp:
  assumes "building s0 server sv fd s"
  shows "wp (bind_c (get_c errno) (\<lambda>e. bind_c (log_call LOG_ERROR t [Strerror_arg e])
     (\<lambda>_. bind_c (sys_ignore K (Close fd)) (\<lambda>_. exit_c 1)))) (create_post addr cbs ud s0) s"
  using assms by (intro wp_intros) (auto simp: building_def create_post_def)

lemma abandon_log_wp:
  assumes "building s0 server sv fd s"
  shows "wp (bind_c (get_c errno) (\<lambda>e. bind_c (log_call LOG_ERROR t [Strerror_arg e])
     (\<lambda>_. bind_c (sys_ignore K (Close fd)) (\<lambda>_. bind_c (free_c K server) (\<lambda>_. return_c 0))))) (create_post addr cbs ud s0) s"
  by (rule wp_leaf_bind(1), rule wp_note(1), rule abandon_wp [where sv = sv]) (use assms in \<open>simp add: building_def\<close>)

lemma building_sys:
  fixes s0 :: "'z mem_scheme"
  assumes "building s0 server sv fd s" and "\<And>r F. fd_event (Call c r) F = F" and "\<And>r A. alloc_event (Call c r) A = A"
    and "\<And>r s'. building s0 server sv fd s' \<Longrightarrow> trace s' = trace s @ [Call c r] \<Longrightarrow> wp (f (int_of r)) Q s'"
  shows "wp (bind_c (sys_int K c) f) Q s"
  by (rule wp_sys(2), rule assms(4)) (use assms(1-3) in \<open>simp_all add: building_def\<close>)

text \<open>The same with an epoll handler \<open>h\<close> on \<open>ep\<close>, and then with an empty manager \<open>m\<close>.\<close>

definition polling :: "'z mem_scheme \<Rightarrow> ptr \<Rightarrow> socket_server \<Rightarrow> int \<Rightarrow> ptr \<Rightarrow> int \<Rightarrow> 'z mem_scheme \<Rightarrow> bool" where
  "polling s0 server sv fd h ep s \<longleftrightarrow> server \<noteq> 0 \<and> heap s0 server = None \<and> server \<notin> allocated (trace s0) \<and> heap_ok s0 \<and>
     h \<noteq> server \<and> heap s0 h = None \<and> h \<notin> allocated (trace s0) \<and> handler_on h ep s \<and>
     heap s server = Some (Server sv) \<and> (\<forall>q. q \<noteq> server \<longrightarrow> q \<noteq> h \<longrightarrow> heap s q = heap s0 q) \<and>
     ss_listen_fd sv = fd \<and> 0 \<le> fd \<and> 0 \<le> ep \<and> fd \<noteq> ep \<and> fd \<notin> open_fds (trace s0) \<and> ep \<notin> open_fds (trace s0) \<and>
     open_fds (trace s) = {fd, ep} \<union> open_fds (trace s0) \<and>
     allocated (trace s) = {server, h} \<union> allocated (trace s0) \<and> watched ep (trace s) = Map.empty"

lemma polling_heap_ok:
  assumes "polling s0 server sv fd h ep s"
  shows "heap_ok s"
proof -
  have "dom (heap s) \<subseteq> {server, h} \<union> dom (heap s0)" using assms by (auto simp: polling_def)
  moreover have "heap s 0 = None" using assms by (auto simp: polling_def handler_on_def heap_ok_def)
  ultimately show ?thesis using assms by (auto simp: polling_def heap_ok_def)
qed

lemma epoll_create_calls:
  fixes s :: "'z mem_scheme"
  shows "wp (epoll_handler_create K) (\<lambda>r s'. \<forall>h. r = Ret h \<longrightarrow> h \<noteq> 0 \<longrightarrow> (\<exists>q1 q2.
    trace s' = trace s @ [Call (Malloc SIZEOF_EPOLL_HANDLER) q1, Call Epoll_create q2] \<and> ptr_of q1 = h \<and>
    handler_on h (int_of q2) s')) s"
  unfolding epoll_handler_create_def flat_simps
  by (intro wp_intros) (auto simp: handler_on_def)

lemma wp_epoll_create:
  fixes s0 :: "'z mem_scheme"
  assumes "malloc_fresh K" and "epoll_fresh K" and "building s0 server sv fd s"
    and "\<And>s'. building s0 server sv fd s' \<Longrightarrow> wp (f 0) Q s'"
    and "\<And>h ep s'. h \<noteq> 0 \<Longrightarrow> polling s0 server sv fd h ep s' \<Longrightarrow>
      \<exists>q1 q2. trace s' = trace s @ [Call (Malloc SIZEOF_EPOLL_HANDLER) q1, Call Epoll_create q2] \<and> ptr_of q1 = h \<and> int_of q2 = ep \<Longrightarrow>
      wp (f h) Q s'"
  shows "wp (bind_c (epoll_handler_create K) f) Q s"
proof (rule wp_bind [OF wp_conj [OF epoll_create_wp [OF assms(1,2) building_heap_ok [OF assms(3)]] epoll_create_calls]], elim conjE disjE exE)
  fix x :: ptr and h ep and s' :: "'z mem_scheme"
  assume a: "Ret x = Ret h" "handler_on h ep s'" "heap s h = None" "h \<notin> allocated (trace s)"
    "\<forall>q. q \<noteq> h \<longrightarrow> heap s' q = heap s q" "0 \<le> ep" "ep \<notin> open_fds (trace s)"
    "open_fds (trace s') = insert ep (open_fds (trace s))" "allocated (trace s') = insert h (allocated (trace s))"
    "watched ep (trace s') = Map.empty"
    and c: "\<forall>h. Ret x = Ret h \<longrightarrow> h \<noteq> 0 \<longrightarrow> (\<exists>q1 q2. trace s' = trace s @
      [Call (Malloc SIZEOF_EPOLL_HANDLER) q1, Call Epoll_create q2] \<and> ptr_of q1 = h \<and> handler_on h (int_of q2) s')"
  have p: "polling s0 server sv fd h ep s'"
    using assms(3) a(2-10) by (auto simp: polling_def building_def)
  have h: "h \<noteq> 0" using a(2) by (simp add: handler_on_def)
  with c a(1) obtain q1 q2 where q: "trace s' = trace s @ [Call (Malloc SIZEOF_EPOLL_HANDLER) q1, Call Epoll_create q2]"
    "ptr_of q1 = h" "handler_on h (int_of q2) s'" by blast
  have "int_of q2 = ep" using q(3) a(2) by (auto simp: handler_on_def)
  with q have "\<exists>q1 q2. trace s' = trace s @ [Call (Malloc SIZEOF_EPOLL_HANDLER) q1, Call Epoll_create q2] \<and> ptr_of q1 = h \<and> int_of q2 = ep"
    by blast
  from assms(5) [OF h p this] a(1) show "wp (f x) Q s'" by simp
next
  fix x :: ptr and s' :: "'z mem_scheme"
  assume a: "Ret x = Ret 0" "heap s' = heap s" "open_fds (trace s') = open_fds (trace s)"
    "allocated (trace s') = allocated (trace s)"
  then have "building s0 server sv fd s'" using assms(3) by (simp add: building_def)
  then show "wp (f x) Q s'" using a(1) assms(4) by simp
qed auto

lemma polling_set:
  "polling s0 server sv fd h ep s \<Longrightarrow> ss_listen_fd (g sv) = fd \<Longrightarrow>
   polling s0 server (g sv) fd h ep (s\<lparr>heap := (heap s)(server \<mapsto> Server (g sv))\<rparr>)"
  by (auto simp: polling_def handler_on_def)

lemma wp_polling_set:
  assumes "polling s0 server sv fd h ep s" and "ss_listen_fd (g sv) = fd"
    and "\<And>s'. polling s0 server (g sv) fd h ep s' \<Longrightarrow> trace s' = trace s \<Longrightarrow> wp (f ()) Q s'"
  shows "wp (bind_c (set_server server g) f) Q s"
proof (rule wp_set_server)
  show "heap s server = Some (Server sv)" "server \<noteq> 0" using assms(1) by (auto simp: polling_def)
  show "wp (f ()) Q (s\<lparr>heap := (heap s)(server \<mapsto> Server (g sv))\<rparr>)"
    by (rule assms(3), rule polling_set [where g = g, OF assms(1,2)]) simp
qed

lemma wp_epoll_destroy:
  assumes "polling s0 server sv fd h ep s" and "\<And>s'. building s0 server sv fd s' \<Longrightarrow> wp (f ()) Q s'"
  shows "wp (bind_c (epoll_handler_destroy K h) f) Q s"
proof -
  have "handler_on h ep s" "ep \<noteq> -1" using assms(1) by (auto simp: polling_def)
  then obtain s' where s': "epoll_handler_destroy K h s = (Ret (), s')" "heap s' = (heap s)(h := None)"
    "allocated (trace s') = allocated (trace s) - {h}" "open_fds (trace s') = open_fds (trace s) - {ep}"
    using epoll_destroy_run [of h ep s K] by auto
  have "heap s' = (heap s0)(server \<mapsto> Server sv)"
    using assms(1) s'(2) by (auto simp: polling_def fun_eq_iff)
  then have "building s0 server sv fd s'" using assms(1) s'(3,4) by (auto simp: polling_def building_def)
  then show ?thesis using s'(1) assms(2) by (intro wp_run)
qed

definition managing ::
    "'z mem_scheme \<Rightarrow> ptr \<Rightarrow> socket_server \<Rightarrow> int \<Rightarrow> ptr \<Rightarrow> int \<Rightarrow> ptr \<Rightarrow> 'z mem_scheme \<Rightarrow> bool" where
  "managing s0 server sv fd h ep m s \<longleftrightarrow> registry m [] s \<and> m \<notin> allocated (trace s0) \<and> m \<noteq> server \<and> m \<noteq> h \<and>
     polling s0 server sv fd h ep (s\<lparr>heap := (heap s)(m := None), trace := trace s @ [Call (Free m) (Val 0)]\<rparr>)"

lemma wp_manager_create:
  fixes s0 :: "'z mem_scheme"
  assumes "malloc_fresh K" and "polling s0 server sv fd h ep s"
    and "\<And>s'. polling s0 server sv fd h ep s' \<Longrightarrow> wp (f 0) Q s'"
    and "\<And>m s' q. m \<noteq> 0 \<Longrightarrow> managing s0 server sv fd h ep m s' \<Longrightarrow>
      trace s' = trace s @ [Call (Malloc SIZEOF_CLIENT_MANAGER) q] \<Longrightarrow> ptr_of q = m \<Longrightarrow> wp (f m) Q s'"
  shows "wp (bind_c (client_manager_create K) f) Q s"
  unfolding client_manager_create_def
proof (rule wp_alloc)
  fix r
  assume r: "K (trace s) (Malloc SIZEOF_CLIENT_MANAGER) = r" "ptr_of r = 0"
  show "wp (f 0) Q (after (Malloc SIZEOF_CLIENT_MANAGER) r s)"
    by (rule assms(3)) (use assms(2) r in \<open>simp add: polling_def\<close>)
next
  fix r p
  assume r: "K (trace s) (Malloc SIZEOF_CLIENT_MANAGER) = r" "ptr_of r = p" "p \<noteq> 0"
  let ?s = "(after (Malloc SIZEOF_CLIENT_MANAGER) r s)\<lparr>heap := (heap s)(p \<mapsto> Manager \<lparr>cm_clients = 0, cm_count = 0\<rparr>)\<rparr>"
  have none: "heap s p = None" using heap_ok_fresh [OF assms(1) polling_heap_ok [OF assms(2)], of SIZEOF_CLIENT_MANAGER p] r by simp
  have new: "p \<notin> allocated (trace s)" using assms(1) r unfolding malloc_fresh_def by blast
  have ok: "heap_ok ?s" using polling_heap_ok [OF assms(2)] r by (auto simp: heap_ok_def)
  have same: "(heap s)(p := None) = heap s" using none by (simp add: fun_upd_idem)
  have "managing s0 server sv fd h ep p ?s"
    using assms(2) r none new ok same
    by (auto simp: managing_def registry_def CLIENT_MAX_CLIENTS_def polling_def handler_on_def)
  from assms(4) [OF r(3) this _ r(2)] show "wp (f p) Q ?s" by simp
qed

text \<open>Undoing the manager.\<close>

lemma wp_manager_destroy:
  fixes s0 :: "'z mem_scheme"
  assumes "managing s0 server sv fd h ep m s" and "\<And>s'. polling s0 server sv fd h ep s' \<Longrightarrow> wp (f ()) Q s'"
  shows "wp (bind_c (client_manager_destroy K m) f) Q s"
proof -
  from assms(1) have reg: "registry m [] s" by (simp add: managing_def)
  obtain r s' where run: "client_manager_destroy K m s = (r, s')" by fastforce
  from wpD [OF destroy_refines [OF reg] run] obtain q where d: "r = Ret ()" "trace s' = trace s @ [Call (Free m) q]"
    "heap s' = (\<lambda>x. if x = m then None else heap s x)" by (auto simp: length_Suc_conv)
  have "polling s0 server sv fd h ep s'"
    using assms(1) d(2,3) by (auto simp: managing_def polling_def handler_on_def)
  then show ?thesis using run d(1) assms(2) by (intro wp_run) auto
qed

lemma managing_set:
  assumes "managing s0 server sv fd h ep m s" and "ss_listen_fd (g sv) = fd"
  shows "managing s0 server (g sv) fd h ep m (s\<lparr>heap := (heap s)(server \<mapsto> Server (g sv))\<rparr>)"
  using assms by (auto simp: managing_def polling_def handler_on_def registry_def heap_ok_def fun_upd_twist)

lemma wp_managing_set:
  assumes "managing s0 server sv fd h ep m s" and "ss_listen_fd (g sv) = fd"
    and "\<And>s'. managing s0 server (g sv) fd h ep m s' \<Longrightarrow> trace s' = trace s \<Longrightarrow> wp (f ()) Q s'"
  shows "wp (bind_c (set_server server g) f) Q s"
proof (rule wp_set_server)
  show "heap s server = Some (Server sv)" "server \<noteq> 0" using assms(1) by (auto simp: managing_def polling_def split: if_splits)
  show "wp (f ()) Q (s\<lparr>heap := (heap s)(server \<mapsto> Server (g sv))\<rparr>)"
    by (rule assms(3), rule managing_set [where g = g, OF assms(1,2)]) simp
qed

text \<open>Registering the listening descriptor, and the finished server.\<close>

definition registered ::
    "'z mem_scheme \<Rightarrow> ptr \<Rightarrow> socket_server \<Rightarrow> int \<Rightarrow> ptr \<Rightarrow> int \<Rightarrow> ptr \<Rightarrow> 'z mem_scheme \<Rightarrow> bool" where
  "registered s0 server sv fd h ep m s1 \<longleftrightarrow> (\<exists>s. managing s0 server sv fd h ep m s \<and> heap s1 = heap s \<and>
     open_fds (trace s1) = open_fds (trace s) \<and> allocated (trace s1) = allocated (trace s) \<and>
     watched ep (trace s1) = [fd \<mapsto> 0])"

lemma managing_on: "managing s0 server sv fd h ep m s \<Longrightarrow> handler_on h ep s"
  by (auto simp: managing_def polling_def handler_on_def)

lemma managing_upd:
  assumes "managing s0 server sv fd h ep m s" and "heap s' = heap s" and "open_fds (trace s') = open_fds (trace s)"
    and "allocated (trace s') = allocated (trace s)" and "watched ep (trace s') = watched ep (trace s)"
  shows "managing s0 server sv fd h ep m s'"
  using assms registry_same [OF assms(2,4)] by (auto simp: managing_def polling_def handler_on_def)

lemma wp_register:
  fixes s0 :: "'z mem_scheme"
  assumes "managing s0 server sv fd h ep m s"
    and "\<And>s'. managing s0 server sv fd h ep m s' \<Longrightarrow> wp (f (-1)) Q s'"
    and "\<And>s'. registered s0 server sv fd h ep m s' \<Longrightarrow>
      \<exists>q. int_of q \<noteq> -1 \<and> trace s' = trace s @ [Call (Epoll_add ep fd 0 ev) q] \<Longrightarrow> wp (f 0) Q s'"
  shows "wp (bind_c (epoll_handler_add K h fd 0 ev) f) Q s"
proof (rule wp_poll_add [OF managing_on [OF assms(1)]])
  fix s'
  assume a: "same_mem s s'" "watched ep (trace s') = (watched ep (trace s))(fd \<mapsto> 0)"
    "\<exists>q. int_of q \<noteq> -1 \<and> trace s' = trace s @ [Call (Epoll_add ep fd 0 ev) q]"
  have "watched ep (trace s) = Map.empty" using assms(1) by (auto simp: managing_def polling_def)
  then have "registered s0 server sv fd h ep m s'" using assms(1) a(1,2) by (auto simp: registered_def same_mem_def)
  then show "wp (f 0) Q s'" using a(3) by (rule assms(3))
next
  fix s'
  assume "same_mem s s'" "watched ep (trace s') = watched ep (trace s)"
  then show "wp (f (-1)) Q s'" by (intro assms(2) managing_upd [OF assms(1)]) (simp_all add: same_mem_def)
qed

lemma finish_wp:
  fixes s0 :: "'z mem_scheme"
  assumes "registered s0 server sv fd h ep m s" and "ss_epoll sv = h" and "ss_client_mgr sv = m" and "ss_addr sv = addr"
    and "\<exists>evs. trace s = trace s0 @ evs \<and> creation addr server fd h ep m evs"
  shows "wp (bind_c (set_server server (\<lambda>v. v\<lparr>ss_callbacks := cbs, ss_user_data := ud, ss_running := 0\<rparr>))
    (\<lambda>_. return_c server)) (create_post addr cbs ud s0) s"
proof -
  obtain s1 where m: "managing s0 server sv fd h ep m s1" "heap s = heap s1" "open_fds (trace s) = open_fds (trace s1)"
    "allocated (trace s) = allocated (trace s1)" "watched ep (trace s) = [fd \<mapsto> 0]"
    using assms(1) by (auto simp: registered_def)
  let ?sv = "sv\<lparr>ss_callbacks := cbs, ss_user_data := ud, ss_running := 0\<rparr>"
  let ?s2 = "s\<lparr>heap := (heap s)(server \<mapsto> Server ?sv)\<rparr>"
  from m(1) have f: "registry m [] s1" "m \<notin> allocated (trace s0)" "m \<noteq> server" "m \<noteq> h" "h \<noteq> server" "server \<noteq> 0"
    "handler_on h ep s1" "heap s1 server = Some (Server sv)" "ss_listen_fd sv = fd" "0 \<le> fd" "fd \<noteq> ep"
    "fd \<notin> open_fds (trace s0)" "ep \<notin> open_fds (trace s0)" "open_fds (trace s1) = {fd, ep} \<union> open_fds (trace s0)"
    "allocated (trace s1) - {m} = {server, h} \<union> allocated (trace s0)"
    "server \<notin> allocated (trace s0)" "h \<notin> allocated (trace s0)"
    "\<forall>q. q \<noteq> server \<longrightarrow> q \<noteq> h \<longrightarrow> q \<noteq> m \<longrightarrow> heap s1 q = heap s0 q"
    by (auto simp: managing_def polling_def handler_on_def split: if_splits)
  have mm: "m \<in> allocated (trace s1)" "heap s1 m \<noteq> None" using f(1) by (auto simp: registry_def heap_ok_def)
  have al: "allocated (trace s1) = {server, h, m} \<union> allocated (trace s0)" using f(15) mm(1) by blast
  have "registry m [] ?s2" using f(1,3) m(2,4) f(8) by (auto simp: registry_def heap_ok_def)
  moreover have "handler_on h ep ?s2" using f(5,7) m(2) by (simp add: handler_on_def)
  ultimately have ok: "server_ok server ?sv ep [] ?s2"
    using f m assms(2,3) by (simp add: server_ok_def client_fds_def)
  have "heap s1 h \<noteq> None" using f(7) by (auto simp: handler_on_def)
  then have dom: "dom (heap ?s2) = {server, h, m} \<union> dom (heap s0)"
    using f(8,18) mm(2) m(2) by (auto simp: dom_def)
  have "wp (return_c server) (create_post addr cbs ud s0) ?s2"
    unfolding create_post_def
    by (rule wp_leaf(1), intro disjI2 exI [of _ server] exI [of _ ?sv] exI [of _ ep])
      (use ok dom f al m assms(2-5) in auto)
  then show ?thesis using f(6,8) m(2) by (intro wp_set_server) auto
qed

lemma socket_server_create_wp:
  fixes s :: "'z mem_scheme"
  assumes "malloc_fresh K" and "epoll_fresh K" and "socket_fresh K" and "heap_ok s"
  shows "wp (socket_server_create K ip port (Some cbs) ud) (create_post (listen_addr ip port) cbs ud s) s"
  unfolding socket_server_create_def option.case
  apply (rule wp_alloc)
  subgoal for r by (intro wp_intros) (simp_all add: create_post_def)
  subgoal premises r for r p
  proof -
    have none: "heap s p = None" using heap_ok_fresh [OF assms(1,4), of SIZEOF_SOCKET_SERVER p] r by simp
    have new: "p \<notin> allocated (trace s)" using assms(1) r unfolding malloc_fresh_def by blast
    let ?s1 = "(after (Malloc SIZEOF_SOCKET_SERVER) r s)\<lparr>heap := (heap s)(p \<mapsto> Server zero_server)\<rparr>"
    have sock: "int_of q < 0 \<or> int_of q \<notin> open_fds (trace s)" if "K (trace ?s1) Socket = q" for q
      using assms(3) [unfolded socket_fresh_def, rule_format, of "trace ?s1"] that by simp
    have start: "building s p (zero_server\<lparr>ss_listen_fd := int_of q\<rparr>) (int_of q)
        ((after Socket q ?s1)\<lparr>heap := (heap (after Socket q ?s1))(p \<mapsto> Server (zero_server\<lparr>ss_listen_fd := int_of q\<rparr>))\<rparr>)"
      if "\<not> int_of q < 0" "K (trace ?s1) Socket = q" for q
      using that sock [OF that(2)] r none new assms(4) by (auto simp: building_def)
    have undo: "(heap s)(p := None) = heap s" using none by (simp add: fun_upd_idem)
    show ?thesis
      unfolding if_not_P [OF r(3)] socket_defs flat_simps Let_def
      apply (rule wp_sys(2), rule wp_if)
      subgoal for q
        using r new undo
        by (intro wp_note wp_leaf_bind wp_set_server [where sv = zero_server] wp_if wp_free wp_leaf)
          (auto simp: create_post_def)
      subgoal premises q for q
        apply (rule wp_set_server [where sv = zero_server])
          apply simp
         apply (rule r(3))
        apply (subst if_not_P [OF q(2)])
        using start [OF q(2,1)]
        apply (rule building_sys, simp_all only: fd_event.simps alloc_event.simps)
        apply (rule wp_if, rule abandon_exit_wp, assumption)
        apply (rule wp_building_set, assumption, simp)
        apply (rule building_sys, assumption, simp, simp)
        apply (rule wp_if, rule abandon_log_wp, assumption)
        apply (rule building_sys, assumption, simp, simp)
        apply (rule wp_if, rule abandon_exit_wp, assumption)
        apply (rule wp_epoll_create [OF assms(1,2)], assumption)
         apply (rule wp_building_set, assumption, simp)
         apply (simp only: simp_thms if_True)
         apply (rule abandon_wp, assumption)
        subgoal premises h for s2 h ep s3
          apply (rule wp_polling_set, rule h, simp)
          apply (subst if_not_P, rule h)
          apply (rule wp_manager_create [OF assms(1)], assumption)
           apply (rule wp_polling_set, assumption, simp)
           apply (simp only: simp_thms if_True)
           apply (rule wp_epoll_destroy, assumption, rule abandon_wp, assumption)
          apply (rule wp_managing_set, assumption, simp)
          apply (simp only: if_False)
          apply (rule wp_register, assumption)
           apply (simp only: simp_thms if_True)
           apply (rule wp_manager_destroy, assumption, rule wp_epoll_destroy, assumption, rule abandon_wp, assumption)
          apply (subst if_not_P, simp)
          apply (rule finish_wp, assumption, simp, simp, simp add: listen_addr_def Let_def)
          subgoal premises e using h e r(2) by (auto simp: creation_def listen_addr_def Let_def)
          done
        done
      done
  qed
  done

section \<open>The event loop\<close>

text \<open>The documented behaviour of the system, and callbacks that keep out of the server's affairs.\<close>

definition well_behaved :: "kernel \<Rightarrow> 'z mem_scheme user \<Rightarrow> bool" where
  "well_behaved K U \<longleftrightarrow> malloc_fresh K \<and> accept_fresh K \<and> recv_fits K \<and> poll_fits K \<and> quiet_user U"

text \<open>
  A server in operation. \<open>F\<close> are the open descriptors that belong to no client: while the
  server runs, this set must stay the same, else a connection leaked.
\<close>

definition serving :: "ptr \<Rightarrow> socket_server \<Rightarrow> int \<Rightarrow> int set \<Rightarrow> 'z mem_scheme \<Rightarrow> bool" where
  "serving server sv ep F s \<longleftrightarrow>
     (\<exists>cs. server_ok server sv ep cs s \<and> open_fds (trace s) - set (client_fds cs) = F)"

abbreviation runs_on :: "('z mem_scheme \<Rightarrow> bool) \<Rightarrow> 'a outcome \<Rightarrow> 'z mem_scheme \<Rightarrow> bool" where
  "runs_on I \<equiv> ends I (\<lambda>_ _. False) (\<lambda>_ _. False) I"

lemma runs_onI: "r = Ret x \<or> r = Out_of_fuel \<Longrightarrow> I s \<Longrightarrow> runs_on I r s"
  by auto

lemma serving_quiet: "quiet s s' \<Longrightarrow> serving server sv ep F s \<Longrightarrow> serving server sv ep F s'"
  unfolding serving_def using server_quiet [of s s'] by (auto simp: quiet_def)

lemma serving_load:
  "serving server sv ep F s \<Longrightarrow> load the_server server s = (Ret sv, s)"
  "serving server sv ep F s \<Longrightarrow> handler_on (ss_epoll sv) ep s"
  by (auto simp: serving_def run_simps elim: server_okE)

lemma event_callback_wp:
  fixes s :: "'z mem_scheme"
  assumes "well_behaved K U" and "serving server sv ep F s"
  shows "wp (epoll_event_callback K U m p ev server) (runs_on (serving server sv ep F)) s"
proof -
  obtain cs where cs: "server_ok server sv ep cs s" "open_fds (trace s) - set (client_fds cs) = F"
    using assms(2) by (auto simp: serving_def)
  have w: "malloc_fresh K" "accept_fresh K" "recv_fits K" "quiet_user U" using assms(1) by (simp_all add: well_behaved_def)
  have accept: "wp (handle_accept K U m server) (runs_on (serving server sv ep F)) s"
  proof (rule wp_mono [OF handle_accept_wp [OF w(1,2,4) cs(1)]])
    fix r s'
    assume "accept_post K m server sv ep cs s r s'"
    then obtain new where new: "server_ok server sv ep (new @ cs) s'"
      "open_fds (trace s') = set (client_fds new) \<union> open_fds (trace s)" "set (client_fds new) \<inter> open_fds (trace s) = {}"
      and r: "r = Ret () \<or> r = Out_of_fuel" by (auto simp: accept_post_def)
    have "open_fds (trace s') - set (client_fds (new @ cs)) = F"
      using new(2,3) cs(2) by (auto simp: client_fds_def)
    with new(1) have "serving server sv ep F s'" by (auto simp: serving_def)
    with r show "runs_on (serving server sv ep F) r s'" by (rule runs_onI)
  qed
  have client: "wp (handle_client K U m server fd) (runs_on (serving server sv ep F)) s" for fd
  proof (rule wp_mono [OF handle_client_wp [OF w(4,3) cs(1)]])
    fix r s'
    assume a: "if fd \<in> set (client_fds cs) then receive_post U server sv ep cs fd s r s' else r = Ret () \<and> s' = s"
    have "distinct (client_fds cs)" using cs(1) by (rule server_okE)
    then have "set (client_fds (strike fd cs)) = set (client_fds cs) - {fd}" by (simp add: client_fds_strike)
    then have "serving server sv ep F s'"
      using a cs assms(2) by (fastforce simp: serving_def receive_post_def split: if_splits)
    moreover have "r = Ret () \<or> r = Out_of_fuel" using a by (auto simp: receive_post_def split: if_splits)
    ultimately show "runs_on (serving server sv ep F) r s'" by (intro runs_onI)
  qed
  show ?thesis
    unfolding epoll_event_callback_def Let_def
    by (rule wp_run, rule serving_load(1) [OF assms(2)]) (simp add: accept client)
qed

lemma serving_upd:
  assumes "serving server sv ep F s" and "heap s' = (heap s)(ss_epoll sv \<mapsto> Handler h)" and "eh_epoll_fd h = ep"
    and "length (eh_events h) = EPOLL_MAX_EVENTS" and "open_fds (trace s') = open_fds (trace s)"
    and "allocated (trace s') = allocated (trace s)" and "watched ep (trace s') = watched ep (trace s)"
    and "nonblocking (trace s') = nonblocking (trace s)"
  shows "serving server sv ep F s'"
proof -
  obtain cs where cs: "server_ok server sv ep cs s" "open_fds (trace s) - set (client_fds cs) = F"
    using assms(1) by (auto simp: serving_def)
  note ap = server_apart [OF cs(1)]
  obtain h0 where old: "heap s (ss_epoll sv) = Some (Handler h0)"
    using serving_load(2) [OF assms(1)] by (auto simp: handler_on_def)
  have "registry (ss_client_mgr sv) cs s" using cs(1) by (rule server_okE)
  then have "registry (ss_client_mgr sv) cs s'"
    using assms(2,6) ap(2,4) old by (auto simp: registry_def heap_ok_def seg_frame)
  moreover have "handler_on (ss_epoll sv) ep s'" using assms(2-4) ap(6) by (simp add: handler_on_def)
  moreover have "heap s' server = Some (Server sv)" using cs(1) assms(2) ap(8) by (auto elim: server_okE)
  ultimately have "server_ok server sv ep cs s'" using cs(1) assms(5,7,8) by (simp add: server_ok_def)
  then show ?thesis using cs(2) assms(5) by (auto simp: serving_def)
qed

lemma serving_stable: "poll_stable (ss_epoll sv) ep (serving server sv ep F :: 'z mem_scheme \<Rightarrow> bool)"
  unfolding poll_stable_def
proof (intro allI impI conjI)
  fix s :: "'z mem_scheme" and q n t u e v
  assume s: "serving server sv ep F s"
  then obtain h where h: "heap s (ss_epoll sv) = Some (Handler h)" "eh_epoll_fd h = ep" "length (eh_events h) = EPOLL_MAX_EVENTS"
    using serving_load(2) by (fastforce simp: handler_on_def)
  show "handler_on (ss_epoll sv) ep s" using s by (rule serving_load)
  show "serving server sv ep F (after (Epoll_wait ep n t) q s)" "serving server sv ep F (s\<lparr>trace := trace s @ [Perror u e]\<rparr>)"
    by (rule serving_upd [OF s _ h(2,3)]; simp add: h(1) fun_upd_idem)+
  show "serving server sv ep F (s\<lparr>heap := (heap s)(ss_epoll sv \<mapsto> Handler v)\<rparr>)"
    if "eh_epoll_fd v = ep" "length (eh_events v) = EPOLL_MAX_EVENTS"
    by (rule serving_upd [OF s _ that]) simp_all
qed

text \<open>
  What the event callback keeps, the event loop keeps, and with the two callbacks around it
  \<open>socket_server_start\<close>.
\<close>

lemma event_loop_runs:
  fixes s :: "'z mem_scheme"
  assumes "poll_stable (ss_epoll sv) ep I" and "poll_fits K"
    and "\<And>s. I s \<Longrightarrow> load the_server server s = (Ret sv, s)"
    and "\<And>s p ev. I s \<Longrightarrow> wp (epoll_event_callback K U m p ev server) (runs_on I) s"
  shows "I s \<Longrightarrow> wp (event_loop K U m n server) (runs_on I) s"
proof (induction n arbitrary: s)
  case 0
  then show ?case by (simp add: wp_leaf)
next
  case (Suc n)
  have "wp (epoll_handler_wait K (ss_epoll sv) (-1) (Some (epoll_event_callback K U m)) server) (runs_on I) s"
    by (rule epoll_wait_ends [OF assms(1,2) Suc.prems]) (rule assms(4))
  then have "wp (bind_c (epoll_handler_wait K (ss_epoll sv) (-1) (Some (epoll_event_callback K U m)) server) (\<lambda>ret.
       bind_c (get_c errno) (\<lambda>e. if ret = -1 \<and> e \<noteq> EINTR then return_c () else event_loop K U m n server)))
     (runs_on I) s"
    by (rule ends_bind) (intro wp_intros Suc.IH; simp)
  note round = this
  show ?case
    unfolding event_loop.simps
    by (rule wp_run, rule assms(3) [OF Suc.prems], rule wp_if, rule round, rule wp_leaf, simp add: Suc.prems)
qed

lemma server_start_runs:
  fixes s :: "'z mem_scheme"
  assumes "poll_stable (ss_epoll (sv\<lparr>ss_running := 1\<rparr>)) ep I" and "poll_fits K"
    and "\<And>s. I s \<Longrightarrow> load the_server server s = (Ret (sv\<lparr>ss_running := 1\<rparr>), s)"
    and "\<And>s p ev. I s \<Longrightarrow> wp (epoll_event_callback K U m p ev server) (runs_on I) s"
    and "\<And>s g ud. I s \<Longrightarrow> wp (call_opt U g (Cb_start ud)) (runs_on I) s"
    and "\<And>s g ud. I s \<Longrightarrow> wp (call_opt U g (Cb_stop ud)) (runs_on I) s"
    and "server \<noteq> 0" and "heap s server = Some (Server sv)" and "I (s\<lparr>heap := (heap s)(server \<mapsto> Server (sv\<lparr>ss_running := 1\<rparr>))\<rparr>)"
  shows "wp (socket_server_start K U m n server) (\<lambda>r s'. (r = Ret 0 \<or> r = Out_of_fuel) \<and> I s') s"
proof -
  let ?Q = "\<lambda>r s'. (r = Ret (0 :: int) \<or> r = Out_of_fuel) \<and> I s'"
  have step: "wp (bind_c mp f) ?Q s1" if "wp mp (runs_on I) s1" "\<And>s2. I s2 \<Longrightarrow> wp (f ()) ?Q s2"
    for mp :: "('z mem_scheme, unit) prog" and f s1
    by (rule wp_bind [OF that(1)]) (use that(2) in auto)
  show ?thesis
    unfolding socket_server_start_def if_not_P [OF assms(7)] flat_simps
    by (rule wp_set_server [OF assms(8,7)], rule wp_run, rule assms(3) [OF assms(9)], rule step, rule assms(5) [OF assms(9)],
        rule step, rule event_loop_runs [OF assms(1-4)], assumption+, rule wp_run, rule assms(3), assumption,
        rule step, rule assms(6), assumption, simp add: wp_leaf)
qed

lemma server_ok_fields:
  assumes "server_ok server sv ep cs s" and "ss_epoll (g sv) = ss_epoll sv" and "ss_client_mgr (g sv) = ss_client_mgr sv"
    and "ss_listen_fd (g sv) = ss_listen_fd sv"
  shows "server_ok server (g sv) ep cs (s\<lparr>heap := (heap s)(server \<mapsto> Server (g sv))\<rparr>)"
proof -
  note ap = server_apart [OF assms(1)]
  have "registry (ss_client_mgr sv) cs s" "handler_on (ss_epoll sv) ep s" using assms(1) by (auto elim: server_okE)
  then have "registry (ss_client_mgr sv) cs (s\<lparr>heap := (heap s)(server \<mapsto> Server (g sv))\<rparr>)"
    "handler_on (ss_epoll sv) ep (s\<lparr>heap := (heap s)(server \<mapsto> Server (g sv))\<rparr>)"
    using ap assms(1) by (auto simp: registry_def heap_ok_def seg_frame handler_on_def elim!: server_okE)
  then show ?thesis using assms by (simp add: server_ok_def)
qed

lemma quiet_callback:
  assumes "quiet_user U" and "serving server sv ep F s"
  shows "wp (call_opt U g a) (runs_on (serving server sv ep F)) s"
proof (cases g)
  case (Some h)
  obtain s' where "U h a s = (Ret (), s')" "quiet s s'" using assms(1) unfolding quiet_user_def by blast
  then show ?thesis using serving_quiet [OF _ assms(2)] by (simp add: Some call_opt_def wp_def)
qed (simp add: call_opt_def wp_leaf assms(2))

lemma serving_start:
  assumes "server_ok server sv ep cs s"
  shows "serving server (sv\<lparr>ss_running := 1\<rparr>) ep (open_fds (trace s) - set (client_fds cs))
    (s\<lparr>heap := (heap s)(server \<mapsto> Server (sv\<lparr>ss_running := 1\<rparr>))\<rparr>)"
  using server_ok_fields [OF assms, of "\<lambda>v. v\<lparr>ss_running := 1\<rparr>"] by (auto simp: serving_def)

lemma server_start_wp:
  fixes s :: "'z mem_scheme"
  assumes "well_behaved K U" and "server_ok server sv ep cs s"
  shows "wp (socket_server_start K U m n server) (\<lambda>r s'. (r = Ret 0 \<or> r = Out_of_fuel) \<and>
    serving server (sv\<lparr>ss_running := 1\<rparr>) ep (open_fds (trace s) - set (client_fds cs)) s') s"
proof (rule server_start_runs [OF serving_stable])
  show "poll_fits K" "server \<noteq> 0" "heap s server = Some (Server sv)"
    using assms by (auto simp: well_behaved_def elim: server_okE)
  have "quiet_user U" using assms(1) by (simp add: well_behaved_def)
  note call = quiet_callback [OF this]
  fix s1 :: "'z mem_scheme" and g ud p ev
  assume s1: "serving server (sv\<lparr>ss_running := 1\<rparr>) ep (open_fds (trace s) - set (client_fds cs)) s1"
  show "load the_server server s1 = (Ret (sv\<lparr>ss_running := 1\<rparr>), s1)" using s1 by (rule serving_load)
  show "wp (epoll_event_callback K U m p ev server)
      (runs_on (serving server (sv\<lparr>ss_running := 1\<rparr>) ep (open_fds (trace s) - set (client_fds cs)))) s1"
    using assms(1) s1 by (rule event_callback_wp)
  show "wp (call_opt U g (Cb_start ud)) (runs_on (serving server (sv\<lparr>ss_running := 1\<rparr>) ep (open_fds (trace s) - set (client_fds cs)))) s1"
    "wp (call_opt U g (Cb_stop ud)) (runs_on (serving server (sv\<lparr>ss_running := 1\<rparr>) ep (open_fds (trace s) - set (client_fds cs)))) s1"
    using s1 by (rule call)+
qed (rule serving_start [OF assms(2)])

section \<open>Properties\<close>

text \<open>
  C3. A running server keeps its books. For every behaviour of the system within its manual
  (any connections, data, errors, events and their order) and all callbacks that keep out
  of the server's affairs, \<open>socket_server_start\<close> never faults; when it returns it returns 0;
  and at every such end the registered clients are open, watched and in non-blocking mode, and the open
  descriptors that are no client's are the ones there were at the start: nothing leaks.
\<close>

theorem server_start_safe:
  fixes s :: "'z mem_scheme"
  assumes "well_behaved K U" and "server_ok server sv ep cs s" and "socket_server_start K U m n server s = (r, s')"
  shows "(r = Ret 0 \<or> r = Out_of_fuel) \<and>
    (\<exists>cs'. server_ok server (sv\<lparr>ss_running := 1\<rparr>) ep cs' s' \<and>
       open_fds (trace s') - set (client_fds cs') = open_fds (trace s) - set (client_fds cs))"
  using wpD [OF server_start_wp [OF assms(1,2)] assms(3)] by (auto simp: serving_def)

text \<open>
  C7. Creating a server is all or nothing. Without callbacks \<open>socket_server_create\<close> prints a message
  and returns NULL. With callbacks it returns a server with no clients after exactly these calls: memory, socket,
  address reuse, \<open>bind\<close> to the requested address and port, \<open>listen\<close>, the epoll handler, the client registry, and the
  registration of the listening descriptor; \<open>bind\<close> and \<open>listen\<close> succeeded, the two descriptors and the
  three objects are new and different, and exactly the listening descriptor is watched. Or it returns NULL,
  with every descriptor, object and allocation as before; or the process exits with status 1 and
  the descriptors are as before. (\<open>malloc\<close>, \<open>socket\<close> and \<open>epoll_create1\<close> answer addresses and descriptors not in use.)
\<close>

theorem server_create_all_or_nothing:
  fixes s :: "'z mem_scheme"
  assumes "malloc_fresh K" and "epoll_fresh K" and "socket_fresh K" and "heap_ok s"
    and "socket_server_create K ip port cbs ud s = (r, s')"
  shows "case cbs of
     None \<Rightarrow> r = Ret 0 \<and> s' = s\<lparr>trace := trace s @ [Eprint ''Callbacks are required'']\<rparr>
   | Some callbacks \<Rightarrow>
       r = Exit 1 \<and> open_fds (trace s') = open_fds (trace s) \<or>
       r = Ret 0 \<and> heap s' = heap s \<and> open_fds (trace s') = open_fds (trace s) \<and> allocated (trace s') = allocated (trace s) \<or>
       (\<exists>server sv fd ep h mgr q1 q2 q3 q4 q5 q6 q7 q8 q9.
          r = Ret server \<and> server_ok server sv ep [] s' \<and> ss_callbacks sv = callbacks \<and> ss_user_data sv = ud \<and>
          ss_running sv = 0 \<and> ss_listen_fd sv = fd \<and> ss_epoll sv = h \<and> ss_client_mgr sv = mgr \<and>
          ss_addr sv = listen_addr ip port \<and>
          trace s' = trace s @ [Call (Malloc SIZEOF_SOCKET_SERVER) q1, Call Socket q2, Call (Setsockopt_reuseaddr fd) q3,
            Call (Bind fd (listen_addr ip port)) q4, Call (Listen fd SOMAXCONN) q5, Call (Malloc SIZEOF_EPOLL_HANDLER) q6,
            Call Epoll_create q7, Call (Malloc SIZEOF_CLIENT_MANAGER) q8, Call (Epoll_add ep fd 0 (or EPOLLIN EPOLLET)) q9] \<and>
          int_of q2 = fd \<and> int_of q3 = 0 \<and> 0 \<le> int_of q4 \<and> 0 \<le> int_of q5 \<and> int_of q7 = ep \<and> int_of q9 \<noteq> -1 \<and>
          open_fds (trace s') = {fd, ep} \<union> open_fds (trace s) \<and> fd \<noteq> ep \<and> {fd, ep} \<inter> open_fds (trace s) = {} \<and>
          allocated (trace s') = {server, h, mgr} \<union> allocated (trace s) \<and> distinct [server, h, mgr] \<and>
          {server, h, mgr} \<inter> allocated (trace s) = {} \<and> watched ep (trace s') = [fd \<mapsto> 0])"
proof (cases cbs)
  case None
  then show ?thesis using assms(5) by (simp add: socket_server_create_def run_simps)
next
  case (Some callbacks)
  from wpD [OF socket_server_create_wp [OF assms(1-4)] assms(5) [unfolded Some]]
  have "create_post (listen_addr ip port) callbacks ud s r s'" .
  then show ?thesis
    unfolding Some option.case create_post_def creation_def by (elim disjE) (simp, simp, metis)
qed

text \<open>\<open>epoll_wait\<close> reports pointers that were stored for watched descriptors.\<close>

definition honest_poll :: "kernel \<Rightarrow> bool" where
  "honest_poll K \<longleftrightarrow> (\<forall>tr ep n t evs. K tr (Epoll_wait ep n t) = Ready evs \<longrightarrow>
     length evs \<le> n \<and> (\<forall>pe \<in> set evs. \<exists>fd. watched ep tr fd = Some (fst pe)))"

definition idle :: "ptr \<Rightarrow> socket_server \<Rightarrow> int \<Rightarrow> 'z mem_scheme \<Rightarrow> bool" where
  "idle server sv ep s \<longleftrightarrow> server_ok server sv ep [] s \<and> watched ep (trace s) = [ss_listen_fd sv \<mapsto> 0]"

fun wait_event :: "int \<Rightarrow> event \<Rightarrow> bool" where
  "wait_event ep (Call (Epoll_wait e n t) r) = (e = ep)"
| "wait_event ep (Perror t n) = (t = ''epoll_wait'')"
| "wait_event ep ev = False"

lemma callback_idle:
  assumes "server_ok server sv ep [] s" and "ss_listen_fd sv \<noteq> 0"
  shows "epoll_event_callback K U m 0 ev server s = (Ret (), s)"
proof -
  have "load the_server server s = (Ret sv, s)" "registry (ss_client_mgr sv) [] s"
    using assms(1) by (auto simp: run_simps elim: server_okE)
  then show ?thesis
    using assms(2) find_refines [of "ss_client_mgr sv" "[]" s 0]
    by (simp add: epoll_event_callback_def ptr_as_int_def handle_client_def run_simps)
qed

lemma dispatch_idle:
  assumes "server_ok server sv ep [] s" and "ss_listen_fd sv \<noteq> 0" and "heap s (ss_epoll sv) = Some (Handler h)"
  shows "\<forall>i \<in> set js. i < length (eh_events h) \<and> fst (eh_events h ! i) = 0 \<Longrightarrow>
    dispatch (ss_epoll sv) (epoll_event_callback K U m) server js s = (Ret (), s)"
proof (induction js)
  case (Cons i js)
  obtain ev where "eh_events h ! i = (0, ev)" using Cons.prems by (metis list.set_intros(1) prod.collapse)
  moreover have "ss_epoll sv \<noteq> 0" using server_apart [OF assms(1)] by simp
  ultimately show ?case using Cons assms(3) callback_idle [OF assms(1,2)] by (simp add: run_simps)
qed (simp add: run_simps)

lemma idle_upd:
  assumes "idle server sv ep s" and "heap s' = (heap s)(ss_epoll sv \<mapsto> Handler h)" and "eh_epoll_fd h = ep"
    and "length (eh_events h) = EPOLL_MAX_EVENTS" and "open_fds (trace s') = open_fds (trace s)"
    and "allocated (trace s') = allocated (trace s)" and "watched ep (trace s') = watched ep (trace s)"
  shows "idle server sv ep s'"
proof -
  have ok: "server_ok server sv ep [] s" using assms(1) by (simp add: idle_def)
  note ap = server_apart [OF ok]
  have "registry (ss_client_mgr sv) [] s" "handler_on (ss_epoll sv) ep s" using ok by (auto elim: server_okE)
  then have "registry (ss_client_mgr sv) [] s'" using assms(2,6) ap(2) by (auto simp: registry_def heap_ok_def handler_on_def)
  moreover have "handler_on (ss_epoll sv) ep s'" using assms(2-4) ap(6) by (simp add: handler_on_def)
  ultimately show ?thesis using ok assms ap(8) by (simp add: idle_def server_ok_def client_fds_def)
qed

text \<open>One wait leaves the idle server idle.\<close>

lemma wait_idle:
  fixes s :: "'z mem_scheme"
  assumes "honest_poll K" and "ss_listen_fd sv \<noteq> 0" and s: "idle server sv ep s"
  obtains ret s2 evs where "epoll_handler_wait K (ss_epoll sv) (-1) (Some (epoll_event_callback K U m)) server s = (Ret ret, s2)"
    and "idle server sv ep s2" and "trace s2 = trace s @ evs" and "list_all (wait_event ep) evs"
proof -
  have ok: "server_ok server sv ep [] s" using s by (simp add: idle_def)
  obtain h where h: "ss_epoll sv \<noteq> 0" "heap s (ss_epoll sv) = Some (Handler h)" "eh_epoll_fd h = ep"
    "length (eh_events h) = EPOLL_MAX_EVENTS" using ok by (auto simp: handler_on_def elim!: server_okE)
  have same: "(heap s)(ss_epoll sv \<mapsto> Handler h) = heap s" using h(2) by (simp add: fun_upd_idem)
  have ld: "load the_handler (ss_epoll sv) s = (Ret h, s)" using h by (simp add: run_simps)
  let ?q = "K (trace s) (Epoll_wait ep EPOLL_MAX_EVENTS (-1))"
  show ?thesis
  proof (cases "ready_of ?q")
    case None
    let ?s2 = "s\<lparr>trace := trace s @ [Call (Epoll_wait ep EPOLL_MAX_EVENTS (-1)) ?q, Perror ''epoll_wait'' (err_of ?q (errno s))],
      errno := err_of ?q (errno s)\<rparr>"
    have "idle server sv ep ?s2" by (rule idle_upd [OF s, where h = h]) (simp_all add: h same)
    moreover have "epoll_handler_wait K (ss_epoll sv) (-1) (Some (epoll_event_callback K U m)) server s = (Ret (-1), ?s2)"
      using h(1,3) ld None by (simp add: epoll_handler_wait_def run_simps)
    ultimately show ?thesis
      by (intro that [of "-1" ?s2 "[Call (Epoll_wait ep EPOLL_MAX_EVENTS (-1)) ?q, Perror ''epoll_wait'' (err_of ?q (errno s))]"]) simp_all
  next
    case (Some evs)
    then have q: "?q = Ready evs" by (cases ?q) auto
    have w: "watched ep (trace s) = [ss_listen_fd sv \<mapsto> 0]" using s by (simp add: idle_def)
    have "length evs \<le> EPOLL_MAX_EVENTS" "\<forall>pe \<in> set evs. \<exists>fd. watched ep (trace s) fd = Some (fst pe)"
      using assms(1) q unfolding honest_poll_def by blast+
    then have le: "length evs \<le> EPOLL_MAX_EVENTS" and null: "\<forall>pe \<in> set evs. fst pe = 0"
      unfolding w by (auto split: if_splits)
    let ?h = "h\<lparr>eh_events := evs @ drop (length evs) (eh_events h)\<rparr>"
    let ?s2 = "(after (Epoll_wait ep EPOLL_MAX_EVENTS (-1)) ?q s)\<lparr>heap := (heap s)(ss_epoll sv \<mapsto> Handler ?h)\<rparr>"
    have id: "idle server sv ep ?s2" by (rule idle_upd [OF s, where h = ?h]) (use h le in simp_all)
    then have ok2: "server_ok server sv ep [] ?s2" by (simp add: idle_def)
    have "\<forall>i \<in> set [0..<length evs]. i < length (eh_events ?h) \<and> fst (eh_events ?h ! i) = 0"
      using null le h(4) by (simp add: nth_append)
    from dispatch_idle [OF ok2 assms(2) _ this]
    have "dispatch (ss_epoll sv) (epoll_event_callback K U m) server [0..<length evs] ?s2 = (Ret (), ?s2)" by simp
    then have "epoll_handler_wait K (ss_epoll sv) (-1) (Some (epoll_event_callback K U m)) server s =
        (Ret (int (length evs)), ?s2)"
      using h ld q le by (simp add: epoll_handler_wait_def run_simps)
    then show ?thesis using id
      by (intro that [of "int (length evs)" ?s2 "[Call (Epoll_wait ep EPOLL_MAX_EVENTS (-1)) ?q]"]) simp_all
  qed
qed

lemma event_loop_idle:
  fixes s :: "'z mem_scheme"
  assumes "honest_poll K" and "ss_listen_fd sv \<noteq> 0"
  shows "idle server sv ep s \<Longrightarrow> wp (event_loop K U m n server) (\<lambda>r s'. (r = Ret () \<or> r = Out_of_fuel) \<and> idle server sv ep s' \<and>
    (\<exists>evs. trace s' = trace s @ evs \<and> list_all (wait_event ep) evs)) s"
proof (induction n arbitrary: s)
  case 0
  then show ?case by (simp add: wp_leaf)
next
  case (Suc n)
  let ?Q = "\<lambda>r s'. (r = Ret () \<or> r = Out_of_fuel) \<and> idle server sv ep s' \<and>
    (\<exists>evs. trace s' = trace s @ evs \<and> list_all (wait_event ep) evs)"
  have srv: "load the_server server s = (Ret sv, s)" using Suc.prems by (auto simp: idle_def run_simps elim: server_okE)
  obtain ret s2 evs where wait: "epoll_handler_wait K (ss_epoll sv) (-1) (Some (epoll_event_callback K U m)) server s = (Ret ret, s2)"
    and s2: "idle server sv ep s2" "trace s2 = trace s @ evs" "list_all (wait_event ep) evs"
    by (rule wait_idle [OF assms Suc.prems])
  have rest: "wp (event_loop K U m n server) ?Q s2"
    by (rule wp_mono [OF Suc.IH [OF s2(1)]]) (use s2 in auto)
  have stop: "?Q (Ret ()) s2" "?Q (Ret ()) s" using s2 Suc.prems by auto
  show ?case
    unfolding event_loop.simps
    by (rule wp_run, rule srv, rule wp_if, rule wp_run, rule wait, intro wp_intros rest) (use stop in \<open>simp_all add: wp_leaf\<close>)
qed

text \<open>
  C33. The server as it is created never serves anyone. The listening descriptor is registered
  with a NULL pointer, and \<open>epoll_event_callback\<close> takes the pointer for the descriptor: unless
  the listening descriptor happens to be 0, no event reaches \<open>handle_accept\<close>. Whatever the
  kernel reports and for as many rounds as it likes, the event loop only waits: it makes no
  call but \<open>epoll_wait\<close>, runs no callback and has no client.
\<close>

theorem server_never_accepts:
  fixes s :: "'z mem_scheme"
  assumes "honest_poll K" and "ss_listen_fd sv \<noteq> 0" and "server_ok server sv ep [] s"
    and "watched ep (trace s) = [ss_listen_fd sv \<mapsto> 0]" and "event_loop K U m n server s = (r, s')"
  shows "(r = Ret () \<or> r = Out_of_fuel) \<and> server_ok server sv ep [] s' \<and>
    (\<exists>evs. trace s' = trace s @ evs \<and> list_all (wait_event ep) evs)"
proof -
  have "idle server sv ep s" using assms(3,4) by (simp add: idle_def)
  from wpD [OF event_loop_idle [OF assms(1,2) this] assms(5)] show ?thesis by (simp add: idle_def)
qed

lemma open_fds_nonneg: "fd \<in> open_fds tr \<Longrightarrow> 0 \<le> fd"
proof (induction tr rule: rev_induct)
  case (snoc ev tr)
  then show ?case
    by (cases "(ev, open_fds tr)" rule: fd_event.cases) (auto split: if_splits option.splits simp: peer_of_Some)
qed simp

text \<open>
  Destroying a server gives back its own objects and its two descriptors, but not its
  clients' descriptors: every node, the manager, the handler and the server are freed, and the
  connections stay open with nothing left that knows them.
\<close>

theorem server_destroy_leaks_clients:
  fixes s :: "'z mem_scheme"
  assumes "server_ok server sv ep cs s"
  shows "\<exists>s'. socket_server_destroy K server s = (Ret (), s') \<and>
    dom (heap s') = dom (heap s) - ({server, ss_epoll sv, ss_client_mgr sv} \<union> fst ` set cs) \<and>
    open_fds (trace s') = open_fds (trace s) - {ss_listen_fd sv, ep} \<and>
    set (client_fds cs) \<subseteq> open_fds (trace s')"
proof -
  note ap = server_apart [OF assms]
  from assms have o: "heap s server = Some (Server sv)" "handler_on (ss_epoll sv) ep s" "registry (ss_client_mgr sv) cs s"
    "ss_listen_fd sv \<in> open_fds (trace s)" "ep \<in> open_fds (trace s)"
    "\<forall>fd \<in> set (client_fds cs). fd \<in> open_fds (trace s) \<and> fd \<noteq> ss_listen_fd sv \<and> fd \<noteq> ep"
    by (auto elim!: server_okE)
  have neg: "ss_listen_fd sv \<noteq> -1" "ep \<noteq> -1" using open_fds_nonneg o(4,5) by fastforce+
  let ?s1 = "after (Close (ss_listen_fd sv)) (K (trace s) (Close (ss_listen_fd sv))) s"
  have "handler_on (ss_epoll sv) ep ?s1" using o(2) by simp
  then obtain s2 where s2: "epoll_handler_destroy K (ss_epoll sv) ?s1 = (Ret (), s2)"
    "heap s2 = (heap s)(ss_epoll sv := None)" "open_fds (trace s2) = open_fds (trace s) - {ss_listen_fd sv, ep}"
    "allocated (trace s2) = allocated (trace s) - {ss_epoll sv}"
    using epoll_destroy_run [of "ss_epoll sv" ep ?s1 K] neg(2) by auto
  have "registry (ss_client_mgr sv) cs s2"
    using o(3) s2(2,4) ap by (auto simp: registry_def heap_ok_def seg_frame)
  note d = destroy_refines [OF this, of K]
  obtain r s3 where run3: "client_manager_destroy K (ss_client_mgr sv) s2 = (r, s3)" by fastforce
  from wpD [OF d run3] obtain qs where s3: "r = Ret ()"
    "trace s3 = trace s2 @ map2 (\<lambda>p q. Call (Free p) q) (map fst cs @ [ss_client_mgr sv]) qs"
    "heap s3 = (\<lambda>x. if x \<in> insert (ss_client_mgr sv) (fst ` set cs) then None else heap s2 x)" by blast
  have free: "fold fd_event (map2 (\<lambda>p q. Call (Free p) q) ps qs) F = F" for ps qs F
    by (induction ps arbitrary: qs) (auto simp: zip_Cons1 split: list.split)
  have f3: "open_fds (trace s3) = open_fds (trace s) - {ss_listen_fd sv, ep}" using s3(2) s2(3) by (simp add: free)
  have h3: "heap s3 server = Some (Server sv)" using s3(3) s2(2) o(1) ap by simp
  let ?s4 = "(after (Free server) (K (trace s3) (Free server)) s3)\<lparr>heap := (heap s3)(server := None)\<rparr>"
  have "socket_server_destroy K server s = (Ret (), ?s4)"
    using o(1) ap neg(1) s2(1) run3 s3(1) h3 by (simp add: socket_server_destroy_def run_simps free_c_def)
  moreover have "dom (heap ?s4) = dom (heap s) - ({server, ss_epoll sv, ss_client_mgr sv} \<union> fst ` set cs)"
    using s3(3) s2(2) by (auto simp: dom_def split: if_splits)
  moreover have "open_fds (trace ?s4) = open_fds (trace s) - {ss_listen_fd sv, ep}" using f3 by simp
  ultimately show ?thesis using o(6) by blast
qed

lemma idle_quiet: "quiet s s' \<Longrightarrow> idle server sv ep s \<Longrightarrow> idle server sv ep s'"
  using server_quiet [of s s'] by (simp add: idle_def quiet_def)

text \<open>The same for a server as it is created, under a kernel that reports what was registered.\<close>

lemma server_start_idle:
  fixes s :: "'z mem_scheme"
  assumes "honest_poll K" and "quiet_user U" and "ss_listen_fd sv \<noteq> 0" and "idle server sv ep s"
  shows "wp (socket_server_start K U m n server) (\<lambda>r s'. (r = Ret 0 \<or> r = Out_of_fuel) \<and>
    idle server (sv\<lparr>ss_running := 1\<rparr>) ep s') s"
proof -
  let ?sv = "sv\<lparr>ss_running := 1\<rparr>"
  let ?s1 = "s\<lparr>heap := (heap s)(server \<mapsto> Server ?sv)\<rparr>"
  have ok: "server_ok server sv ep [] s" using assms(4) by (simp add: idle_def)
  then have "server_ok server ?sv ep [] ?s1" by (rule server_ok_fields) simp_all
  then have s1: "idle server ?sv ep ?s1" using assms(4) by (simp add: idle_def)
  have srv: "heap s server = Some (Server sv)" "server \<noteq> 0" using ok by (auto elim: server_okE)
  have ld: "load the_server server s' = (Ret ?sv, s')" if "idle server ?sv ep s'" for s'
    using that by (auto simp: idle_def run_simps elim: server_okE)
  let ?Q = "\<lambda>r s'. (r = Ret 0 \<or> r = Out_of_fuel) \<and> idle server ?sv ep s'"
  have fin: "wp (bind_c (load the_server server) (\<lambda>sv. bind_c (call_opt U (on_stop (ss_callbacks sv)) (Cb_stop (ss_user_data sv)))
      (\<lambda>_. return_c 0))) ?Q s3" if "idle server ?sv ep s3" for s3
    by (rule wp_run, rule ld [OF that], rule call_opt_wp [OF assms(2)]) (simp add: wp_leaf idle_quiet [OF _ that])
  have l: "ss_listen_fd ?sv \<noteq> 0" using assms(3) by simp
  show "wp (socket_server_start K U m n server) ?Q s"
    unfolding socket_server_start_def if_not_P [OF srv(2)] flat_simps
    apply (rule wp_set_server [OF srv], rule wp_run, rule ld [OF s1], rule call_opt_wp [OF assms(2)])
    subgoal premises q for s2
      by (rule wp_bind [OF event_loop_idle [OF assms(1) l idle_quiet [OF q s1]]]) (auto intro: fin)
    done
qed

text \<open>
  C8. The life of a server, from creation over any run of the event loop to destruction, with callbacks that
  keep their hands off descriptors and memory and a kernel that answers fresh descriptors and addresses. Whatever happened in
  between, destruction returns and leaves exactly the descriptors that were open before the
  creation, plus one for each client that was still connected, all of them new: these are
  lost. Under a kernel that reports the pointers it was given, and if the listening descriptor is not 0, there
  are none, because no client was ever accepted.
\<close>

theorem server_lifetime:
  fixes s :: "'z mem_scheme"
  assumes "epoll_fresh K" and "socket_fresh K" and "well_behaved K U" and "heap_ok s"
    and "socket_server_create K ip port (Some cbs) ud s = (Ret server, s1)" and "server \<noteq> 0"
    and "socket_server_start K U m n server s1 = (Ret x, s2)"
  shows "x = 0 \<and> (\<exists>s3 left. socket_server_destroy K server s2 = (Ret (), s3) \<and>
    open_fds (trace s3) = open_fds (trace s) \<union> left \<and> left \<inter> open_fds (trace s) = {} \<and>
    (\<exists>sv ep cs. server_ok server sv ep cs s2 \<and> left = set (client_fds cs) \<and>
       (honest_poll K \<and> ss_listen_fd sv \<noteq> 0 \<longrightarrow> left = {})))"
proof -
  have mf: "malloc_fresh K" "quiet_user U" using assms(3) by (simp_all add: well_behaved_def)
  from wpD [OF socket_server_create_wp [OF mf(1) assms(1,2,4)] assms(5)] assms(6)
  obtain sv ep where c: "server_ok server sv ep [] s1" "open_fds (trace s1) = {ss_listen_fd sv, ep} \<union> open_fds (trace s)"
    "{ss_listen_fd sv, ep} \<inter> open_fds (trace s) = {}" "watched ep (trace s1) = [ss_listen_fd sv \<mapsto> 0]"
    by (auto simp: create_post_def)
  let ?sv = "sv\<lparr>ss_running := 1\<rparr>"
  from wpD [OF server_start_wp [OF assms(3) c(1)] assms(7)]
  obtain cs where x: "x = 0" and cs: "server_ok server ?sv ep cs s2" "open_fds (trace s2) - set (client_fds cs) = open_fds (trace s1)"
    by (auto simp: serving_def client_fds_def)
  have "cs = []" if "honest_poll K" "ss_listen_fd sv \<noteq> 0"
  proof -
    have "idle server sv ep s1" using c by (simp add: idle_def)
    from wpD [OF server_start_idle [OF that(1) mf(2) that(2) this] assms(7)]
    have "server_ok server ?sv ep [] s2" by (simp add: idle_def)
    then have "registry (ss_client_mgr sv) [] s2" "registry (ss_client_mgr sv) cs s2" using cs(1) by (auto elim!: server_okE)
    then show ?thesis by (auto simp: registry_def)
  qed
  moreover obtain s3 where s3: "socket_server_destroy K server s2 = (Ret (), s3)"
    "open_fds (trace s3) = open_fds (trace s2) - {ss_listen_fd sv, ep}" "set (client_fds cs) \<subseteq> open_fds (trace s3)"
    using server_destroy_leaks_clients [OF cs(1), of K] by auto
  moreover have "open_fds (trace s3) = open_fds (trace s) \<union> set (client_fds cs)" "set (client_fds cs) \<inter> open_fds (trace s) = {}"
    using cs c(2,3) s3(2,3) by auto
  ultimately show ?thesis using x cs(1) s3 by (intro conjI exI [of _ s3] exI [of _ "set (client_fds cs)"] exI [of _ ?sv] exI [of _ ep] exI [of _ cs]) (auto simp: client_fds_def)
qed


lemma lookup_entry: "fd \<in> set (client_fds cs) \<Longrightarrow> \<exists>c \<in> set cs. on_fd fd c \<and> lookup fd cs = fst c"
  by (induction cs) (auto simp: client_fds_def on_fd_def)

lemma chain_info: "seg h p cs q \<Longrightarrow> c \<in> set cs \<Longrightarrow> \<exists>nx. h (fst c) = Some (Node \<lparr>cn_info = snd c, cn_next = nx\<rparr>)"
  by (induction cs arbitrary: p) auto

text \<open>
  \<open>socket_server_disconnect\<close> only closes the descriptor: the client stays registered and
  counted, is still found under a descriptor that is not open any more, and its slot of the
  thousand is not given back.
\<close>

theorem server_disconnect_keeps_entry:
  fixes s :: "'z mem_scheme"
  assumes "server_ok server sv ep cs s" and "fd \<in> set (client_fds cs)"
  shows "\<exists>c s'. client_manager_find (ss_client_mgr sv) fd s = (Ret c, s) \<and> c \<noteq> 0 \<and>
    socket_server_disconnect K c s = (Ret (), s') \<and> fd \<notin> open_fds (trace s') \<and>
    client_manager_find (ss_client_mgr sv) fd s' = (Ret c, s') \<and>
    client_manager_count (ss_client_mgr sv) s' = (Ret (int (length cs)), s')"
proof -
  have reg: "registry (ss_client_mgr sv) cs s" using assms(1) by (rule server_okE)
  obtain c where c: "c \<in> set cs" "on_fd fd c" "lookup fd cs = fst c"
    using lookup_entry [OF assms(2)] by blast
  from reg obtain p where "chain (heap s) p cs" by (rule registryE)
  from seg_nodes [OF this c(1)] chain_info [OF this c(1)] obtain nx where
    n: "fst c \<noteq> 0" "heap s (fst c) = Some (Node \<lparr>cn_info = snd c, cn_next = nx\<rparr>)" by auto
  let ?s' = "after (Close fd) (K (trace s) (Close fd)) s"
  have "socket_server_disconnect K (fst c) s = (Ret (), ?s')"
    using n c(2) by (simp add: socket_server_disconnect_def run_simps on_fd_def)
  moreover have "registry (ss_client_mgr sv) cs ?s'" using reg by simp
  ultimately show ?thesis
    using find_refines [OF reg, of fd] find_refines [of "ss_client_mgr sv" cs ?s' fd] count_refines [of "ss_client_mgr sv" cs ?s'] c(3) n(1)
    by (intro exI [of _ "fst c"] exI [of _ ?s']) simp
qed

text \<open>How often a descriptor was closed.\<close>

fun closes :: "int \<Rightarrow> event list \<Rightarrow> nat" where
  "closes fd [] = 0"
| "closes fd (Call (Close f) r # tr) = (if f = fd then 1 else 0) + closes fd tr"
| "closes fd (ev # tr) = closes fd tr"

lemma closes_append [simp]: "closes fd (tr @ tr') = closes fd tr + closes fd tr'"
  by (induction fd tr rule: closes.induct) auto

lemma closes_mem_step: "mem_step A s s' \<Longrightarrow> closes fd (trace s') = closes fd (trace s)"
proof -
  have "list_all mem_event evs \<Longrightarrow> closes fd evs = 0" for evs
    by (induction evs) (auto elim!: mem_event.elims)
  then show "mem_step A s s' \<Longrightarrow> closes fd (trace s') = closes fd (trace s)" by (auto simp: mem_step_def)
qed

text \<open>A user who hangs up on the client as soon as data arrives.\<close>

primrec hang_up :: "kernel \<Rightarrow> cb_args \<Rightarrow> ('z mem_scheme, unit) prog" where
  "hang_up K (Cb_start ud) = return_c ()"
| "hang_up K (Cb_stop ud) = return_c ()"
| "hang_up K (Cb_connection c ud) = return_c ()"
| "hang_up K (Cb_disconnected c ud) = return_c ()"
| "hang_up K (Cb_received c b n ud) = socket_server_disconnect K c"

lemma drop_client_closes:
  fixes s :: "'z mem_scheme"
  assumes "heap s server = Some (Server sv)" and "server \<noteq> 0" and "handler_on (ss_epoll sv) ep s"
    and "registry (ss_client_mgr sv) cs s"
  shows "wp (drop_client K (\<lambda>g. hang_up K) server fd client) (\<lambda>r s'. r = Ret () \<and> closes fd (trace s') = closes fd (trace s) + 1) s"
proof -
  have srv: "load the_server server s = (Ret sv, s)" using assms(1,2) by (simp add: run_simps)
  have call: "call_opt (\<lambda>g. hang_up K) f (Cb_disconnected client ud) = return_c ()" for f ud
    by (cases f) (simp_all add: call_opt_def)
  have last: "wp (client_manager_remove K (ss_client_mgr sv) fd) (\<lambda>r s'. r = Ret () \<and> closes fd (trace s') = closes fd (trace s) + 1) s1"
    if "registry (ss_client_mgr sv) cs s1" "closes fd (trace s1) = closes fd (trace s) + 1" for s1
    by (rule wp_mono [OF remove_refines [OF that(1)]]) (use that(2) in \<open>auto simp: removed_def split: if_splits\<close>)
  show ?thesis
    unfolding drop_client_def epoll_handler_remove_def call flat_simps
    apply (rule wp_run, rule srv, rule wp_run, rule srv)
    using assms by (intro wp_intros last) (auto simp: handler_on_def)
qed

text \<open>
  C37. Hanging up inside \<open>on_received\<close> closes the descriptor twice. After
  \<open>socket_server_disconnect\<close> the receive loop reads the closed descriptor, takes the error for
  the connection's and closes the same number again, by then possibly another file's.
\<close>

theorem disconnect_in_callback_closes_twice:
  fixes s :: "'z mem_scheme"
  assumes "server_ok server sv ep cs s" and "fd \<in> set (client_fds cs)" and "on_received (ss_callbacks sv) = Some g"
    and "K (trace s) (Recv fd 1024 No_flag) = Bytes b" and "b \<noteq> []" and "length b \<le> 1024"
    and "\<forall>tr. fd \<notin> open_fds tr \<longrightarrow> K tr (Recv fd 1024 No_flag) = Err EBADF"
  shows "\<exists>s'. handle_client K (\<lambda>g. hang_up K) (Suc (Suc n)) server fd s = (Ret (), s') \<and>
    closes fd (trace s') = closes fd (trace s) + 2"
proof -
  have o: "heap s server = Some (Server sv)" "server \<noteq> 0" "handler_on (ss_epoll sv) ep s" "registry (ss_client_mgr sv) cs s"
    using assms(1) by (auto elim: server_okE)
  obtain c where c: "c \<in> set cs" "on_fd fd c" "lookup fd cs = fst c" using lookup_entry [OF assms(2)] by blast
  from o(4) obtain p where "chain (heap s) p cs" by (rule registryE)
  from seg_nodes [OF this c(1)] chain_info [OF this c(1)] obtain nx where
    nd: "fst c \<noteq> 0" "heap s (fst c) = Some (Node \<lparr>cn_info = snd c, cn_next = nx\<rparr>)" by auto
  let ?s1 = "after (Recv fd 1024 No_flag) (Bytes b) s"
  let ?s2 = "after (Close fd) (K (trace ?s1) (Close fd)) ?s1"
  let ?s3 = "after (Recv fd 1024 No_flag) (Err EBADF) ?s2"
  let ?s4 = "?s3\<lparr>trace := trace ?s3 @ [Perror ''recv'' EBADF]\<rparr>"
  have k2: "K (trace ?s2) (Recv fd 1024 No_flag) = Err EBADF"
    using assms(7) [rule_format, of "trace ?s2"] by simp
  have "handle_client K (\<lambda>g. hang_up K) (Suc (Suc n)) server fd s =
    receive_loop K (\<lambda>g. hang_up K) (Suc (Suc n)) server fd (fst c) s"
    using o(1,2) find_refines [OF o(4), of fd] c(3) nd(1) by (simp add: handle_client_def run_simps)
  also have "\<dots> = receive_loop K (\<lambda>g. hang_up K) (Suc n) server fd (fst c) ?s2"
    unfolding receive_loop.simps(2) [of K _ "Suc n"]
    using assms(3-6) o(1,2) nd c(2)
    by (simp add: run_simps BUFFER_SIZE_def call_opt_def socket_server_disconnect_def on_fd_def)
  also have "\<dots> = drop_client K (\<lambda>g. hang_up K) server fd (fst c) ?s4"
    using k2 by (simp add: run_simps BUFFER_SIZE_def EBADF_def EAGAIN_def err_of_def)
  finally have eq: "handle_client K (\<lambda>g. hang_up K) (Suc (Suc n)) server fd s = drop_client K (\<lambda>g. hang_up K) server fd (fst c) ?s4" .
  have "wp (drop_client K (\<lambda>g. hang_up K) server fd (fst c)) (\<lambda>r s'. r = Ret () \<and> closes fd (trace s') = closes fd (trace ?s4) + 1) ?s4"
    by (rule drop_client_closes [where sv = sv and ep = ep and cs = cs]) (use o in \<open>simp_all add: registry_def heap_ok_def handler_on_def\<close>)
  then show ?thesis unfolding eq by (cases "drop_client K (\<lambda>g. hang_up K) server fd (fst c) ?s4") (simp add: wp_def)
qed

section \<open>Concrete runs\<close>

lemma one_pending_behaves: "well_behaved one_pending recorder"
  using one_pending_fresh recorder_quiet
  by (simp add: well_behaved_def recv_fits_def poll_fits_def one_pending_def sample_kernel_def)

theorem server_start_safe_witness:
  "\<exists>r s' cs'. socket_server_start one_pending recorder 3 5 100 server_mem = (r, s') \<and> (r = Ret 0 \<or> r = Out_of_fuel) \<and>
     open_fds (trace s') - set (client_fds cs') = {3, 4}"
proof -
  obtain r s' where run: "socket_server_start one_pending recorder 3 5 100 server_mem = (r, s')" by fastforce
  have "open_fds (trace server_mem) - set (client_fds [sample_client]) = {3, 4}"
    by (auto simp: server_mem_def open_fds_def client_fds_def sample_client_def new_client_def any_addr_def)
  with server_start_safe [OF one_pending_behaves server_mem_ok run] run show ?thesis by auto
qed

definition idle_mem :: mem where
  "idle_mem = \<lparr>trace = [Call (Malloc 96) (Val 100), Call Socket (Val 3), Call (Malloc 772) (Val 200),
       Call Epoll_create (Val 4), Call (Malloc 16) (Val 300), Call (Epoll_add 4 3 0 EPOLLIN) (Val 0)],
     errno = 0,
     heap = [100 \<mapsto> Server sample_server, 200 \<mapsto> Handler \<lparr>eh_epoll_fd = 4, eh_events = replicate EPOLL_MAX_EVENTS (0, 0)\<rparr>,
       300 \<mapsto> Manager \<lparr>cm_clients = 0, cm_count = 0\<rparr>]\<rparr>"

lemma idle_mem_ok: "server_ok 100 sample_server 4 [] idle_mem" "watched 4 (trace idle_mem) = [3 \<mapsto> 0]"
proof -
  have "open_fds (trace idle_mem) = {3, 4}" "allocated (trace idle_mem) = {100, 200, 300}"
    by (auto simp: idle_mem_def open_fds_def allocated_def ptr_of_def)
  then show "server_ok 100 sample_server 4 [] idle_mem"
    unfolding server_ok_def registry_def heap_ok_def
    by (auto simp: idle_mem_def sample_server_def zero_server_def handler_on_def client_fds_def)
  show "watched 4 (trace idle_mem) = [3 \<mapsto> 0]" by (auto simp: idle_mem_def watched_def)
qed

text \<open>Someone keeps knocking: the listening descriptor is reported ready every time.\<close>

definition knocking :: kernel where
  "knocking tr c = (case c of Epoll_wait ep n t \<Rightarrow> if watched ep tr 3 = Some 0 \<and> 0 < n then Ready [(0, EPOLLIN)] else Err EINTR
     | _ \<Rightarrow> sample_kernel tr c)"

theorem server_never_accepts_witness:
  "\<exists>r s'. event_loop knocking recorder 3 7 100 idle_mem = (r, s') \<and> server_ok 100 sample_server 4 [] s'"
proof -
  obtain r s' where run: "event_loop knocking recorder 3 7 100 idle_mem = (r, s')" by fastforce
  have "honest_poll knocking" by (auto simp: honest_poll_def knocking_def split: if_splits)
  moreover have "ss_listen_fd sample_server = 3" by (simp add: sample_server_def)
  ultimately show ?thesis
    using server_never_accepts [OF _ _ idle_mem_ok(1) _ run] idle_mem_ok(2) run by simp
qed

theorem server_destroy_leaks_clients_witness:
  "\<exists>s'. socket_server_destroy sample_kernel 100 server_mem = (Ret (), s') \<and> 5 \<in> open_fds (trace s')"
  using server_destroy_leaks_clients [OF server_mem_ok, of sample_kernel]
  by (auto simp: client_fds_def sample_client_def new_client_def)

theorem server_disconnect_keeps_entry_witness:
  "\<exists>c s'. socket_server_disconnect sample_kernel c server_mem = (Ret (), s') \<and> 5 \<notin> open_fds (trace s') \<and>
     client_manager_find 300 5 s' = (Ret c, s')"
proof -
  have "5 \<in> set (client_fds [sample_client])" by (simp add: client_fds_def sample_client_def new_client_def)
  from server_disconnect_keeps_entry [OF server_mem_ok this, of sample_kernel] show ?thesis
    by (auto simp: sample_server_def)
qed

definition cut_off :: kernel where
  "cut_off tr c = (case c of Recv fd n f \<Rightarrow> (if fd \<in> open_fds tr then Bytes (take n ''bye'') else Err EBADF) | _ \<Rightarrow> sample_kernel tr c)"

theorem disconnect_in_callback_closes_twice_witness:
  "\<exists>s'. handle_client cut_off (\<lambda>g. hang_up cut_off) (Suc (Suc 0)) 100 5 server_mem = (Ret (), s') \<and> closes 5 (trace s') = 2"
proof -
  have f: "5 \<in> set (client_fds [sample_client])" by (simp add: client_fds_def sample_client_def new_client_def)
  have g: "on_received (ss_callbacks sample_server) = Some 1" by (simp add: sample_server_def no_callbacks_def)
  have "5 \<in> open_fds (trace server_mem)" using server_mem_ok f by (auto elim!: server_okE)
  then have k: "cut_off (trace server_mem) (Recv 5 1024 No_flag) = Bytes ''bye''" by (simp add: cut_off_def)
  have e: "\<forall>tr. 5 \<notin> open_fds tr \<longrightarrow> cut_off tr (Recv 5 1024 No_flag) = Err EBADF" by (simp add: cut_off_def)
  have z: "closes 5 (trace server_mem) = 0" by (simp add: server_mem_def)
  from disconnect_in_callback_closes_twice [where K = cut_off and n = 0, OF server_mem_ok f g k _ _ e] show ?thesis unfolding z by (simp add: numeral_2_eq_2)
qed

text \<open>A system in which everything is granted, until the first wait fails.\<close>

definition failing_wait :: kernel where
  "failing_wait tr c = (case c of Epoll_wait ep n t \<Rightarrow> Err EBADF | _ \<Rightarrow> sample_kernel tr c)"

lemma failing_wait_behaves: "well_behaved failing_wait recorder" "epoll_fresh failing_wait" "socket_fresh failing_wait" "malloc_fresh failing_wait"
proof -
  show "malloc_fresh failing_wait" using sample_malloc_fresh by (simp add: malloc_fresh_def failing_wait_def)
  show "well_behaved failing_wait recorder"
    using sample_malloc_fresh recorder_quiet
    by (simp add: well_behaved_def malloc_fresh_def accept_fresh_def recv_fits_def poll_fits_def failing_wait_def sample_kernel_def)
  show "epoll_fresh failing_wait" using sample_epoll_fresh by (simp add: epoll_fresh_def failing_wait_def)
  show "socket_fresh failing_wait" using fresh_fd(1) by (simp add: socket_fresh_def failing_wait_def sample_kernel_def)
qed

lemma sample_create: "\<exists>server s1. socket_server_create failing_wait None 8080 (Some no_callbacks) 0 empty_mem = (Ret server, s1) \<and> server \<noteq> 0"
  by (simp add: socket_server_create_def alloc_c_def empty_mem_def run_simps failing_wait_def sample_kernel_def ptr_of_def fresh_fd_def open_fds_def
     set_server_def socket_defs epoll_handler_create_def client_manager_create_def epoll_handler_add_def)

theorem server_create_all_or_nothing_witness:
  "\<exists>server s' fd ep q1 q2 q3 q4 q5. socket_server_create failing_wait None 8080 (Some no_callbacks) 0 empty_mem = (Ret server, s') \<and>
     server \<noteq> 0 \<and> open_fds (trace s') = {fd, ep} \<and> fd \<noteq> ep \<and> watched ep (trace s') = [fd \<mapsto> 0] \<and>
     take 5 (trace s') = [Call (Malloc SIZEOF_SOCKET_SERVER) q1, Call Socket q2, Call (Setsockopt_reuseaddr fd) q3,
       Call (Bind fd (listen_addr None 8080)) q4, Call (Listen fd SOMAXCONN) q5]"
proof -
  obtain server s1 where c: "socket_server_create failing_wait None 8080 (Some no_callbacks) 0 empty_mem = (Ret server, s1)" "server \<noteq> 0"
    using sample_create by blast
  have "trace empty_mem = []" by (simp add: empty_mem_def)
  moreover note server_create_all_or_nothing [OF failing_wait_behaves(4,2,3) empty_heap_ok c(1)] c
  ultimately show ?thesis by (auto simp: open_fds_def)
qed

lemma failing_start:
  assumes "server_ok server sv ep [] s" and "ss_callbacks sv = no_callbacks"
  shows "\<exists>s'. socket_server_start failing_wait recorder 0 1 server s = (Ret 0, s')"
proof -
  obtain h where h: "heap s server = Some (Server sv)" "server \<noteq> 0" "ss_epoll sv \<noteq> 0" "ss_epoll sv \<noteq> server"
    "heap s (ss_epoll sv) = Some (Handler h)"
    using assms(1) server_apart [OF assms(1)] by (auto simp: handler_on_def elim!: server_okE)
  then show ?thesis
    by (simp add: socket_server_start_def set_server_def run_simps epoll_handler_wait_def failing_wait_def assms(2) call_opt_def
        no_callbacks_def EBADF_def EINTR_def err_of_def)
qed

theorem server_lifetime_witness:
  "\<exists>server s1 s2 s3. socket_server_create failing_wait None 8080 (Some no_callbacks) 0 empty_mem = (Ret server, s1) \<and>
     socket_server_start failing_wait recorder 0 1 server s1 = (Ret 0, s2) \<and>
     socket_server_destroy failing_wait server s2 = (Ret (), s3) \<and> open_fds (trace empty_mem) \<subseteq> open_fds (trace s3)"
proof -
  obtain server s1 where c: "socket_server_create failing_wait None 8080 (Some no_callbacks) 0 empty_mem = (Ret server, s1)" "server \<noteq> 0"
    using sample_create by blast
  note b = failing_wait_behaves
  from wpD [OF socket_server_create_wp [OF b(4,2,3) empty_heap_ok] c(1)] c(2)
  obtain sv ep where "server_ok server sv ep [] s1" "ss_callbacks sv = no_callbacks" by (auto simp: create_post_def)
  then obtain s2 where s2: "socket_server_start failing_wait recorder 0 1 server s1 = (Ret 0, s2)" using failing_start by blast
  from server_lifetime [OF b(2,3,1) empty_heap_ok c s2] c s2 show ?thesis by blast
qed

end
