(* ===== verification/Server_Traffic.thy ===== *)
theory Server_Traffic
  imports Server_Life
begin

text \<open>
  What passes through a server (\<^verbatim>\<open>src/internal/libsocket.c\<close>): which bytes reach the user's
  \<open>on_received\<close>, for one event and over a whole run of \<open>socket_server_start\<close>, and which calls may
  make the event loop wait. The definitions are those of \<open>Socket_Server\<close>; the loop lemma is
  \<open>server_start_runs\<close> of \<open>Server_Life\<close>, at a further invariant.
\<close>

section \<open>One handler\<close>

text \<open>What \<open>recv\<close> gave, chunk by chunk, with the descriptor.\<close>

fun received :: "event list \<Rightarrow> (int \<times> char list) list" where
  "received [] = []"
| "received (Call (Recv f n fl) (Bytes b) # tr) = (if b \<noteq> [] then (f, b) # received tr else received tr)"
| "received (ev # tr) = received tr"

lemma received_append [simp]: "received (tr @ tr') = received tr @ received tr'"
  by (induction tr rule: received.induct) auto

lemma received_none: "bytes_of r = None \<Longrightarrow> received (Call (Recv f n fl) r # tr) = received tr"
  by (cases r) auto

lemma chunks_received: "chunks fd tr = map snd (filter (\<lambda>x. fst x = fd) (received tr))"
  by (induction fd tr rule: chunks.induct) auto

text \<open>
  What a handler for \<open>fd\<close> adds: chunks from this descriptor, each handed on for \<open>client\<close>, and no read that
  may block.
\<close>

definition extends_delivery :: "int \<Rightarrow> ptr \<Rightarrow> 'z mem_scheme \<Rightarrow> 'z mem_scheme \<Rightarrow> bool" where
  "extends_delivery fd client s s' \<longleftrightarrow> blocking_reads {} (trace s') = blocking_reads {} (trace s) \<and>
     (\<exists>bs. received (trace s') = received (trace s) @ map (Pair fd) bs \<and>
        delivered (trace s') = delivered (trace s) @ map (Pair client) bs)"

text \<open>Nothing received, nothing delivered, no read that may block.\<close>

definition no_traffic :: "'z mem_scheme \<Rightarrow> 'z mem_scheme \<Rightarrow> bool" where
  "no_traffic s s' \<longleftrightarrow> received (trace s') = received (trace s) \<and> delivered (trace s') = delivered (trace s) \<and>
     blocking_reads {} (trace s') = blocking_reads {} (trace s)"

fun silent :: "event \<Rightarrow> bool" where
  "silent (Call (Recv fd n f) r) = False"
| "silent (Logged l t as) = False"
| "silent ev = True"

lemma silent_no_traffic:
  assumes "extends silent (trace s) (trace s')"
  shows "no_traffic s s'"
proof -
  have "received evs = [] \<and> delivered evs = [] \<and> blocking_reads N evs = []" if "list_all silent evs" for N evs
    using that
  proof (induction evs arbitrary: N)
    case (Cons ev evs)
    then show ?case by (cases ev rule: silent.cases) auto
  qed simp
  with assms show ?thesis by (auto simp: extends_def no_traffic_def)
qed

lemma mem_event_silent: "mem_event ev \<Longrightarrow> silent ev"
  by (cases ev rule: mem_event.cases) auto

lemma mem_step_no_traffic: "mem_step A s s' \<Longrightarrow> no_traffic s s'"
  by (rule silent_no_traffic) (auto simp: mem_step_def extends_def mem_event_silent list.pred_mono_strong)

text \<open>Accepting reads nothing.\<close>

lemma handle_accept_silent:
  "keeps (\<lambda>s. extends silent tr (trace s)) (handle_accept K recorder n server :: ('z mem_scheme, unit) prog)"
proof (induction n)
  case (Suc n)
  have U: "keeps (\<lambda>s. extends silent tr (trace s)) (call_opt recorder g (Cb_connection c ud) :: ('z mem_scheme, unit) prog)" for g c ud
    by (cases g) (simp_all add: call_opt_def recorder_def keeps_return)
  show ?case
    unfolding handle_accept.simps tcp_socket_accept_def tcp_socket_set_nonblocking_def epoll_handler_add_def
    by (intro keeps_intros keeps_case_prod keeps_one_call keeps_message keeps_manager U Suc.IH) simp_all
qed (simp add: keeps_fuel)

lemma extends_no_traffic:
  "no_traffic s s' \<Longrightarrow> extends_delivery fd client s s'"
  "no_traffic s s1 \<Longrightarrow> extends_delivery fd client s1 s' \<longleftrightarrow> extends_delivery fd client s s'"
  by (auto simp: no_traffic_def extends_delivery_def)

lemma drop_client_silent:
  fixes s :: "'z mem_scheme"
  assumes ok: "server_ok server sv ep cs s"
  shows "wp (drop_client K recorder server fd client) (\<lambda>r s'. no_traffic s s') s"
proof -
  have srv: "load the_server server s = (Ret sv, s)" and reg: "registry (ss_client_mgr sv) cs s"
    and on: "handler_on (ss_epoll sv) ep s" using ok by (auto simp: run_simps elim: server_okE)
  have call: "call_opt recorder f (Cb_disconnected client ud) = return_c ()" for f ud
    by (cases f) (simp_all add: call_opt_def recorder_def)
  have last: "wp (client_manager_remove K (ss_client_mgr sv) fd) (\<lambda>r s'. no_traffic s s') s1"
    if "registry (ss_client_mgr sv) cs s1" "no_traffic s s1" for s1
    by (rule wp_mono [OF remove_refines [OF that(1)]])
      (use that in \<open>auto simp: removed_def no_traffic_def dest!: mem_step_no_traffic\<close>)
  show ?thesis
    unfolding drop_client_def epoll_handler_remove_def call flat_simps
    apply (rule wp_run, rule srv, rule wp_run, rule srv)
    using on reg by (intro wp_intros last) (auto simp: handler_on_def no_traffic_def)
qed

lemma receive_loop_delivers:
  fixes s :: "'z mem_scheme"
  assumes "recv_fits K" and "on_received (ss_callbacks sv) = Some g" and "fd \<in> set (client_fds cs)"
  shows "server_ok server sv ep cs s \<Longrightarrow>
    wp (receive_loop K recorder n server fd client) (\<lambda>r s'. extends_delivery fd client s s') s"
proof (induction n arbitrary: s)
  case 0
  then show ?case by (simp add: wp_leaf extends_delivery_def)
next
  case (Suc n)
  have nb: "fd \<in> nonblocking (trace s)" using Suc.prems assms(3) by (auto elim: server_okE)
  have upd: "server_ok server sv ep cs s1" if "heap s1 = heap s" "open_fds (trace s1) = open_fds (trace s)"
    "allocated (trace s1) = allocated (trace s)" "watched ep (trace s1) = watched ep (trace s)"
    "nonblocking (trace s1) = nonblocking (trace s)" for s1
    by (rule server_ok_upd [OF Suc.prems that])
  have gone: "wp (drop_client K recorder server fd client) (\<lambda>r s'. extends_delivery fd client s s') s1"
    if "server_ok server sv ep cs s1" "no_traffic s s1" for s1
    by (rule wp_mono [OF drop_client_silent [OF that(1)]]) (use that(2) extends_no_traffic in blast)
  have got: "wp (bind_c (load the_server server) (\<lambda>sv. bind_c (call_opt recorder (on_received (ss_callbacks sv))
      (Cb_received client b (length b) (ss_user_data sv))) (\<lambda>_. receive_loop K recorder n server fd client)))
      (\<lambda>r s'. extends_delivery fd client s s') s1"
    if "server_ok server sv ep cs s1" "received (trace s1) = received (trace s) @ [(fd, b)]"
      "delivered (trace s1) = delivered (trace s)" "blocking_reads {} (trace s1) = blocking_reads {} (trace s)" for s1 b
  proof (rule wp_run)
    show "load the_server server s1 = (Ret sv, s1)" using that(1) by (auto simp: run_simps elim: server_okE)
    let ?s2 = "s1\<lparr>trace := trace s1 @ [Logged LOG_DEBUG ''received'' [Int_arg (int client), Str_arg b, Int_arg (int (length b))]]\<rparr>"
    have "server_ok server sv ep cs ?s2" by (rule server_ok_upd [OF that(1)]) simp_all
    from Suc.IH [OF this] have "wp (receive_loop K recorder n server fd client) (\<lambda>r s'. extends_delivery fd client s s') ?s2"
    proof (rule wp_mono)
      fix r s' assume "extends_delivery fd client ?s2 s'"
      then obtain bs where "blocking_reads {} (trace s') = blocking_reads {} (trace s1)"
        "received (trace s') = received (trace s1) @ map (Pair fd) bs"
        "delivered (trace s') = delivered (trace s1) @ map (Pair client) (b # bs)"
        by (auto simp: extends_delivery_def)
      then show "extends_delivery fd client s s'"
        unfolding extends_delivery_def using that by (intro conjI exI [of _ "b # bs"]) simp_all
    qed
    then show "wp (bind_c (call_opt recorder (on_received (ss_callbacks sv)) (Cb_received client b (length b) (ss_user_data sv)))
      (\<lambda>_. receive_loop K recorder n server fd client)) (\<lambda>r s'. extends_delivery fd client s s') s1"
      unfolding assms(2) call_opt_def option.case recorder_def recorded.simps by (rule wp_note(1))
  qed
  have fit: "length b \<le> BUFFER_SIZE" if "K (trace s) (Recv fd BUFFER_SIZE No_flag) = Bytes b" for b
    using that assms(1) unfolding recv_fits_def by blast
  show ?case
    unfolding receive_loop.simps flat_simps
    by (intro got gone wp_intros)
      (use fit nb in \<open>simp_all add: upd extends_delivery_def no_traffic_def bytes_of_Some received_none split: if_splits\<close>)
qed

lemma handle_client_extends:
  fixes s :: "'z mem_scheme"
  assumes "recv_fits K" and "server_ok server sv ep cs s" and "on_received (ss_callbacks sv) = Some g"
  shows "wp (handle_client K recorder n server fd) (\<lambda>r s'. extends_delivery fd (lookup fd cs) s s') s"
  unfolding wp_def handle_client_run [OF assms(2)]
  using receive_loop_delivers [OF assms(1,3) _ assms(2)] by (simp add: wp_def extends_delivery_def)

section \<open>A whole run\<close>

text \<open>Since the state \<open>s0\<close>: the chunks delivered are the chunks received, and no read may block.\<close>

definition carried :: "'z mem_scheme \<Rightarrow> 'z mem_scheme \<Rightarrow> bool" where
  "carried s0 s \<longleftrightarrow> blocking_reads {} (trace s) = blocking_reads {} (trace s0) \<and>
     (\<exists>xs ys. received (trace s) = received (trace s0) @ xs \<and> delivered (trace s) = delivered (trace s0) @ ys \<and>
        map snd ys = map snd xs)"

lemma carried_extends: "extends_delivery fd client s s' \<Longrightarrow> carried s0 s \<Longrightarrow> carried s0 s'"
  unfolding extends_delivery_def carried_def
proof (elim conjE exE)
  fix bs xs ys
  assume "received (trace s') = received (trace s) @ map (Pair fd) bs" "delivered (trace s') = delivered (trace s) @ map (Pair client) bs"
    "received (trace s) = received (trace s0) @ xs" "delivered (trace s) = delivered (trace s0) @ ys" "map snd ys = map snd xs"
    "blocking_reads {} (trace s') = blocking_reads {} (trace s)" "blocking_reads {} (trace s) = blocking_reads {} (trace s0)"
  then show "blocking_reads {} (trace s') = blocking_reads {} (trace s0) \<and> (\<exists>xs ys. received (trace s') = received (trace s0) @ xs \<and>
      delivered (trace s') = delivered (trace s0) @ ys \<and> map snd ys = map snd xs)"
    by (intro conjI exI [of _ "xs @ map (Pair fd) bs"] exI [of _ "ys @ map (Pair client) bs"]) (simp_all add: comp_def)
qed

lemma carried_no_traffic: "no_traffic s s' \<Longrightarrow> carried s0 s' \<longleftrightarrow> carried s0 s"
  by (simp add: no_traffic_def carried_def)

lemma carried_heap [simp]: "carried s0 (s\<lparr>heap := h\<rparr>) = carried s0 s"
  by (simp add: carried_def)

lemma carried_quiet_event:
  "carried s0 (after (Epoll_wait ep n t) q s) = carried s0 s"
  "carried s0 (s\<lparr>trace := trace s @ [Perror u e]\<rparr>) = carried s0 s"
  by (rule carried_no_traffic; simp add: no_traffic_def)+

lemma carrying_stable: "poll_stable (ss_epoll sv) ep (\<lambda>s. serving server sv ep F s \<and> carried s0 s)"
  using serving_stable [of sv ep server F] unfolding poll_stable_def by (simp only: carried_quiet_event carried_heap) blast

lemma event_callback_carries:
  fixes s :: "'z mem_scheme"
  assumes "well_behaved K (recorder :: 'z mem_scheme user)" and "on_received (ss_callbacks sv) = Some g"
    and "serving server sv ep F s" and "carried s0 s"
  shows "wp (epoll_event_callback K recorder m p ev server) (runs_on (\<lambda>s. serving server sv ep F s \<and> carried s0 s)) s"
proof -
  obtain cs where cs: "server_ok server sv ep cs s" using assms(3) by (auto simp: serving_def)
  have "recv_fits K" using assms(1) by (simp add: well_behaved_def)
  note client = handle_client_extends [OF this cs assms(2)]
  have "wp (handle_accept K recorder m server) (\<lambda>r s'. extends silent (trace s) (trace s')) s"
    using handle_accept_silent [of "trace s" K m server, unfolded keeps_wp, rule_format, of s] by simp
  then have accept: "wp (handle_accept K recorder m server) (\<lambda>r s'. carried s0 s') s"
    by (rule wp_mono) (use assms(4) carried_no_traffic silent_no_traffic in blast)
  have "wp (epoll_event_callback K recorder m p ev server) (\<lambda>r s'. carried s0 s') s"
    unfolding epoll_event_callback_def Let_def
    by (rule wp_run, rule serving_load(1) [OF assms(3)], rule wp_if, rule accept, rule wp_mono, rule client)
      (rule carried_extends [OF _ assms(4)])
  from wp_conj [OF event_callback_wp [OF assms(1,3)] this] show ?thesis
    by (rule wp_mono) (auto elim!: ends.elims)
qed

lemma server_start_carries:
  fixes s :: "'z mem_scheme"
  assumes "well_behaved K (recorder :: 'z mem_scheme user)" and "server_ok server sv ep cs s"
    and "on_received (ss_callbacks sv) = Some g"
  shows "wp (socket_server_start K recorder m n server) (\<lambda>r s'. (r = Ret 0 \<or> r = Out_of_fuel) \<and>
    (serving server (sv\<lparr>ss_running := 1\<rparr>) ep (open_fds (trace s) - set (client_fds cs)) s' \<and> carried s s')) s"
    (is "wp _ (\<lambda>r s'. _ \<and> ?I s') s")
proof (rule server_start_runs [OF carrying_stable])
  show "poll_fits K" "server \<noteq> 0" "heap s server = Some (Server sv)"
    using assms(1,2) by (auto simp: well_behaved_def elim: server_okE)
  have g: "on_received (ss_callbacks (sv\<lparr>ss_running := 1\<rparr>)) = Some g" using assms(3) by simp
  fix s1 :: "'z mem_scheme" and f ud p ev
  assume s1: "?I s1"
  show "load the_server server s1 = (Ret (sv\<lparr>ss_running := 1\<rparr>), s1)" using s1 by (auto intro: serving_load)
  show "wp (epoll_event_callback K recorder m p ev server) (runs_on ?I) s1"
    using s1 by (intro event_callback_carries [OF assms(1) g]) simp_all
  show "wp (call_opt recorder f (Cb_start ud)) (runs_on ?I) s1" "wp (call_opt recorder f (Cb_stop ud)) (runs_on ?I) s1"
    using s1 by (cases f; simp add: call_opt_def recorder_def wp_leaf)+
next
  have "carried s s" by (simp add: carried_def)
  then show "?I (s\<lparr>heap := (heap s)(server \<mapsto> Server (sv\<lparr>ss_running := 1\<rparr>))\<rparr>)"
    using serving_start [OF assms(2)] by simp
qed

section \<open>The mode of the listening descriptor\<close>

text \<open>Creating a server puts no descriptor in non-blocking mode.\<close>

fun keeps_modes :: "event \<Rightarrow> bool" where
  "keeps_modes (Call (Fcntl_setfl fd fl) r) = False"
| "keeps_modes ev = True"

lemma keeps_modes_nonblocking:
  assumes "extends keeps_modes tr tr'"
  shows "nonblocking tr' \<subseteq> nonblocking tr"
proof -
  have "fold mode_event evs N \<subseteq> N" if "list_all keeps_modes evs" for evs N
    using that
  proof (induction evs arbitrary: N)
    case (Cons ev evs)
    have "mode_event ev N \<subseteq> N" using Cons.prems by (cases "(ev, N)" rule: mode_event.cases) (auto split: option.split)
    moreover have "fold mode_event evs (mode_event ev N) \<subseteq> mode_event ev N" using Cons by simp
    ultimately show ?case by simp
  qed simp
  moreover obtain evs where "tr' = tr @ evs" "list_all keeps_modes evs" using assms by (auto simp: extends_def)
  ultimately show ?thesis by simp
qed

lemma manager_destroy_modes:
  "keeps (\<lambda>s. extends keeps_modes tr (trace s)) (client_manager_destroy K mgr :: ('z mem_scheme, unit) prog)"
proof -
  have "keeps (\<lambda>s. extends keeps_modes tr (trace s)) (free_nodes K n p :: ('z mem_scheme, unit) prog)" for n p
  proof (induction n arbitrary: p)
    case (Suc n)
    then show ?case unfolding free_nodes.simps by (intro keeps_intros keeps_free) simp_all
  qed (simp add: keeps_fuel)
  then show ?thesis unfolding client_manager_destroy_def by (intro keeps_intros keeps_free) simp_all
qed

lemma create_modes:
  "keeps (\<lambda>s. extends keeps_modes tr (trace s)) (socket_server_create K ip port cbs ud :: ('z mem_scheme, ptr) prog)"
  supply keeps_events [keeps_intros del]
  unfolding socket_server_create_def set_server_def socket_defs epoll_handler_create_def client_manager_create_def
    epoll_handler_add_def epoll_handler_destroy_def
  by (intro keeps_intros keeps_one_call keeps_message keeps_alloc keeps_free manager_destroy_modes) simp_all

section \<open>Properties\<close>

text \<open>
  Data is delivered in order and exactly once: the chunks \<open>on_received\<close> is called with, with
  their lengths, are the chunks \<open>recv\<close> returned for this descriptor, in this order, all for
  the registered client.
\<close>

theorem handle_client_delivers:
  fixes s :: "'z mem_scheme"
  assumes "recv_fits K" and "server_ok server sv ep cs s" and "on_received (ss_callbacks sv) = Some g"
    and "handle_client K recorder n server fd s = (r, s')"
  shows "\<exists>bs. chunks fd (trace s') = chunks fd (trace s) @ bs \<and>
    delivered (trace s') = delivered (trace s) @ map (Pair (lookup fd cs)) bs"
  using wpD [OF handle_client_extends [OF assms(1-3)] assms(4)]
  by (auto simp: extends_delivery_def chunks_received comp_def)

text \<open>
  C11. Over a whole run of \<open>socket_server_start\<close>, whatever the connections, their data and the order of the
  events: every chunk \<open>recv\<close> gave for any client was passed to \<open>on_received\<close> with its length, exactly
  once, in the order it arrived, and nothing else was; and no \<open>recv\<close> of the run was made on a
  descriptor in blocking mode, so that no silent client holds up the others.
\<close>

theorem server_delivers_all:
  fixes s :: "'z mem_scheme"
  assumes "well_behaved K (recorder :: 'z mem_scheme user)" and "server_ok server sv ep cs s"
    and "on_received (ss_callbacks sv) = Some g" and "socket_server_start K recorder m n server s = (r, s')"
  shows "map snd (since delivered s s') = map snd (since received s s') \<and> since (blocking_reads {}) s s' = []"
  using wpD [OF server_start_carries [OF assms(1-3)] assms(4)] by (auto simp: carried_def since_def)

text \<open>
  C12. The listening descriptor stays in blocking mode: \<open>socket_server_create\<close> makes no \<open>fcntl\<close> call,
  while \<open>handle_accept\<close> is written for a non-blocking one and calls \<open>accept\<close> until it finds no
  connection. So when it returns on a freshly created server, one of its \<open>accept\<close> calls was made on a descriptor in
  blocking mode with no connection pending, where \<open>accept\<close> by its manual waits for the next
  connection instead of answering \<open>EAGAIN\<close>: the event loop would stand still. (The user's callbacks keep
  their hands off descriptors and memory; new descriptors and addresses are not in use.)
\<close>

theorem accept_waits_on_listener:
  fixes s :: "'z mem_scheme"
  assumes "malloc_fresh K" and "epoll_fresh K" and "socket_fresh K" and "accept_fresh K" and "quiet_user U" and "heap_ok s"
    and "nonblocking (trace s) \<subseteq> open_fds (trace s)"
    and "socket_server_create K ip port (Some cbs) ud s = (Ret server, s1)" and "server \<noteq> 0"
    and "handle_accept K U n server s1 = (Ret (), s2)"
  shows "\<exists>sv tr q rest. heap s1 server = Some (Server sv) \<and> trace s2 = tr @ Call (Accept (ss_listen_fd sv)) q # rest \<and>
    length (trace s1) \<le> length tr \<and> peer_of q = None \<and> ss_listen_fd sv \<notin> nonblocking tr"
proof -
  from wpD [OF socket_server_create_wp [OF assms(1-3,6)] assms(8)] assms(9)
  obtain sv ep where c: "server_ok server sv ep [] s1" "ss_listen_fd sv \<notin> open_fds (trace s)" by (auto simp: create_post_def)
  have "extends keeps_modes (trace s) (trace s1)" by (rule keepsD [OF create_modes _ assms(8)]) simp
  then have b: "ss_listen_fd sv \<notin> nonblocking (trace s1)" using keeps_modes_nonblocking assms(7) c(2) by blast
  have "drained (ss_listen_fd sv) (trace s1) (trace s2)"
    using wpD [OF handle_accept_wp [OF assms(1,4,5) c(1)] assms(10)] by (simp add: accept_post_def)
  moreover have "heap s1 server = Some (Server sv)" "ss_listen_fd sv \<in> open_fds (trace s1)" using c(1) by (auto elim: server_okE)
  ultimately show ?thesis using b unfolding drained_def by blast
qed

section \<open>Witnesses\<close>

theorem handle_client_delivers_witness:
  "\<exists>r s' bs. handle_client hello_client recorder 9 100 5 server_mem = (r, s') \<and> chunks 5 (trace s') = bs \<and>
     delivered (trace s') = map (Pair 400) bs"
proof -
  obtain r s' where run: "handle_client hello_client recorder 9 100 5 server_mem = (r, s')" by fastforce
  have l: "lookup 5 [sample_client] = 400" by (simp add: sample_client_def on_fd_def new_client_def)
  have z: "chunks 5 (trace server_mem) = []" "delivered (trace server_mem) = []" by (simp_all add: server_mem_def)
  have "on_received (ss_callbacks sample_server) = Some 1" by (simp add: sample_server_def no_callbacks_def)
  from handle_client_delivers [OF hello_client_fits server_mem_ok this run, unfolded l z append_Nil] run show ?thesis by auto
qed

text \<open>
  A server whose client has descriptor 0, so that the NULL pointer registered for it names it; the client says
  hello and goes, and then the wait fails.
\<close>

definition low_mem :: mem where
  "low_mem = server_mem\<lparr>trace := [Call (Malloc 96) (Val 100), Call Socket (Val 3), Call (Malloc 772) (Val 200),
       Call Epoll_create (Val 4), Call (Malloc 16) (Val 300), Call (Epoll_add 4 3 0 EPOLLIN) (Val 0),
       Call (Accept 3) (Peer 0 any_addr), Call (Fcntl_getfl 0) (Val 2), Call (Fcntl_setfl 0 (or 2 O_NONBLOCK)) (Val 0),
       Call (Malloc 40) (Val 400), Call (Epoll_add 4 0 0 EPOLLIN) (Val 0)],
     heap := (heap server_mem)(400 \<mapsto> Node \<lparr>cn_info = new_client 0 any_addr, cn_next = 0\<rparr>)\<rparr>"

definition hello_then_fail :: kernel where
  "hello_then_fail tr c =
     (case c of Epoll_wait ep n t \<Rightarrow> (if received tr = [] then Ready (take n [(0, EPOLLIN)]) else Err EBADF) | _ \<Rightarrow> hello_client tr c)"

lemma low_ok:
  assumes "heap s = (heap low_mem)(200 \<mapsto> Handler v)" and "eh_epoll_fd v = 4" and "length (eh_events v) = EPOLL_MAX_EVENTS"
    and "open_fds (trace s) = {0, 3, 4}" and "allocated (trace s) = {100, 200, 300, 400}"
    and "watched 4 (trace s) 0 = Some 0" and "0 \<in> nonblocking (trace s)"
  shows "server_ok 100 sample_server 4 [(400, new_client 0 any_addr)] s"
  using assms unfolding server_ok_def registry_def heap_ok_def
  by (auto simp: low_mem_def server_mem_def sample_server_def zero_server_def handler_on_def
      client_fds_def new_client_def CLIENT_MAX_CLIENTS_def)

lemma low_trace:
  "open_fds (trace low_mem) = {0, 3, 4}" "allocated (trace low_mem) = {100, 200, 300, 400}"
  "watched 4 (trace low_mem) 0 = Some 0" "0 \<in> nonblocking (trace low_mem)" "received (trace low_mem) = []"
  by (auto simp: low_mem_def nonblocking_def open_fds_def allocated_def watched_def ptr_of_def any_addr_def)

lemma low_mem_ok: "server_ok 100 sample_server 4 [(400, new_client 0 any_addr)] low_mem"
  by (rule low_ok [OF _ _ _ low_trace(1-4), where v = "\<lparr>eh_epoll_fd = 4, eh_events = replicate EPOLL_MAX_EVENTS (0, 0)\<rparr>"])
    (auto simp: low_mem_def server_mem_def fun_eq_iff)

lemma hello_then_fail_behaves: "well_behaved hello_then_fail recorder"
proof -
  have "malloc_fresh hello_then_fail"
    using sample_malloc_fresh by (simp add: malloc_fresh_def hello_then_fail_def hello_client_def)
  moreover have "poll_fits hello_then_fail" by (auto simp: poll_fits_def hello_then_fail_def split: if_splits)
  ultimately show ?thesis
    using recorder_quiet
    by (auto simp: well_behaved_def accept_fresh_def recv_fits_def hello_then_fail_def hello_client_def sample_kernel_def)
qed

lemma one_event_wait:
  assumes "handler_on h ep s" and "heap s h = Some (Handler v)" and "K (trace s) (Epoll_wait ep EPOLL_MAX_EVENTS t) = Ready [(p, ev)]"
    and "cb p ev ud ((after (Epoll_wait ep EPOLL_MAX_EVENTS t) (Ready [(p, ev)]) s)
      \<lparr>heap := (heap s)(h \<mapsto> Handler (v\<lparr>eh_events := (p, ev) # drop 1 (eh_events v)\<rparr>))\<rparr>) = (Ret (), s')"
  shows "epoll_handler_wait K h t (Some cb) ud s = (Ret 1, s')"
  using assms by (auto simp: handler_on_def epoll_handler_wait_def run_simps EPOLL_MAX_EVENTS_def)

lemma hello_event:
  fixes s :: "'z mem_scheme"
  assumes ok: "server_ok 100 sample_server 4 [(400, new_client 0 any_addr)] s" and "received (trace s) = []"
  shows "\<exists>s' cs. epoll_event_callback hello_then_fail recorder 2 0 ev 100 s = (Ret (), s') \<and>
    server_ok 100 sample_server 4 cs s' \<and> received (trace s') = [(0, ''hello'')]"
proof -
  let ?c = "(400, new_client 0 any_addr) :: client"
  have fd: "0 \<in> set (client_fds [?c])" by (simp add: client_fds_def new_client_def)
  have sv: "ss_listen_fd sample_server = 3" "on_received (ss_callbacks sample_server) = Some 1"
    by (simp_all add: sample_server_def no_callbacks_def)
  have srv: "load the_server 100 s = (Ret sample_server, s)" using ok by (auto simp: run_simps elim: server_okE)
  have load: "load the_server 100 s1 = (Ret sample_server, s1)" if "heap s1 = heap s" for s1 :: "'z mem_scheme"
    using ok that by (auto simp: run_simps elim: server_okE)
  have ch: "chunks 0 (trace s) = []" using assms(2) by (simp add: chunks_received)
  let ?cl = "lookup 0 [?c]"
  define s1 where "s1 = s\<lparr>trace := trace s @ [Call (Recv 0 BUFFER_SIZE No_flag) (Bytes ''hello''),
    Logged LOG_DEBUG ''received'' [Int_arg (int ?cl), Str_arg ''hello'', Int_arg 5], Call (Recv 0 BUFFER_SIZE No_flag) (Bytes [])]\<rparr>"
  have hc: "handle_client hello_then_fail recorder 2 100 0 s = drop_client hello_then_fail recorder 100 0 ?cl s1"
    using fd ch load [of s]
    by (simp add: handle_client_run [OF ok] run_simps hello_then_fail_def hello_client_def BUFFER_SIZE_def load sv(2) numeral_2_eq_2 call_opt_def
        recorder_def err_of_def s1_def)
  have s1: "server_ok 100 sample_server 4 [?c] s1" unfolding s1_def by (rule server_ok_upd [OF ok]) simp_all
  obtain r s2 where run: "drop_client hello_then_fail recorder 100 0 ?cl s1 = (r, s2)" by fastforce
  have r: "r = Ret ()" "server_ok 100 sample_server 4 (strike 0 [?c]) s2"
    using wpD [OF drop_client_wp [OF recorder_quiet s1 fd] run] by simp_all
  have "received (trace s2) = [(0, ''hello'')]"
    using wpD [OF drop_client_silent [OF s1] run] assms(2) by (simp add: no_traffic_def s1_def)
  moreover have "epoll_event_callback hello_then_fail recorder 2 0 ev 100 s = (Ret (), s2)"
    using srv hc run r(1) sv(1) by (simp add: epoll_event_callback_def ptr_as_int_def run_simps)
  ultimately show ?thesis using r(2) by blast
qed

text \<open>One event for the client, handled by the callback with the outcome \<open>P\<close>, and then the wait fails.\<close>

lemma low_run:
  assumes "K (trace low_mem) (Epoll_wait 4 EPOLL_MAX_EVENTS (-1)) = Ready [(0, EPOLLIN)]"
    and "\<And>tr. P (received tr) \<Longrightarrow> K tr (Epoll_wait 4 EPOLL_MAX_EVENTS (-1)) = Err EBADF"
    and "\<And>s :: mem. server_ok 100 sample_server 4 [(400, new_client 0 any_addr)] s \<Longrightarrow> received (trace s) = [] \<Longrightarrow>
      \<exists>s' cs. epoll_event_callback K recorder n 0 EPOLLIN 100 s = (Ret (), s') \<and> server_ok 100 sample_server 4 cs s' \<and>
        P (received (trace s'))"
  shows "\<exists>s'. socket_server_start K recorder n 2 100 low_mem = (Ret 0, s') \<and> P (received (trace s'))"
proof -
  let ?v = "\<lparr>eh_epoll_fd = 4, eh_events = (0, EPOLLIN) # replicate (EPOLL_MAX_EVENTS - 1) (0, 0)\<rparr>"
  let ?s1 = "low_mem\<lparr>heap := (heap low_mem)(100 \<mapsto> Server sample_server)\<rparr>"
  let ?s2 = "(after (Epoll_wait 4 EPOLL_MAX_EVENTS (-1)) (Ready [(0, EPOLLIN)]) ?s1)\<lparr>heap := (heap ?s1)(200 \<mapsto> Handler ?v)\<rparr>"
  have sv: "ss_epoll sample_server = 200" "ss_running sample_server = 1" "on_start (ss_callbacks sample_server) = None"
    "on_stop (ss_callbacks sample_server) = None" "sample_server\<lparr>ss_running := 1\<rparr> = sample_server"
    by (simp_all add: sample_server_def no_callbacks_def zero_server_def)
  have h: "heap low_mem 100 = Some (Server sample_server)" "(100 :: ptr) \<noteq> 0" by (simp_all add: low_mem_def server_mem_def)
  then have same: "(heap low_mem)(100 \<mapsto> Server sample_server) = heap low_mem" by (simp add: fun_upd_idem)
  have "server_ok 100 sample_server 4 [(400, new_client 0 any_addr)] ?s2"
    by (rule low_ok [where v = ?v]) (use low_trace in \<open>simp_all add: same EPOLL_MAX_EVENTS_def\<close>)
  from assms(3) [OF this] low_trace(5) obtain s3 cs where
    s3: "epoll_event_callback K recorder n 0 EPOLLIN 100 ?s2 = (Ret (), s3)" "server_ok 100 sample_server 4 cs s3"
      "P (received (trace s3))" by auto
  have "epoll_handler_wait K 200 (-1) (Some (epoll_event_callback K recorder n)) 100 ?s1 = (Ret 1, s3)"
  proof (rule one_event_wait)
    show "handler_on 200 4 ?s1" "heap ?s1 200 = Some (Handler \<lparr>eh_epoll_fd = 4, eh_events = replicate EPOLL_MAX_EVENTS (0, 0)\<rparr>)"
      by (simp_all add: handler_on_def low_mem_def server_mem_def)
    show "K (trace ?s1) (Epoll_wait 4 EPOLL_MAX_EVENTS (-1)) = Ready [(0, EPOLLIN)]"
      using assms(1) by simp
  qed (use s3(1) in simp)
  moreover have "load the_server 100 ?s1 = (Ret sample_server, ?s1)" by (simp add: run_simps)
  moreover have "\<exists>s4. event_loop K recorder n (Suc 0) 100 s3 = (Ret (), s4) \<and> heap s4 = heap s3 \<and>
      received (trace s4) = received (trace s3)"
    using s3(2) assms(2) [OF s3(3)] sv(1,2)
    by (auto simp: run_simps epoll_handler_wait_def handler_on_def err_of_def EBADF_def EINTR_def elim!: server_okE)
  ultimately obtain s4 where "event_loop K recorder n (Suc (Suc 0)) 100 ?s1 = (Ret (), s4)"
    "heap s4 = heap s3" "P (received (trace s4))"
    using s3(3) sv(1,2) by (auto simp: run_simps)
  moreover have "heap s3 100 = Some (Server sample_server)" using s3(2) by (rule server_okE)
  ultimately show ?thesis
    using sv(3-5) h by (simp add: socket_server_start_def set_server_def run_simps call_opt_def numeral_2_eq_2 del: event_loop.simps)
qed

theorem server_delivers_all_witness:
  "\<exists>s'. socket_server_start hello_then_fail recorder 2 2 100 low_mem = (Ret 0, s') \<and>
    map snd (since delivered low_mem s') = [''hello''] \<and> since (blocking_reads {}) low_mem s' = []"
proof -
  obtain s' where s': "socket_server_start hello_then_fail recorder 2 2 100 low_mem = (Ret 0, s')" "received (trace s') = [(0, ''hello'')]"
    using low_run [of hello_then_fail "\<lambda>xs. xs = [(0, ''hello'')]" 2] hello_event low_trace(5)
    by (auto simp: hello_then_fail_def EPOLL_MAX_EVENTS_def)
  have "on_received (ss_callbacks sample_server) = Some 1" by (simp add: sample_server_def no_callbacks_def)
  from server_delivers_all [OF hello_then_fail_behaves low_mem_ok this s'(1)] s' show ?thesis
    by (simp add: since_def low_trace(5))
qed

theorem accept_waits_on_listener_witness:
  "\<exists>server l s1 s2 tr q rest. socket_server_create failing_wait None 8080 (Some no_callbacks) 0 empty_mem = (Ret server, s1) \<and>
    handle_accept failing_wait recorder (Suc 0) server s1 = (Ret (), s2) \<and>
    trace s2 = tr @ Call (Accept l) q # rest \<and> l \<notin> nonblocking tr"
proof -
  obtain server s1 where c: "socket_server_create failing_wait None 8080 (Some no_callbacks) 0 empty_mem = (Ret server, s1)" "server \<noteq> 0"
    using sample_create by blast
  note b = failing_wait_behaves
  have "well_behaved failing_wait (recorder :: unit mem_scheme user)" by (rule b(1))
  then have w: "accept_fresh failing_wait" by (simp add: well_behaved_def)
  obtain sv ep where "server_ok server sv ep [] s1"
    using wpD [OF socket_server_create_wp [OF b(4,2,3) empty_heap_ok] c(1)] c(2) by (auto simp: create_post_def)
  then have "load the_server server s1 = (Ret sv, s1)" by (auto simp: run_simps elim: server_okE)
  then obtain s2 where s2: "handle_accept failing_wait recorder (Suc 0) server s1 = (Ret (), s2)"
    by (simp add: tcp_socket_accept_def run_simps failing_wait_def sample_kernel_def err_of_def)
  have "nonblocking (trace empty_mem) \<subseteq> open_fds (trace empty_mem)" by (simp add: empty_mem_def)
  from accept_waits_on_listener [OF b(4,2,3) w recorder_quiet empty_heap_ok this c s2]
  obtain l tr q rest where "trace s2 = tr @ Call (Accept l) q # rest" "l \<notin> nonblocking tr" by metis
  with c(1) s2 show ?thesis by blast
qed

end
