(* ===== verification/Quekka_Quecode.thy ===== *)
theory Quekka_Quecode
  imports Kernel
begin

text \<open>
  The error codes of the client library (\<^verbatim>\<open>src/quekka/Quekka_quecode.c\<close>,
  \<^verbatim>\<open>include/quekka/Quekka_quecode.h\<close>): the enumeration and its texts (both expanded from
  one X-macro list) and the thread-local code of the last error. Threads are numbered.
  The locale \<open>thread_cell\<close> states what a \<open>_Thread_local\<close> variable promises.
\<close>

datatype Quecode = QUECODE_SUCCESS | QUECODE_FAILURE | QUECODE_INVALID_INPUT | QUECODE_LAST

primrec quecode_value :: "Quecode \<Rightarrow> int" where
  "quecode_value QUECODE_SUCCESS = 0"
| "quecode_value QUECODE_FAILURE = 1"
| "quecode_value QUECODE_INVALID_INPUT = 2"
| "quecode_value QUECODE_LAST = 3"

definition quecode_string :: "char list list" where
  "quecode_string = [''Sucess'', ''Failure'', ''Invalid Input'']"

text \<open>A C enumeration variable can hold any integer, so the text function takes one.\<close>

definition Quecode_string_code :: "int \<Rightarrow> char list" where
  "Quecode_string_code code =
     (if 0 > code \<or> code \<ge> quecode_value QUECODE_LAST then ''Unknown error''
      else quecode_string ! nat code)"

section \<open>Thread-local variables\<close>

type_synonym tid = nat

text \<open>The value a thread finds after a series of writes by threads: its own last one.\<close>

fun last_write :: "tid \<Rightarrow> (tid \<times> 'v) list \<Rightarrow> 'v \<Rightarrow> 'v" where
  "last_write t [] d = d"
| "last_write t ((u, v) # ws) d = last_write t ws (if u = t then v else d)"

locale thread_cell =
  fixes rd :: "tid \<Rightarrow> 's \<Rightarrow> 'v"
    and wr :: "tid \<Rightarrow> 'v \<Rightarrow> 's \<Rightarrow> 's"
  assumes read_own: "rd t (wr t v s) = v"
    and read_other: "t \<noteq> u \<Longrightarrow> rd t (wr u v s) = rd t s"
    and write_twice: "wr t w (wr t v s) = wr t w s"
begin

lemma read_after_writes: "rd t (fold (\<lambda>(u, v). wr u v) ws s) = last_write t ws (rd t s)"
  by (induction ws arbitrary: s) (auto simp: read_own read_other)

lemma untouched_by_others: "\<forall>(u, v) \<in> set ws. u \<noteq> t \<Longrightarrow> rd t (fold (\<lambda>(u, v). wr u v) ws s) = rd t s"
  by (induction ws arbitrary: s) (auto simp: read_other)

end

section \<open>The code of the last error\<close>

record qc_state = os +
  quecode :: "tid \<Rightarrow> Quecode"

definition put_quecode :: "tid \<Rightarrow> Quecode \<Rightarrow> 'z qc_state_scheme \<Rightarrow> 'z qc_state_scheme" where
  "put_quecode t code s = s\<lparr>quecode := (quecode s)(t := code)\<rparr>"

definition Quecode_set_code :: "tid \<Rightarrow> Quecode \<Rightarrow> ('z qc_state_scheme, unit) prog" where
  "Quecode_set_code t code = modify_c (put_quecode t code)"

definition Quecode_get_code :: "tid \<Rightarrow> ('z qc_state_scheme, Quecode) prog" where
  "Quecode_get_code t = get_c (\<lambda>s. quecode s t)"

lemma Quecode_set_code_run [run_simps]:
  "Quecode_set_code t code s = (Ret (), put_quecode t code s)"
  by (simp add: Quecode_set_code_def run_simps)

lemma Quecode_get_code_run [run_simps]: "Quecode_get_code t s = (Ret (quecode s t), s)"
  by (simp add: Quecode_get_code_def run_simps)

lemma put_quecode_sel [simp]:
  "quecode (put_quecode t c s) = (quecode s)(t := c)"
  "trace (put_quecode t c s) = trace s"
  "errno (put_quecode t c s) = errno s"
  by (simp_all add: put_quecode_def)

interpretation quecode_cell: thread_cell "\<lambda>t s. quecode s t" put_quecode
  by unfold_locales (simp_all add: put_quecode_def)

text \<open>
  A thread that asks for the code of its last error gets the last code that this
  thread set, whatever other threads set in between, and \<open>Quecode_set_code\<close> and
  \<open>Quecode_get_code\<close> make no call and log nothing.
\<close>

theorem quecode_is_thread_local:
  fixes s :: "'z qc_state_scheme"
  shows "\<exists>s'. then_c (skip_all (map (\<lambda>(u, c). Quecode_set_code u c) ws)) (Quecode_get_code t) s
          = (Ret (last_write t ws (quecode s t)), s') \<and> trace s' = trace s"
proof -
  have "skip_all (map (\<lambda>(u, c). Quecode_set_code u c) ws) s
      = (Ret (), fold (\<lambda>(u, c). put_quecode u c) ws s)"
    by (induction ws arbitrary: s) (auto simp: run_simps)
  moreover have "trace (fold (\<lambda>(u, c). put_quecode u c) ws s) = trace s"
    by (induction ws arbitrary: s) auto
  ultimately show ?thesis
    using quecode_cell.read_after_writes [where t = t and ws = ws and s = s] by (simp add: run_simps)
qed

text \<open>
  \<open>Quecode_string_code\<close> has a text for every integer: the listed one for each code
  of the enumeration below \<open>QUECODE_LAST\<close>, never an access outside the table, and
  \<open>Unknown error\<close> for every other integer.
\<close>

theorem quecode_string_total:
  "Quecode_string_code n =
     (if n = quecode_value QUECODE_SUCCESS then ''Sucess''
      else if n = quecode_value QUECODE_FAILURE then ''Failure''
      else if n = quecode_value QUECODE_INVALID_INPUT then ''Invalid Input''
      else ''Unknown error'')
   \<and> length quecode_string = nat (quecode_value QUECODE_LAST)"
proof -
  consider "n < 0" | "n = 0" | "n = 1" | "n = 2" | "n \<ge> 3" by linarith
  then show ?thesis
    by cases (auto simp: Quecode_string_code_def quecode_string_def)
qed

end
