(* ===== verification/Quekka_Message.thy ===== *)
theory Quekka_Message
  imports Clib
begin

text \<open>
  The wire format (\<^verbatim>\<open>include/quekka/Quekka_message.h\<close>): the packed structs
  \<open>Quekka_header\<close> (153 bytes) and \<open>Quekka_message\<close> (4096 bytes) as records, and their memory
  image, which is what the producer sends and what the command-line client reads. The
  locale \<open>fixed_codec\<close> states what a fixed-size encoding promises to code that cuts a byte
  stream into records; the header and the message are its instances.
\<close>

section \<open>Fixed-size encodings\<close>

text \<open>A reader that cuts a stream every \<open>n\<close> bytes and decodes each piece.\<close>

fun decode_frames :: "nat \<Rightarrow> (char list \<Rightarrow> 'a option) \<Rightarrow> nat \<Rightarrow> char list \<Rightarrow> 'a list option" where
  "decode_frames n dec 0 b = (if b = [] then Some [] else None)"
| "decode_frames n dec (Suc k) b =
     (case dec (take n b) of
        None \<Rightarrow> None
      | Some x \<Rightarrow> map_option (Cons x) (decode_frames n dec k (drop n b)))"

locale fixed_codec =
  fixes wf :: "'a \<Rightarrow> bool"
    and enc :: "'a \<Rightarrow> char list"
    and dec :: "char list \<Rightarrow> 'a option"
    and width :: nat
  assumes enc_length: "wf x \<Longrightarrow> length (enc x) = width"
    and dec_enc: "wf x \<Longrightarrow> dec (enc x @ r) = Some x"
    and dec_short: "length b < width \<Longrightarrow> dec b = None"
begin

lemma dec_enc_exact: "wf x \<Longrightarrow> dec (enc x) = Some x"
  using dec_enc [of x "[]"] by simp

lemma enc_prefix_free:
  assumes "wf x" and "wf y" and "enc x @ r = enc y @ r'"
  shows "x = y \<and> r = r'"
proof -
  have "Some x = Some y"
    using dec_enc [OF assms(1), of r] dec_enc [OF assms(2), of r'] assms(3) by simp
  then show ?thesis using assms(3) by simp
qed

lemma enc_inj: "wf x \<Longrightarrow> wf y \<Longrightarrow> enc x = enc y \<Longrightarrow> x = y"
  using enc_prefix_free [of x y "[]" "[]"] by simp

lemma stream_length: "\<forall>x \<in> set xs. wf x \<Longrightarrow> length (concat (map enc xs)) = width * length xs"
  by (induction xs) (simp_all add: enc_length)

lemma decode_stream:
  "\<forall>x \<in> set xs. wf x \<Longrightarrow> decode_frames width dec (length xs) (concat (map enc xs)) = Some xs"
  by (induction xs) (simp_all add: enc_length dec_enc_exact)

end

section \<open>Sizes and flags\<close>

definition QUEKKA_MSG_SIZE :: nat where "QUEKKA_MSG_SIZE = 4096"
definition QUEKKA_TOPIC_MAX :: nat where "QUEKKA_TOPIC_MAX = 127 + 1"
definition QUEKKA_MSG_ID_MAX :: nat where "QUEKKA_MSG_ID_MAX = 17 + 1"
definition QUEKKA_HEADER_SIZE :: nat where "QUEKKA_HEADER_SIZE = 153"
definition QUEKKA_PAYLOAD_MAX :: nat where
  "QUEKKA_PAYLOAD_MAX = QUEKKA_MSG_SIZE - QUEKKA_HEADER_SIZE"

definition QUEKKA_FLAG_MORE :: "8 word" where "QUEKKA_FLAG_MORE = 0"
definition QUEKKA_FLAG_LAST :: "8 word" where "QUEKKA_FLAG_LAST = 1"

lemmas size_defs = QUEKKA_MSG_SIZE_def QUEKKA_TOPIC_MAX_def QUEKKA_MSG_ID_MAX_def
  QUEKKA_HEADER_SIZE_def QUEKKA_PAYLOAD_MAX_def

lemma PAYLOAD_MAX_eq: "QUEKKA_PAYLOAD_MAX = 3943"
  by (simp add: size_defs)

section \<open>Headers and messages\<close>

record Quekka_header =
  h_topic :: "char list"
  h_message_id :: "char list"
  h_topic_len :: "16 word"
  h_payload_len :: "16 word"
  h_seq :: "16 word"
  h_flags :: "8 word"

record Quekka_message =
  m_header :: Quekka_header
  m_payload :: "char list"

text \<open>The arrays have the sizes they are declared with.\<close>

definition wf_header :: "Quekka_header \<Rightarrow> bool" where
  "wf_header h \<longleftrightarrow>
     length (h_topic h) = QUEKKA_TOPIC_MAX \<and> length (h_message_id h) = QUEKKA_MSG_ID_MAX"

definition wf_message :: "Quekka_message \<Rightarrow> bool" where
  "wf_message m \<longleftrightarrow> wf_header (m_header m) \<and> length (m_payload m) = QUEKKA_PAYLOAD_MAX"

text \<open>\<open>= {0}\<close>.\<close>

definition zero_header :: Quekka_header where
  "zero_header =
     \<lparr>h_topic = replicate QUEKKA_TOPIC_MAX NUL, h_message_id = replicate QUEKKA_MSG_ID_MAX NUL,
      h_topic_len = 0, h_payload_len = 0, h_seq = 0, h_flags = 0\<rparr>"

definition zero_message :: Quekka_message where
  "zero_message = \<lparr>m_header = zero_header, m_payload = replicate QUEKKA_PAYLOAD_MAX NUL\<rparr>"

lemma wf_zero_header [simp]: "wf_header zero_header"
  and wf_zero_message [simp]: "wf_message zero_message"
  by (simp_all add: wf_header_def wf_message_def zero_header_def zero_message_def)

section \<open>Memory images\<close>

definition header_bytes :: "Quekka_header \<Rightarrow> char list" where
  "header_bytes h =
     h_topic h @ h_message_id h @ le16 (h_topic_len h) @ le16 (h_payload_len h) @ le16 (h_seq h)
       @ byte8 (h_flags h)"

definition header_of_bytes :: "char list \<Rightarrow> Quekka_header option" where
  "header_of_bytes b =
     (if length b < QUEKKA_HEADER_SIZE then None
      else Some \<lparr>h_topic = take 128 b, h_message_id = take 18 (drop 128 b),
        h_topic_len = of_le16 (drop 146 b), h_payload_len = of_le16 (drop 148 b),
        h_seq = of_le16 (drop 150 b), h_flags = of_byte8 (drop 152 b)\<rparr>)"

definition message_bytes :: "Quekka_message \<Rightarrow> char list" where
  "message_bytes m = header_bytes (m_header m) @ m_payload m"

definition message_of_bytes :: "char list \<Rightarrow> Quekka_message option" where
  "message_of_bytes b =
     (if length b < QUEKKA_MSG_SIZE then None
      else map_option (\<lambda>h. \<lparr>m_header = h, m_payload = take 3943 (drop 153 b)\<rparr>) (header_of_bytes b))"

lemma length_header_bytes: "wf_header h \<Longrightarrow> length (header_bytes h) = QUEKKA_HEADER_SIZE"
  by (simp add: header_bytes_def wf_header_def size_defs)

lemma header_of_header_bytes:
  assumes "wf_header h"
  shows "header_of_bytes (header_bytes h @ r) = Some h"
proof -
  obtain t i where t: "length t = 128" "h_topic h = t" and i: "length i = 18" "h_message_id h = i"
    using assms by (auto simp: wf_header_def size_defs)
  have "length (header_bytes h) = 153"
    using length_header_bytes [OF assms] by (simp add: size_defs)
  moreover have "of_le16 (drop 146 (header_bytes h @ r)) = h_topic_len h"
    "of_le16 (drop 148 (header_bytes h @ r)) = h_payload_len h"
    "of_le16 (drop 150 (header_bytes h @ r)) = h_seq h"
    "of_byte8 (drop 152 (header_bytes h @ r)) = h_flags h"
    by (simp_all add: header_bytes_def t i)
  moreover have "take 128 (header_bytes h @ r) = t" "take 18 (drop 128 (header_bytes h @ r)) = i"
    by (simp_all add: header_bytes_def t i)
  ultimately show ?thesis
    by (simp add: header_of_bytes_def size_defs t i del: drop_append take_append)
qed

interpretation header_codec: fixed_codec wf_header header_bytes header_of_bytes QUEKKA_HEADER_SIZE
proof
  fix h r
  assume "wf_header h"
  then show "length (header_bytes h) = QUEKKA_HEADER_SIZE"
    and "header_of_bytes (header_bytes h @ r) = Some h"
    by (rule length_header_bytes, rule header_of_header_bytes)
next
  fix b :: "char list"
  assume "length b < QUEKKA_HEADER_SIZE"
  then show "header_of_bytes b = None" by (simp add: header_of_bytes_def)
qed

interpretation message_codec: fixed_codec wf_message message_bytes message_of_bytes QUEKKA_MSG_SIZE
proof
  fix m
  assume "wf_message m"
  then have h: "wf_header (m_header m)" and p: "length (m_payload m) = 3943"
    by (simp_all add: wf_message_def size_defs)
  have n: "length (header_bytes (m_header m)) = 153"
    using length_header_bytes [OF h] by (simp add: size_defs)
  show len: "length (message_bytes m) = QUEKKA_MSG_SIZE"
    by (simp add: message_bytes_def n p size_defs)
  fix r
  have "header_of_bytes (message_bytes m @ r) = Some (m_header m)"
    using header_codec.dec_enc [OF h, of "m_payload m @ r"] by (simp add: message_bytes_def)
  moreover have "take 3943 (drop 153 (message_bytes m @ r)) = m_payload m"
    by (simp add: message_bytes_def n p)
  ultimately show "message_of_bytes (message_bytes m @ r) = Some m"
    using len by (simp add: message_of_bytes_def del: take_append drop_append)
next
  fix b :: "char list"
  assume "length b < QUEKKA_MSG_SIZE"
  then show "message_of_bytes b = None" by (simp add: message_of_bytes_def)
qed

text \<open>
  Copying all but the last byte of a header image, as \<open>message_assemble\<close> does, copies every
  field except \<open>flags\<close>.
\<close>

lemma header_copy_152:
  assumes "wf_header src" and "wf_header dst"
  shows "Option.bind (c_memcpy (header_bytes dst) (header_bytes src) (QUEKKA_HEADER_SIZE - 1))
           header_of_bytes = Some (src\<lparr>h_flags := h_flags dst\<rparr>)"
proof -
  have l: "length (header_bytes src) = 153" "length (header_bytes dst) = 153"
    using assms length_header_bytes by (simp_all add: size_defs)
  have s: "length (h_topic src) = 128" "length (h_message_id src) = 18"
    "length (h_topic dst) = 128" "length (h_message_id dst) = 18"
    using assms by (simp_all add: wf_header_def size_defs)
  have "take 152 (header_bytes src) @ drop 152 (header_bytes dst) =
        header_bytes (src\<lparr>h_flags := h_flags dst\<rparr>)"
    by (simp add: header_bytes_def s)
  moreover have "wf_header (src\<lparr>h_flags := h_flags dst\<rparr>)"
    using assms by (simp add: wf_header_def)
  ultimately show ?thesis
    using header_codec.dec_enc_exact by (simp add: c_memcpy_def l size_defs)
qed

end
