(* ===== verification/Quekka_Config.thy ===== *)
theory Quekka_Config
  imports Clib
begin

text \<open>
  The client configuration (\<^verbatim>\<open>src/quekka/Quekka_config.c\<close>, \<^verbatim>\<open>include/quekka/Quekka_config.h\<close>):
  a 16-byte address array and a 16-bit port. The configuration object is the state of its
  operations. A write past the array, or a \<open>strlen\<close> that runs off it, is a \<open>Fault\<close>.
\<close>

definition INET_ADDRSTRLEN :: nat where "INET_ADDRSTRLEN = 16"

record Quekka_config =
  cfg_ip :: "char list"
  cfg_port :: "16 word"

definition wf_config :: "Quekka_config \<Rightarrow> bool" where
  "wf_config c \<longleftrightarrow> length (cfg_ip c) = INET_ADDRSTRLEN"

definition zero_config :: Quekka_config where
  "zero_config = \<lparr>cfg_ip = replicate INET_ADDRSTRLEN NUL, cfg_port = 0\<rparr>"

type_synonym 'a config_op = "(Quekka_config, 'a) prog"

definition put_ip :: "char list \<Rightarrow> unit config_op" where
  "put_ip b = modify_c (\<lambda>c. c\<lparr>cfg_ip := b\<rparr>)"

definition put_port :: "16 word \<Rightarrow> unit config_op" where
  "put_port p = modify_c (\<lambda>c. c\<lparr>cfg_port := p\<rparr>)"

section \<open>Operations\<close>

definition Quekka_config_init :: "int config_op" where
  "Quekka_config_init = then_c (modify_c (\<lambda>_. zero_config)) (return_c 0)"

text \<open>
  \<open>sscanf(address, "%63[^:]:%15s", ip, port)\<close> on buffers filled with NUL: the number of
  conversions (\<open>EOF\<close>, -1, when the input is empty) and the two buffers.
\<close>

definition sscanf_address :: "char list \<Rightarrow> int \<times> char list \<times> char list" where
  "sscanf_address s =
     (let no_ip = replicate 64 NUL; no_port = replicate 16 NUL;
          host = take 63 (takeWhile (\<lambda>c. c \<noteq> CHR '':'') s);
          ip = host @ replicate (64 - length host) NUL;
          rest = drop (length host) s
      in if s = [] then (-1, no_ip, no_port)
         else if host = [] then (0, no_ip, no_port)
         else if rest = [] \<or> hd rest \<noteq> CHR '':'' then (1, ip, no_port)
         else
           let digits = take 15 (takeWhile (\<lambda>c. \<not> c_isspace c) (dropWhile c_isspace (tl rest)))
           in if digits = [] then (1, ip, no_port)
              else (2, ip, digits @ replicate (16 - length digits) NUL))"

definition Quekka_config_set_address :: "char list \<Rightarrow> int config_op" where
  "Quekka_config_set_address address =
     bind_c (require_c Unterminated (if NUL \<in> set address then Some (cstr address) else None)) (\<lambda>s.
     let (ret, ip, port) = sscanf_address s in
     bind_c (require_c Unterminated (c_strlen ip)) (\<lambda>n.
     bind_c (get_c cfg_ip) (\<lambda>old.
     bind_c (require_c Out_of_bounds (c_memcpy old ip n)) (\<lambda>new.
     then_c (put_ip new)
     (then_c (put_port (word_of_int (c_atoi port)))
       (return_c (if ret \<noteq> 2 then -1 else 0)))))))"

definition Quekka_config_set_ip :: "char list \<Rightarrow> int config_op" where
  "Quekka_config_set_ip ip =
     bind_c (get_c cfg_ip) (\<lambda>old.
     bind_c (require_c Out_of_bounds (c_memset old NUL INET_ADDRSTRLEN)) (\<lambda>zeroed.
     bind_c (require_c Out_of_bounds (c_strncpy zeroed ip INET_ADDRSTRLEN)) (\<lambda>new.
     then_c (put_ip new) (return_c 0))))"

text \<open>\<open>atoi\<close> takes a string: a buffer without terminator is undefined, as for \<open>sscanf\<close> above.\<close>

definition Quekka_config_set_port :: "char list \<Rightarrow> int config_op" where
  "Quekka_config_set_port port =
     bind_c (require_c Unterminated (if NUL \<in> set port then Some (c_atoi port) else None)) (\<lambda>n.
     then_c (put_port (htons (word_of_int n))) (return_c 0))"

text \<open>The caller's buffer goes in and comes back.\<close>

definition Quekka_config_get_ip :: "char list \<Rightarrow> (int \<times> char list) config_op" where
  "Quekka_config_get_ip out =
     bind_c (get_c cfg_ip) (\<lambda>ip.
     bind_c (require_c Unterminated (c_strlen ip)) (\<lambda>n.
     if n > 0 then
       bind_c (require_c Out_of_bounds (c_memcpy out ip INET_ADDRSTRLEN)) (\<lambda>out'. return_c (0, out'))
     else return_c (-1, out)))"

definition Quekka_config_get_port :: "16 word config_op" where
  "Quekka_config_get_port = get_c cfg_port"

lemmas config_op_defs = Quekka_config_init_def Quekka_config_set_address_def
  Quekka_config_set_ip_def Quekka_config_set_port_def Quekka_config_get_ip_def
  Quekka_config_get_port_def put_ip_def put_port_def

section \<open>Facts about the scanner\<close>

text \<open>Text a caller can write as \<open>host:port\<close>.\<close>

definition host_text :: "char list \<Rightarrow> bool" where
  "host_text h \<longleftrightarrow> h \<noteq> [] \<and> CHR '':'' \<notin> set h \<and> NUL \<notin> set h"

definition port_text :: "char list \<Rightarrow> bool" where
  "port_text p \<longleftrightarrow> p \<noteq> [] \<and> length p \<le> 15 \<and> (\<forall>c \<in> set p. c_isdigit c)"

lemma digit_not_space: "c_isdigit c \<Longrightarrow> \<not> c_isspace c"
  by (auto simp: c_isdigit_def c_isspace_def)

lemma digit_not_sign: "c_isdigit c \<Longrightarrow> c \<noteq> CHR ''-'' \<and> c \<noteq> CHR ''+'' \<and> c \<noteq> NUL"
  by (auto simp: c_isdigit_def)

lemma takeWhile_host: "host_text h \<Longrightarrow> takeWhile (\<lambda>c. c \<noteq> CHR '':'') (h @ CHR '':'' # p) = h"
  by (simp add: host_text_def takeWhile_neq_append)

lemma sscanf_address_ok:
  assumes "host_text h" and "length h \<le> 63" and "port_text p"
  shows "sscanf_address (h @ CHR '':'' # p) =
    (2, h @ replicate (64 - length h) NUL, p @ replicate (16 - length p) NUL)"
proof -
  have "dropWhile c_isspace p = p"
    using assms(3) by (cases p) (auto simp: port_text_def dest: digit_not_space)
  moreover have "\<forall>c \<in> set p. \<not> c_isspace c"
    using assms(3) by (auto simp: port_text_def dest: digit_not_space)
  ultimately show ?thesis
    using assms takeWhile_host [OF assms(1), of p]
    by (simp add: sscanf_address_def Let_def host_text_def port_text_def takeWhile_all)
qed

text \<open>The host part that reaches the configuration, whatever follows it.\<close>

lemma sscanf_address_ip:
  assumes "host_text h" and "s = h \<or> s = h @ CHR '':'' # r"
  shows "\<exists>ret port. sscanf_address s =
           (ret, take 63 h @ replicate (64 - length (take 63 h)) NUL, port) \<and> NUL \<in> set port"
proof -
  have "takeWhile (\<lambda>c. c \<noteq> CHR '':'') s = h"
    using assms by (auto simp: host_text_def takeWhile_neq_append)
  moreover have "s \<noteq> []" and "h \<noteq> []" using assms by (auto simp: host_text_def)
  ultimately show ?thesis
    by (auto simp: sscanf_address_def Let_def)
qed

lemma cstr_padded: "NUL \<notin> set t \<Longrightarrow> cstr (t @ replicate n NUL) = t"
  by (cases n) simp_all

lemma c_strlen_padded: "NUL \<notin> set t \<Longrightarrow> 0 < n \<Longrightarrow> c_strlen (t @ replicate n NUL) = Some (length t)"
  by (cases n) (simp_all add: c_strlen_def)

lemma c_atoi_digits:
  assumes "\<forall>c \<in> set p. c_isdigit c" and "decimal_value p < 2 ^ 31"
  shows "c_atoi (p @ replicate n NUL) = int (decimal_value p)"
proof -
  have nul: "NUL \<notin> set p" using assms(1) digit_not_sign by blast
  have "dropWhile c_isspace p = p" and "p = [] \<or> hd p \<noteq> CHR ''-'' \<and> hd p \<noteq> CHR ''+''"
    using assms(1) by (cases p; auto dest: digit_not_space digit_not_sign)+
  moreover have "int (decimal_value p) \<le> 2 ^ 63 - 1"
    using assms(2) by simp
  ultimately have "strtol10 (p @ replicate n NUL) = int (decimal_value p)"
    using cstr_padded [OF nul, of n] by (auto simp: strtol10_def Let_def takeWhile_all assms(1))
  then show ?thesis
    using assms(2) by (simp add: c_atoi_def signed_of_nat signed_take_bit_int_eq_self)
qed

section \<open>What the operations guarantee\<close>

lemma wf_zero_config [simp]: "wf_config zero_config"
  by (simp add: wf_config_def zero_config_def)

lemma set_address_run:
  assumes "host_text h" and "length h \<le> 63" and "port_text p" and "length h \<le> length (cfg_ip c)"
  shows "Quekka_config_set_address (h @ CHR '':'' # p @ NUL # r) c =
    (Ret 0, c\<lparr>cfg_ip := h @ drop (length h) (cfg_ip c),
              cfg_port := word_of_int (c_atoi (p @ replicate (16 - length p) NUL))\<rparr>)"
proof -
  have nul: "NUL \<notin> set (h @ CHR '':'' # p)"
    using assms(1,3) by (auto simp: host_text_def port_text_def c_isdigit_def)
  then have s: "cstr (h @ CHR '':'' # p @ NUL # r) = h @ CHR '':'' # p"
    using cstr_terminated [of "h @ CHR '':'' # p" r] by simp
  have "c_strlen (h @ replicate (64 - length h) NUL) = Some (length h)"
    using assms(1,2) by (intro c_strlen_padded) (auto simp: host_text_def)
  then show ?thesis
    using assms(4) by (simp add: config_op_defs run_simps s sscanf_address_ok [OF assms(1-3)] c_memcpy_def)
qed

lemma htons_fixed: "htons w = w \<longleftrightarrow> unat w div 256 = unat w mod 256"
proof -
  define q r where "q = unat w div 256" and "r = unat w mod 256"
  have w: "unat w = q * 256 + r" by (simp add: q_def r_def)
  have "htons w = w \<longleftrightarrow> r * 256 + q = q * 256 + r"
    by (simp only: word_unat_eq_iff unat_htons q_def [symmetric] r_def [symmetric] w [symmetric])
  also have "\<dots> \<longleftrightarrow> q = r" by linarith
  finally show ?thesis by (simp only: q_def r_def)
qed

lemma set_port_run:
  assumes "port_text p" and "decimal_value p < 2 ^ 31"
  shows "Quekka_config_set_port (p @ [NUL]) c = (Ret 0, c\<lparr>cfg_port := htons (word_of_nat (decimal_value p))\<rparr>)"
  using c_atoi_digits [of p 1] assms
  by (simp add: Quekka_config_set_port_def put_port_def run_simps port_text_def)

text \<open>
  C20. What reading a configured address back gives. After \<open>Quekka_config_init\<close>,
  \<open>Quekka_config_set_address\<close> accepts \<open>host:port\<close> for a host of at most 15 characters and a
  decimal port; \<open>get_ip\<close> then gives exactly that host, and \<open>get_port\<close> the number in host
  byte order. \<open>Quekka_config_set_port\<close> with the same port text stores it in network byte order
  instead. So the getter's answer agrees with \<open>htons\<close> of the number, which
  \<^verbatim>\<open>test_QuekkaConfig.cpp\<close> expects after \<open>set_address\<close>, exactly when the two bytes of the port are
  equal: on the test's own input, 127.0.0.1:8080, the code fails it.
\<close>

theorem config_address_readback:
  assumes "host_text h" and "length h \<le> 15" and "port_text p" and "decimal_value p < 65536"
    and "length out = INET_ADDRSTRLEN"
  shows "\<exists>c out' c'.
    then_c Quekka_config_init (Quekka_config_set_address (h @ CHR '':'' # p @ [NUL])) c0 = (Ret 0, c) \<and>
    Quekka_config_get_ip out c = (Ret (0, out'), c) \<and> cstr out' = h \<and>
    Quekka_config_get_port c = (Ret (word_of_nat (decimal_value p)), c) \<and>
    Quekka_config_set_port (p @ [NUL]) c = (Ret 0, c') \<and> cfg_ip c' = cfg_ip c \<and>
    Quekka_config_get_port c' = (Ret (htons (word_of_nat (decimal_value p))), c') \<and>
    (fst (Quekka_config_get_port c) = Ret (htons (word_of_nat (decimal_value p))) \<longleftrightarrow>
      decimal_value p div 256 = decimal_value p mod 256)"
proof -
  let ?n = "word_of_nat (decimal_value p) :: 16 word"
  let ?c = "zero_config\<lparr>cfg_ip := h @ replicate (16 - length h) NUL, cfg_port := ?n\<rparr>"
  have "then_c Quekka_config_init (Quekka_config_set_address (h @ CHR '':'' # p @ [NUL])) c0 = (Ret 0, ?c)"
    using set_address_run [OF assms(1) _ assms(3), of zero_config "[]"] assms(2) c_atoi_digits [of p] assms(3,4)
    by (simp add: Quekka_config_init_def run_simps zero_config_def INET_ADDRSTRLEN_def port_text_def)
  moreover have "c_strlen (h @ replicate (16 - length h) NUL) = Some (length h)"
    using assms(1,2) by (intro c_strlen_padded) (auto simp: host_text_def)
  moreover have "h \<noteq> []" "NUL \<notin> set h" using assms(1) by (simp_all add: host_text_def)
  moreover have "Quekka_config_set_port (p @ [NUL]) ?c = (Ret 0, ?c\<lparr>cfg_port := htons ?n\<rparr>)"
    using set_port_run [OF assms(3)] assms(4) by simp
  moreover have "unat ?n = decimal_value p" using assms(4) by (simp add: unat_of_nat)
  then have "?n = htons ?n \<longleftrightarrow> decimal_value p div 256 = decimal_value p mod 256"
    using htons_fixed [of ?n] by auto
  ultimately show ?thesis
    using assms(2,5) cstr_padded [of h]
    by (simp add: Quekka_config_get_ip_def Quekka_config_get_port_def run_simps INET_ADDRSTRLEN_def c_memcpy_def)
qed

theorem config_address_readback_witness:
  "\<exists>c out' c'.
    then_c Quekka_config_init (Quekka_config_set_address (''127.0.0.1:8080'' @ [NUL])) zero_config = (Ret 0, c) \<and>
    cstr out' = ''127.0.0.1'' \<and> Quekka_config_get_port c = (Ret 8080, c) \<and>
    fst (Quekka_config_get_port c) \<noteq> Ret (htons 8080) \<and>
    Quekka_config_set_port (''8080'' @ [NUL]) c = (Ret 0, c') \<and> Quekka_config_get_port c' = (Ret (htons 8080), c')"
proof -
  have h: "host_text ''127.0.0.1''" and p: "port_text ''8080''"
    by (simp_all add: host_text_def port_text_def c_isdigit_def)
  have v: "decimal_value ''8080'' = 8080" by (simp add: decimal_value_def digit_value_def)
  have "length (replicate 16 NUL) = INET_ADDRSTRLEN" by (simp add: INET_ADDRSTRLEN_def)
  from config_address_readback [OF h _ p _ this, of zero_config] show ?thesis
    unfolding v by auto
qed

text \<open>
  C39. \<open>Quekka_config_set_address\<close> does not bound the host: the scan buffer holds 63
  characters but the configuration only 16, so on any address whose host part has more than
  16 characters the \<open>memcpy\<close> writes past the array (undefined behaviour).
\<close>

theorem config_address_overflow:
  assumes "wf_config c" and "host_text h" and "16 < length h"
  shows "Quekka_config_set_address (h @ CHR '':'' # r @ [NUL]) c = (Fault Out_of_bounds, c)"
proof -
  have "cstr (h @ CHR '':'' # r @ [NUL]) = h @ CHR '':'' # cstr (r @ [NUL])"
    using assms(2) by (auto simp: cstr_def host_text_def takeWhile_append)
  then obtain ret port where scan: "sscanf_address (cstr (h @ CHR '':'' # r @ [NUL])) =
      (ret, take 63 h @ replicate (64 - length (take 63 h)) NUL, port)"
    using sscanf_address_ip [OF assms(2)] by metis
  have "NUL \<notin> set (take 63 h)"
    using assms(2) set_take_subset [of 63 h] by (auto simp: host_text_def)
  then have "c_strlen (take 63 h @ replicate (64 - length (take 63 h)) NUL) = Some (length (take 63 h))"
    by (intro c_strlen_padded) auto
  moreover have "\<not> min (length h) 63 \<le> 16" using assms(3) by simp
  ultimately show ?thesis
    using assms(1) scan
    by (simp add: Quekka_config_set_address_def run_simps c_memcpy_def wf_config_def INET_ADDRSTRLEN_def)
qed

theorem config_address_overflow_witness:
  "fst (Quekka_config_set_address (''broker.internal.example:9999'' @ [NUL]) zero_config) = Fault Out_of_bounds"
proof -
  have "host_text ''broker.internal.example''" by (simp add: host_text_def)
  from config_address_overflow [OF wf_zero_config this, of "''9999''"] show ?thesis by simp
qed




text \<open>
  A rejected address still changes the configuration: on \<open>host\<close> without a port the
  result is -1, but the host has been stored and the port has been set to 0.
\<close>

theorem config_address_rejected_but_stored:
  assumes "wf_config c" and "host_text h" and "length h \<le> 16"
  shows "Quekka_config_set_address (h @ [NUL]) c =
    (Ret (-1), c\<lparr>cfg_ip := h @ drop (length h) (cfg_ip c), cfg_port := 0\<rparr>)"
proof -
  have s: "cstr (h @ [NUL]) = h" using assms(2) by (simp add: host_text_def)
  have t: "CHR '':'' \<notin> set h" "h \<noteq> []" "NUL \<notin> set h"
    using assms(2) by (simp_all add: host_text_def)
  have "sscanf_address h = (1, h @ replicate (64 - length h) NUL, replicate 16 NUL)"
    using t assms(3) by (simp add: sscanf_address_def Let_def)
  moreover have "c_strlen (h @ replicate (64 - length h) NUL) = Some (length h)"
    using t assms(3) by (intro c_strlen_padded) auto
  moreover have "c_atoi (replicate 16 NUL) = 0"
    using c_atoi_digits [of "[]" 16] by (simp add: decimal_value_def)
  ultimately show ?thesis
    using assms(1,3)
    by (simp add: Quekka_config_set_address_def put_ip_def put_port_def run_simps s c_memcpy_def
        wf_config_def INET_ADDRSTRLEN_def)
qed

theorem config_address_rejected_but_stored_witness:
  "\<exists>c. Quekka_config_set_address (''10.0.0.1'' @ [NUL]) (zero_config\<lparr>cfg_port := 9999\<rparr>) = (Ret (-1), c)
     \<and> cfg_port c = 0 \<and> cstr (cfg_ip c) = ''10.0.0.1''"
proof -
  have "wf_config (zero_config\<lparr>cfg_port := 9999\<rparr>)" "host_text ''10.0.0.1''"
    by (simp_all add: wf_config_def zero_config_def host_text_def)
  from config_address_rejected_but_stored [OF this] show ?thesis
    using cstr_padded [of "''10.0.0.1''" 8] by (simp add: zero_config_def INET_ADDRSTRLEN_def)
qed

text \<open>
  C18. \<open>Quekka_config_set_ip\<close> followed by \<open>Quekka_config_get_ip\<close>, on every text: an empty
  one is reported as unset with -1, one of 1 to 15 characters comes back unchanged and with
  nothing of the previous address left, and one of 16 or more fills the array without a
  terminator, so that the getter's \<open>strlen\<close> runs off it.
\<close>

theorem config_set_ip_get_ip:
  assumes "wf_config c" and "NUL \<notin> set t" and "length out = INET_ADDRSTRLEN"
  shows "fst (then_c (Quekka_config_set_ip (t @ [NUL])) (Quekka_config_get_ip out) c) =
    (if t = [] then Ret (-1, out)
     else if length t < INET_ADDRSTRLEN then Ret (0, t @ replicate (INET_ADDRSTRLEN - length t) NUL)
     else Fault Unterminated)"
proof -
  let ?ip = "take 16 t @ replicate (16 - length t) NUL"
  have set: "Quekka_config_set_ip (t @ [NUL]) c = (Ret 0, c\<lparr>cfg_ip := ?ip\<rparr>)"
    using assms(1,2) by (simp add: Quekka_config_set_ip_def put_ip_def run_simps c_memset_def
        c_strncpy_def wf_config_def INET_ADDRSTRLEN_def)
  consider (empty) "t = []" | (fits) "t \<noteq> []" "length t < 16" | (long) "16 \<le> length t" by linarith
  then show ?thesis
  proof cases
    case empty
    have "cstr (replicate 16 NUL) = []" using cstr_padded [of "[]" 16] by simp
    then show ?thesis using empty set
      by (simp add: Quekka_config_get_ip_def run_simps c_strlen_def INET_ADDRSTRLEN_def)
  next
    case fits
    then have "c_strlen ?ip = Some (length t)" using c_strlen_padded [OF assms(2)] by simp
    then show ?thesis using fits set assms(3)
      by (simp add: Quekka_config_get_ip_def run_simps INET_ADDRSTRLEN_def c_memcpy_def)
  next
    case long
    then have "c_strlen ?ip = None"
      using assms(2) set_take_subset [of 16 t] by (auto simp: c_strlen_def)
    then show ?thesis using long set
      by (auto simp: Quekka_config_get_ip_def run_simps INET_ADDRSTRLEN_def)
  qed
qed

theorem config_set_ip_get_ip_witness:
  "fst (then_c (Quekka_config_set_ip (''255.255.255.255'' @ [NUL]))
     (Quekka_config_get_ip (replicate 16 NUL)) zero_config) = Ret (0, ''255.255.255.255'' @ [NUL])"
proof -
  have "NUL \<notin> set ''255.255.255.255''" "length (replicate 16 NUL) = INET_ADDRSTRLEN"
    by (simp_all add: INET_ADDRSTRLEN_def)
  from config_set_ip_get_ip [OF wf_zero_config this] show ?thesis
    by (simp add: INET_ADDRSTRLEN_def)
qed

end
