(* ===== verification/Quekka_Producer.thy ===== *)
theory Quekka_Producer
  imports Quekka_Quecode Quekka_Message Quekka_Config Libsocket
begin

text \<open>
  The publisher (\<^verbatim>\<open>src/quekka/Quekka_producer.c\<close>, \<^verbatim>\<open>include/quekka/Quekka_producer.h\<close>): the
  thread-local producer object, its creation, and \<open>Quekka_publish\<close>, which cuts a payload into
  4096-byte messages and sends them. Text arguments are the buffers the pointers point
  into, so every access is checked against them.
\<close>

section \<open>The producer object\<close>

text \<open>
  The function pointer is either bytes copied from somewhere or \<open>Quekka_publish\<close>; the
  configuration pointer is the eight bytes found in it.
\<close>

datatype publish_fn = Raw_fn "char list" | Fn_Quekka_publish

record Quekka_producer =
  p_fd :: int
  p_config :: "char list"
  p_publish :: publish_fn

text \<open>
  The memory image on a 64-bit host: the descriptor in bytes 0 to 3, padding, the
  configuration pointer in bytes 8 to 15, the function pointer in bytes 16 to 23.
\<close>

definition SIZEOF_PRODUCER :: nat where "SIZEOF_PRODUCER = 24"

definition of_le32 :: "char list \<Rightarrow> int" where
  "of_le32 b = sint (word_of_nat (of_char (b ! 0) + 256 * of_char (b ! 1) + 65536 * of_char (b ! 2)
     + 16777216 * of_char (b ! 3)) :: 32 word)"

definition producer_of_bytes :: "char list \<Rightarrow> Quekka_producer" where
  "producer_of_bytes b =
     \<lparr>p_fd = of_le32 b, p_config = take 8 (drop 8 b), p_publish = Raw_fn (take 8 (drop 16 b))\<rparr>"

definition config_bytes :: "Quekka_config \<Rightarrow> char list" where
  "config_bytes c = cfg_ip c @ le16 (cfg_port c)"

text \<open>\<open>_Thread_local\<close>: every thread has its own pointer to a producer, \<open>None\<close> for NULL.\<close>

record pub_state = qc_state +
  g_producer :: "tid \<Rightarrow> Quekka_producer option"

definition put_producer ::
    "tid \<Rightarrow> Quekka_producer option \<Rightarrow> 'z pub_state_scheme \<Rightarrow> 'z pub_state_scheme" where
  "put_producer t p s = s\<lparr>g_producer := (g_producer s)(t := p)\<rparr>"

interpretation producer_cell: thread_cell "\<lambda>t s. g_producer s t" put_producer
  by unfold_locales (simp_all add: put_producer_def)

lemma put_producer_sel [simp]:
  "g_producer (put_producer t p s) = (g_producer s)(t := p)"
  "quecode (put_producer t p s) = quecode s"
  "trace (put_producer t p s) = trace s"
  "errno (put_producer t p s) = errno s"
  by (simp_all add: put_producer_def)

lemma g_producer_put_quecode [simp]: "g_producer (put_quecode t c s) = g_producer s"
  by (simp add: put_quecode_def)

text \<open>
  \<open>Quekka_producer_init\<close> copies \<open>sizeof(Quekka_producer)\<close> bytes from a configuration that
  has fewer. \<open>beyond\<close> is what lies readable after the configuration object: with \<open>[]\<close> the
  copy leaves the object, which is undefined; otherwise it takes these bytes.
\<close>

definition Quekka_producer_init ::
    "kernel \<Rightarrow> tid \<Rightarrow> char list \<Rightarrow> Quekka_config \<Rightarrow> ('z pub_state_scheme, Quekka_producer option) prog" where
  "Quekka_producer_init K t beyond config =
     bind_c (get_c (\<lambda>s. g_producer s t)) (\<lambda>g.
     if g \<noteq> None then return_c g else
     bind_c (socket_init K) (\<lambda>socket_fd.
     if socket_fd = 0 then
       then_c (log_call LOG_ERROR ''failed to create socket.'' [])
       (then_c (Quecode_set_code t QUECODE_FAILURE)
         (return_c None))
     else
       let server_address = socket_set_server_address (cfg_ip config) (uint (cfg_port config)) in
       then_c (socket_connect K server_address socket_fd)
       (bind_c (sys_alloc K SIZEOF_PRODUCER) (\<lambda>p.
        if p = 0 then
          then_c (Quecode_set_code t QUECODE_FAILURE) (return_c None)
        else
          bind_c (require_c Out_of_bounds
            (c_memcpy (replicate SIZEOF_PRODUCER NUL) (config_bytes config @ beyond) SIZEOF_PRODUCER)) (\<lambda>b.
          let producer = (producer_of_bytes b)\<lparr>p_fd := socket_fd, p_publish := Fn_Quekka_publish\<rparr> in
          then_c (modify_c (put_producer t (Some producer)))
            (return_c (Some producer)))))))"

section \<open>Assembling headers and messages\<close>

text \<open>
  \<open>sizeof(QUEKKA_TOPIC_MAX-1)\<close> and \<open>sizeof(QUEKKA_MSG_ID_MAX-1)\<close>: the size of an \<open>int\<close>
  expression, not its value.
\<close>

definition SIZEOF_INT :: nat where "SIZEOF_INT = 4"

definition header_assemble ::
    "kernel \<Rightarrow> Quekka_header \<Rightarrow> char list \<Rightarrow> ('z os_scheme, Quekka_header) prog" where
  "header_assemble K header topic =
     bind_c (sys K Time) (\<lambda>now.
     bind_c (require_c Null_deref (tm_of now)) (\<lambda>t.
     let text = strftime_msg_id t in
     bind_c (require_c Uninitialised
       (if length text < QUEKKA_MSG_ID_MAX then Some (text @ [NUL]) else None)) (\<lambda>msg_id.
     bind_c (require_c Out_of_bounds (c_strncpy (h_topic header) topic SIZEOF_INT)) (\<lambda>t1.
     bind_c (require_c Out_of_bounds (c_store t1 (QUEKKA_TOPIC_MAX - 1) NUL)) (\<lambda>t2.
     bind_c (require_c Out_of_bounds (c_strncpy (h_message_id header) msg_id SIZEOF_INT)) (\<lambda>i1.
     bind_c (require_c Out_of_bounds (c_store i1 (QUEKKA_MSG_ID_MAX - 1) NUL)) (\<lambda>i2.
     bind_c (require_c Unterminated (c_strlen topic)) (\<lambda>n.
     return_c (header\<lparr>h_topic := t2, h_message_id := i2, h_topic_len := word_of_nat n\<rparr>)))))))))"

definition message_assemble ::
    "Quekka_header \<Rightarrow> Quekka_message \<Rightarrow> char list \<Rightarrow> 16 word \<Rightarrow> 8 word \<Rightarrow>
     ('s, Quekka_header \<times> Quekka_message) prog" where
  "message_assemble header message payload sq flag =
     bind_c (require_c Unterminated (c_strlen payload)) (\<lambda>n.
     let header' = header\<lparr>h_payload_len := word_of_nat n, h_seq := sq, h_flags := flag\<rparr> in
     bind_c (require_c Out_of_bounds
       (Option.bind (c_memcpy (header_bytes (m_header message)) (header_bytes header')
                      (QUEKKA_HEADER_SIZE - 1)) header_of_bytes)) (\<lambda>mh.
     bind_c (require_c Out_of_bounds
       (c_strncpy (m_payload message) payload (QUEKKA_PAYLOAD_MAX - 1))) (\<lambda>p1.
     bind_c (require_c Out_of_bounds (c_store p1 (QUEKKA_PAYLOAD_MAX - 1) NUL)) (\<lambda>p2.
     return_c (header', \<lparr>m_header = mh, m_payload = p2\<rparr>)))))"

section \<open>\<open>Quekka_publish\<close>\<close>

text \<open>The \<open>while (remaining > 0)\<close> loop. \<open>seq\<close> is a \<open>uint16_t\<close> and wraps.\<close>

function publish_loop ::
    "kernel \<Rightarrow> tid \<Rightarrow> Quekka_header \<Rightarrow> char list \<Rightarrow> nat \<Rightarrow> 16 word \<Rightarrow> ('z pub_state_scheme, int) prog" where
  "publish_loop K t header payload remaining sq =
     (if remaining > 0 then
        let chunk_size = (if remaining > QUEKKA_PAYLOAD_MAX then QUEKKA_PAYLOAD_MAX else remaining);
            flag = (if remaining \<ge> QUEKKA_PAYLOAD_MAX then QUEKKA_FLAG_MORE else QUEKKA_FLAG_LAST)
        in bind_c (require_c Out_of_bounds (c_offset payload (unat sq * QUEKKA_PAYLOAD_MAX))) (\<lambda>chunk.
           bind_c (message_assemble header zero_message chunk sq flag) (\<lambda>(header', message).
           bind_c (get_c (\<lambda>s. g_producer s t)) (\<lambda>g.
           bind_c (require_c Null_deref g) (\<lambda>p.
           then_c (sys_ignore K (Send (p_fd p) (message_bytes message) Msg_dontwait))
             (publish_loop K t header' payload (remaining - chunk_size) (sq + 1))))))
      else return_c 0)"
  by pat_completeness auto
termination
  by (relation "measure (\<lambda>(K, t, h, p, remaining, sq). remaining)") (auto simp: size_defs)

declare publish_loop.simps [simp del]

definition Quekka_publish ::
    "kernel \<Rightarrow> tid \<Rightarrow> char list \<Rightarrow> char list \<Rightarrow> nat \<Rightarrow> ('z pub_state_scheme, int) prog" where
  "Quekka_publish K t topic payload payload_size =
     bind_c (require_c Unterminated (c_strlen topic)) (\<lambda>topic_length.
     bind_c (require_c Unterminated (c_strlen payload)) (\<lambda>payload_length.
     if topic_length = 0 \<or> topic_length \<ge> 65535 then
       then_c (Quecode_set_code t QUECODE_FAILURE) (return_c (-1))
     else if payload_length \<noteq> payload_size then
       then_c (Quecode_set_code t QUECODE_FAILURE) (return_c (-1))
     else
       bind_c (header_assemble K zero_header topic) (\<lambda>header.
         publish_loop K t header payload payload_length 0)))"

section \<open>What goes on the wire\<close>

text \<open>
  The reference: the \<open>k\<close>-th message for a payload \<open>P\<close>. It starts where the 16-bit sequence
  number points, announces the whole rest of the payload, carries one byte less than
  the distance to the next message, and its flag byte is always 0, because the header
  copy stops one byte short.
\<close>

definition wire_message :: "Quekka_header \<Rightarrow> char list \<Rightarrow> nat \<Rightarrow> Quekka_message" where
  "wire_message h P k =
     (let c = drop (k mod 65536 * QUEKKA_PAYLOAD_MAX) P in
      \<lparr>m_header = h\<lparr>h_payload_len := word_of_nat (length c), h_seq := word_of_nat k, h_flags := QUEKKA_FLAG_MORE\<rparr>,
       m_payload = take (QUEKKA_PAYLOAD_MAX - 1) c @
         replicate (QUEKKA_PAYLOAD_MAX - min (QUEKKA_PAYLOAD_MAX - 1) (length c)) NUL\<rparr>)"

definition chunk_count :: "char list \<Rightarrow> nat" where
  "chunk_count P = (length P + QUEKKA_PAYLOAD_MAX - 1) div QUEKKA_PAYLOAD_MAX"

lemma message_assemble_run:
  assumes "NUL \<in> set b" and "wf_header h"
  shows "message_assemble h zero_message b sq flag s =
    (Ret (h\<lparr>h_payload_len := word_of_nat (length (cstr b)), h_seq := sq, h_flags := flag\<rparr>,
      \<lparr>m_header = h\<lparr>h_payload_len := word_of_nat (length (cstr b)), h_seq := sq, h_flags := QUEKKA_FLAG_MORE\<rparr>,
       m_payload = take (QUEKKA_PAYLOAD_MAX - 1) (cstr b) @
         replicate (QUEKKA_PAYLOAD_MAX - min (QUEKKA_PAYLOAD_MAX - 1) (length (cstr b))) NUL\<rparr>), s)"
proof -
  let ?h = "h\<lparr>h_payload_len := word_of_nat (length (cstr b)), h_seq := sq, h_flags := flag\<rparr>"
  have "wf_header ?h" using assms(2) by (simp add: wf_header_def)
  from header_copy_152 [OF this wf_zero_header]
  have hdr: "Option.bind (c_memcpy (header_bytes zero_header) (header_bytes ?h) (QUEKKA_HEADER_SIZE - 1))
      header_of_bytes = Some (?h\<lparr>h_flags := QUEKKA_FLAG_MORE\<rparr>)"
    by (simp add: zero_header_def QUEKKA_FLAG_MORE_def)
  have lt: "QUEKKA_PAYLOAD_MAX - 1 < QUEKKA_PAYLOAD_MAX" by (simp add: size_defs)
  note p1 = strncpy_zeroed [OF assms(1) lt]
  have "min (QUEKKA_PAYLOAD_MAX - 1) (length (cstr b)) < QUEKKA_PAYLOAD_MAX" by (simp add: size_defs)
  note p2 = store_last_zero [OF this]
  have z: "m_header zero_message = zero_header" "m_payload zero_message = replicate QUEKKA_PAYLOAD_MAX NUL"
    by (simp_all add: zero_message_def)
  show ?thesis
    by (simp add: message_assemble_def run_simps c_strlen_Some [OF assms(1)] hdr z p1 p2 del: One_nat_def)
qed

lemma wire_message_header:
  "wire_message (h\<lparr>h_payload_len := a, h_seq := b, h_flags := c\<rparr>) P k = wire_message h P k"
  by (simp add: wire_message_def Let_def)

text \<open>The calls of a publication: the frames \<open>fs\<close> sent one by one on descriptor \<open>fd\<close>, with the kernel's replies \<open>qs\<close>.\<close>

definition send_events :: "int \<Rightarrow> char list list \<Rightarrow> reply list \<Rightarrow> event list" where
  "send_events fd fs qs = map2 (\<lambda>f q. Call (Send fd f Msg_dontwait) q) fs qs"

lemma send_events_Cons [simp]:
  "send_events fd [] [] = []"
  "send_events fd (f # fs) (q # qs) = Call (Send fd f Msg_dontwait) q # send_events fd fs qs"
  by (simp_all add: send_events_def)

lemma sends_send_events: "length qs = length fs \<Longrightarrow> sends (send_events fd fs qs) = map (Pair fd) fs"
  by (induction fs qs rule: list_induct2') simp_all

text \<open>One round of the loop: chunk \<open>k\<close> is sent, and the next round is about chunk \<open>k + 1\<close>.\<close>

lemma publish_loop_step:
  fixes s :: "'z pub_state_scheme"
  assumes "NUL \<in> set payload" and "P = cstr payload" and "wf_header h" and "g_producer s t = Some p"
    and k: "k * QUEKKA_PAYLOAD_MAX < length P" and rem: "remaining = length P - k * QUEKKA_PAYLOAD_MAX" and sq: "sq = word_of_nat k"
  shows "\<exists>h' s1. publish_loop K t h payload remaining sq s =
      publish_loop K t h' payload (length P - Suc k * QUEKKA_PAYLOAD_MAX) (word_of_nat (Suc k)) s1 \<and>
    wf_header h' \<and> wire_message h' P = wire_message h P \<and>
    (\<exists>q. trace s1 = trace s @ [Call (Send (p_fd p) (message_bytes (wire_message h P k)) Msg_dontwait) q]) \<and>
    g_producer s1 = g_producer s \<and> quecode s1 = quecode s"
proof -
  have "unat sq = k mod 65536" using sq by (simp add: unat_of_nat)
  then have off: "unat sq * QUEKKA_PAYLOAD_MAX = k mod 65536 * QUEKKA_PAYLOAD_MAX" by simp
  note off
  also have "k mod 65536 * QUEKKA_PAYLOAD_MAX \<le> k * QUEKKA_PAYLOAD_MAX" by simp
  also note k [unfolded assms(2)]
  finally have le: "unat sq * QUEKKA_PAYLOAD_MAX \<le> length (cstr payload)" by (rule less_imp_le)
  define b where "b = drop (k mod 65536 * QUEKKA_PAYLOAD_MAX) payload"
  have b: "c_offset payload (unat sq * QUEKKA_PAYLOAD_MAX) = Some b"
    using le length_cstr_le [of payload] by (simp add: c_offset_def b_def off)
  have nul: "NUL \<in> set b" unfolding b_def off [symmetric] by (rule NUL_in_drop [OF assms(1) le])
  have cb: "cstr b = drop (k mod 65536 * QUEKKA_PAYLOAD_MAX) P"
    unfolding b_def assms(2) off [symmetric] by (rule cstr_drop [OF le])
  define flag where "flag = (if remaining \<ge> QUEKKA_PAYLOAD_MAX then QUEKKA_FLAG_MORE else QUEKKA_FLAG_LAST)"
  define cs where "cs = (if remaining > QUEKKA_PAYLOAD_MAX then QUEKKA_PAYLOAD_MAX else remaining)"
  define h' where "h' = h\<lparr>h_payload_len := word_of_nat (length (cstr b)), h_seq := sq, h_flags := flag\<rparr>"
  let ?m = "wire_message h P k"
  have asm: "message_assemble h zero_message b sq flag s = (Ret (h', ?m), s)" for s :: "'z pub_state_scheme"
    using message_assemble_run [OF nul assms(3)] by (simp add: h'_def wire_message_def Let_def cb sq)
  have pos: "remaining > 0" using k rem by simp
  let ?c = "Send (p_fd p) (message_bytes ?m) Msg_dontwait"
  let ?s1 = "after ?c (K (trace s) ?c) s"
  have "remaining - cs = length P - Suc k * QUEKKA_PAYLOAD_MAX" "sq + 1 = word_of_nat (Suc k)"
    using rem k sq by (auto simp: cs_def)
  moreover have "publish_loop K t h payload remaining sq s = publish_loop K t h' payload (remaining - cs) (sq + 1) ?s1"
    using pos
    by (subst publish_loop.simps) (simp add: b asm run_simps assms(4) Let_def flag_def [symmetric] cs_def [symmetric])
  moreover have "wf_header h'" "wire_message h' P = wire_message h P"
    using assms(3) by (simp_all add: h'_def wf_header_def wire_message_header fun_eq_iff)
  ultimately show ?thesis by (intro exI [of _ h'] exI [of _ ?s1]) (simp add: add.commute)
qed

lemma publish_loop_sends:
  fixes s :: "'z pub_state_scheme"
  assumes "NUL \<in> set payload" and "P = cstr payload"
  shows "wf_header h \<Longrightarrow> g_producer s t = Some p \<Longrightarrow> remaining = length P - k * QUEKKA_PAYLOAD_MAX \<Longrightarrow> sq = word_of_nat k \<Longrightarrow>
    \<exists>qs s'. publish_loop K t h payload remaining sq s = (Ret 0, s') \<and> length qs = chunk_count P - k \<and>
      trace s' = trace s @ send_events (p_fd p) (map (\<lambda>j. message_bytes (wire_message h P j)) [k..<chunk_count P]) qs \<and>
      g_producer s' = g_producer s \<and> quecode s' = quecode s"
proof (induction "chunk_count P - k" arbitrary: k h s remaining sq)
  case 0
  then have "remaining = 0" by (simp add: chunk_count_def size_defs)
  then show ?case using 0 by (simp add: publish_loop.simps run_simps)
next
  case (Suc d)
  then have k: "k < chunk_count P" by simp
  then have "k * QUEKKA_PAYLOAD_MAX < length P" unfolding chunk_count_def PAYLOAD_MAX_eq by linarith
  from publish_loop_step [OF assms Suc.prems(1,2) this Suc.prems(3,4)] obtain h' s1 q where
    step: "publish_loop K t h payload remaining sq s =
        publish_loop K t h' payload (length P - Suc k * QUEKKA_PAYLOAD_MAX) (word_of_nat (Suc k)) s1"
      "wf_header h'" "wire_message h' P = wire_message h P"
      "trace s1 = trace s @ [Call (Send (p_fd p) (message_bytes (wire_message h P k)) Msg_dontwait) q]"
      "g_producer s1 = g_producer s" "quecode s1 = quecode s" by blast
  have d: "d = chunk_count P - Suc k" "g_producer s1 t = Some p" using Suc.hyps(2) Suc.prems(2) step(5) by simp_all
  from Suc.hyps(1) [OF d(1) step(2) d(2) refl refl] obtain qs s' where rest:
    "publish_loop K t h' payload (length P - Suc k * QUEKKA_PAYLOAD_MAX) (word_of_nat (Suc k)) s1 = (Ret 0, s')"
    "length qs = chunk_count P - Suc k"
    "trace s' = trace s1 @ send_events (p_fd p) (map (\<lambda>j. message_bytes (wire_message h' P j)) [Suc k..<chunk_count P]) qs"
    "g_producer s' = g_producer s1" "quecode s' = quecode s1" by blast
  show ?case
    using rest step k by (intro exI [of _ "q # qs"] exI [of _ s']) (simp add: upt_conv_Cons)
qed

definition four_digit_year :: "tm \<Rightarrow> bool" where
  "four_digit_year t \<longleftrightarrow> 1000 \<le> tm_year t + 1900 \<and> tm_year t + 1900 < 10000"

definition wire_header :: "char list \<Rightarrow> tm \<Rightarrow> Quekka_header" where
  "wire_header topic t =
     zero_header\<lparr>h_topic := take 4 topic @ replicate (128 - min 4 (length topic)) NUL,
       h_message_id := show_int (tm_year t + 1900) @ replicate 14 NUL,
       h_topic_len := word_of_nat (length topic)\<rparr>"

lemma NUL_notin_year: "four_digit_year t \<Longrightarrow> NUL \<notin> set (show_int (tm_year t + 1900))"
  unfolding four_digit_year_def by (rule NUL_notin_show_year) auto

text \<open>
  The header of a publication in every case: there may be no broken-down time, its text may not
  fit into the 18 bytes for it, and else a header with fields of the right sizes is made.
\<close>

lemma header_assemble_cases:
  fixes s :: "'z os_scheme" and K :: kernel
  assumes "NUL \<in> set topic"
  defines "s1 \<equiv> s\<lparr>trace := trace s @ [Call Time (K (trace s) Time)], errno := err_of (K (trace s) Time) (errno s)\<rparr>"
  shows "\<exists>h. wf_header h \<and> header_assemble K zero_header topic s =
    (case tm_of (K (trace s) Time) of
       None \<Rightarrow> (Fault Null_deref, s1)
     | Some now \<Rightarrow> (if 18 \<le> length (strftime_msg_id now) then Fault Uninitialised else Ret h, s1))"
proof (cases "tm_of (K (trace s) Time)")
  case None
  then show ?thesis
    by (intro exI [of _ zero_header]) (simp add: header_assemble_def run_simps s1_def wf_zero_header)
next
  case (Some now)
  let ?id = "strftime_msg_id now @ [NUL]"
  let ?cut = "\<lambda>x n. take 4 (cstr x) @ replicate (n - min 4 (length (cstr x))) NUL"
  have cut: "c_strncpy (replicate 18 NUL) ?id 4 = Some (?cut ?id 18)" "c_store (?cut ?id 18) 17 NUL = Some (?cut ?id 18)"
    "c_strncpy (replicate 128 NUL) topic 4 = Some (?cut topic 128)" "c_store (?cut topic 128) 127 NUL = Some (?cut topic 128)"
    using strncpy_zeroed [of ?id 4 18] store_last_zero [of 4 "cstr ?id" 18]
      strncpy_zeroed [OF assms(1), of 4 128] store_last_zero [of 4 "cstr topic" 128] by simp_all
  let ?h = "zero_header\<lparr>h_topic := ?cut topic 128, h_message_id := ?cut ?id 18, h_topic_len := word_of_nat (length (cstr topic))\<rparr>"
  have "wf_header ?h" by (auto simp: wf_header_def size_defs)
  then show ?thesis
    using Some
    by (intro exI [of _ ?h]) (simp add: header_assemble_def run_simps s1_def c_strlen_Some [OF assms(1)] SIZEOF_INT_def
        zero_header_def size_defs cut del: replicate.simps)
qed

lemma header_assemble_run:
  assumes "NUL \<in> set topic" and "tm_of (K (trace s) Time) = Some t" and "four_digit_year t"
  shows "header_assemble K zero_header topic s =
    (Ret (wire_header (cstr topic) t),
     s\<lparr>trace := trace s @ [Call Time (K (trace s) Time)], errno := err_of (K (trace s) Time) (errno s)\<rparr>)"
proof -
  let ?id = "strftime_msg_id t @ [NUL]"
  have year: "length (show_int (tm_year t + 1900)) = 4"
    using assms(3) by (simp add: four_digit_year_def show_year_4)
  then have fits: "length (strftime_msg_id t) < QUEKKA_MSG_ID_MAX"
    by (simp add: length_strftime_msg_id size_defs)
  have "take 4 (cstr ?id) = show_int (tm_year t + 1900)"
    using NUL_notin_year [OF assms(3)] year
    by (auto simp: strftime_msg_id_def cstr_def takeWhile_append)
  moreover have "4 \<le> length (cstr ?id)"
    using NUL_notin_year [OF assms(3)] year
    by (auto simp: strftime_msg_id_def cstr_def takeWhile_append)
  ultimately have id: "c_strncpy (replicate 18 NUL) ?id 4 = Some (show_int (tm_year t + 1900) @ replicate 14 NUL)"
    using strncpy_zeroed [of ?id 4 18] by simp
  have id': "c_store (show_int (tm_year t + 1900) @ replicate 14 NUL) 17 NUL =
      Some (show_int (tm_year t + 1900) @ replicate 14 NUL)"
    using store_last_zero [of 4 "show_int (tm_year t + 1900)" 18] year by simp
  have tp: "c_strncpy (replicate 128 NUL) topic 4 =
      Some (take 4 (cstr topic) @ replicate (128 - min 4 (length (cstr topic))) NUL)"
    using strncpy_zeroed [OF assms(1), of 4 128] by simp
  have tp': "c_store (take 4 (cstr topic) @ replicate (128 - min 4 (length (cstr topic))) NUL) 127 NUL =
      Some (take 4 (cstr topic) @ replicate (128 - min 4 (length (cstr topic))) NUL)"
    using store_last_zero [of 4 "cstr topic" 128] by simp
  show ?thesis
    using fits
    by (simp add: header_assemble_def run_simps assms(2) c_strlen_Some [OF assms(1)] SIZEOF_INT_def
        zero_header_def size_defs id id' tp tp' wire_header_def del: replicate.simps)
qed

lemma wf_wire_header: "four_digit_year t \<Longrightarrow> wf_header (wire_header topic t)"
  by (simp add: wf_header_def wire_header_def zero_header_def four_digit_year_def show_year_4 size_defs)

text \<open>The hypotheses of a publication that goes through.\<close>

definition publishable :: "kernel \<Rightarrow> tid \<Rightarrow> char list \<Rightarrow> char list \<Rightarrow> 'z pub_state_scheme \<Rightarrow> Quekka_producer \<Rightarrow> tm \<Rightarrow> bool" where
  "publishable K t topic payload s p now \<longleftrightarrow>
     NUL \<in> set topic \<and> NUL \<in> set payload \<and> 0 < length (cstr topic) \<and> length (cstr topic) < 65535 \<and>
     g_producer s t = Some p \<and> tm_of (K (trace s) Time) = Some now \<and> four_digit_year now"

lemma publish_run_calls:
  assumes "publishable K t topic payload s p now"
  shows "\<exists>qs s'. Quekka_publish K t topic payload (length (cstr payload)) s = (Ret 0, s') \<and>
    length qs = chunk_count (cstr payload) \<and>
    trace s' = trace s @ Call Time (K (trace s) Time) # send_events (p_fd p)
      (map (\<lambda>k. message_bytes (wire_message (wire_header (cstr topic) now) (cstr payload) k)) [0..<chunk_count (cstr payload)]) qs \<and>
    g_producer s' = g_producer s \<and> quecode s' = quecode s"
proof -
  have a: "NUL \<in> set topic" "NUL \<in> set payload" "tm_of (K (trace s) Time) = Some now" "four_digit_year now"
    "0 < length (cstr topic)" "length (cstr topic) < 65535"
    using assms by (simp_all add: publishable_def)
  define s1 where "s1 = s\<lparr>trace := trace s @ [Call Time (K (trace s) Time)], errno := err_of (K (trace s) Time) (errno s)\<rparr>"
  have "g_producer s1 t = Some p" using assms by (simp add: s1_def publishable_def)
  from publish_loop_sends [where K = K and k = 0 and sq = 0 and remaining = "length (cstr payload)",
      OF a(2) refl wf_wire_header [OF a(4), of "cstr topic"] this]
  obtain qs s' where s': "publish_loop K t (wire_header (cstr topic) now) payload (length (cstr payload)) 0 s1 = (Ret 0, s')"
    "length qs = chunk_count (cstr payload)"
    "trace s' = trace s1 @ send_events (p_fd p) (map (\<lambda>k. message_bytes
       (wire_message (wire_header (cstr topic) now) (cstr payload) k)) [0..<chunk_count (cstr payload)]) qs"
    "g_producer s' = g_producer s1" "quecode s' = quecode s1"
    by force
  have "Quekka_publish K t topic payload (length (cstr payload)) s = (Ret 0, s')"
    using s'(1) a(5,6) header_assemble_run [where K = K and s = s, OF a(1) a(3) a(4)]
    by (simp add: Quekka_publish_def run_simps c_strlen_Some a(1,2) s1_def)
  then show ?thesis using s'(2-5) by (intro exI [of _ qs] exI [of _ s']) (simp add: s1_def)
qed

lemma publish_run:
  assumes "publishable K t topic payload s p now"
  shows "\<exists>s'. Quekka_publish K t topic payload (length (cstr payload)) s = (Ret 0, s') \<and>
    sends (trace s') = sends (trace s) @
      map (\<lambda>k. (p_fd p, message_bytes (wire_message (wire_header (cstr topic) now) (cstr payload) k)))
        [0..<chunk_count (cstr payload)] \<and>
    g_producer s' = g_producer s \<and> quecode s' = quecode s"
  using publish_run_calls [OF assms] by (auto simp: sends_send_events o_def)

lemma wf_wire_message: "wf_header h \<Longrightarrow> wf_message (wire_message h P k)"
  by (auto simp: wf_message_def wf_header_def wire_message_def Let_def size_defs)

lemma wire_message_fields:
  "h_topic (m_header (wire_message h P k)) = h_topic h"
  "h_message_id (m_header (wire_message h P k)) = h_message_id h"
  "h_topic_len (m_header (wire_message h P k)) = h_topic_len h"
  "h_seq (m_header (wire_message h P k)) = word_of_nat k"
  "h_payload_len (m_header (wire_message h P k)) = word_of_nat (length P - k mod 65536 * 3943)"
  "h_flags (m_header (wire_message h P k)) = QUEKKA_FLAG_MORE"
  "h_topic_len (wire_header topic now) = word_of_nat (length topic)"
  by (simp_all add: wire_message_def wire_header_def Let_def PAYLOAD_MAX_eq)

lemma cstr_wire_payload:
  assumes "NUL \<notin> set P"
  shows "cstr (m_payload (wire_message h P k)) = take 3942 (drop (k mod 65536 * 3943) P)"
proof -
  have "NUL \<notin> set (take 3942 (drop (k mod 65536 * 3943) P))"
    using assms set_take_subset set_drop_subset by fastforce
  from cstr_padded [OF this] show ?thesis
    by (simp add: wire_message_def Let_def PAYLOAD_MAX_eq)
qed

text \<open>The frames a publication adds to what was sent before.\<close>

definition frames_sent :: "'z os_scheme \<Rightarrow> 'y os_scheme \<Rightarrow> char list list" where
  "frames_sent s s' = map snd (drop (length (sends (trace s))) (sends (trace s')))"

lemma publish_frames:
  assumes "publishable K t topic payload s p now"
    and "Quekka_publish K t topic payload (length (cstr payload)) s = (r, s')"
  shows "r = Ret 0" and "frames_sent s s' = map (\<lambda>k. message_bytes
      (wire_message (wire_header (cstr topic) now) (cstr payload) k)) [0..<chunk_count (cstr payload)]"
  using publish_run [OF assms(1)] assms(2) by (auto simp: frames_sent_def)

lemma publish_frame_decodes:
  assumes "publishable K t topic payload s p now"
  shows "message_of_bytes (message_bytes (wire_message (wire_header (cstr topic) now) P k)) =
    Some (wire_message (wire_header (cstr topic) now) P k)"
    "length (message_bytes (wire_message (wire_header (cstr topic) now) P k)) = 4096"
proof -
  have "wf_message (wire_message (wire_header (cstr topic) now) P k)"
    using assms by (simp add: publishable_def wf_wire_message wf_wire_header)
  then show "message_of_bytes (message_bytes (wire_message (wire_header (cstr topic) now) P k)) =
    Some (wire_message (wire_header (cstr topic) now) P k)"
    "length (message_bytes (wire_message (wire_header (cstr topic) now) P k)) = 4096"
    using message_codec.dec_enc_exact message_codec.enc_length by (simp_all add: QUEKKA_MSG_SIZE_def)
qed

definition sample_producer :: Quekka_producer where
  "sample_producer = \<lparr>p_fd = 3, p_config = [], p_publish = Fn_Quekka_publish\<rparr>"

definition sample_pub_state :: pub_state where
  "sample_pub_state =
     \<lparr>trace = [], errno = 0, quecode = (\<lambda>_. QUECODE_SUCCESS),
      g_producer = (\<lambda>_. Some sample_producer)\<rparr>"

definition sample_topic :: "char list" where "sample_topic = ''logs'' @ [NUL]"
definition sample_payload :: "char list" where "sample_payload = ''hello'' @ [NUL]"

lemma sample_publishable:
  assumes "NUL \<in> set topic" and "NUL \<in> set payload" and "cstr topic \<noteq> []" and "length (cstr topic) < 65535"
  shows "publishable sample_kernel t topic payload sample_pub_state sample_producer sample_tm"
  using assms
  by (simp add: publishable_def sample_pub_state_def sample_producer_def sample_kernel_def sample_tm_def
      four_digit_year_def)

lemma sample_publishable_hello:
  "publishable sample_kernel 0 sample_topic sample_payload sample_pub_state sample_producer sample_tm"
  by (rule sample_publishable) (simp_all add: sample_topic_def sample_payload_def)

lemma cstr_sample [simp]: "cstr sample_topic = ''logs''" "cstr sample_payload = ''hello''"
  by (simp_all add: sample_topic_def sample_payload_def)

section \<open>Properties of publishing\<close>

text \<open>
  C1. A publication of a non-empty topic of fewer than 65535 characters and a payload of at most 65536
  chunks whose length is the announced size, by a thread with a producer and in a year of four digits, returns 0 and
  sends, on the producer's descriptor and in order, one frame per started
  3943 bytes of payload. Every frame is exactly 4096 bytes; read back as the packed struct,
  frame \<open>k\<close> has the sequence number \<open>k\<close>, the topic's length, as payload length that of all the
  payload from its chunk on (modulo 2^16), as payload text the first 3942 of the 3943
  bytes of its chunk, and the flag for more to come, on the last frame too.
\<close>

theorem publish_framing:
  fixes s :: "'z pub_state_scheme"
  assumes "publishable K t topic payload s p now" and "P = cstr payload" and "length P \<le> 65536 * 3943"
  shows "\<exists>s' frames. Quekka_publish K t topic payload (length P) s = (Ret 0, s') \<and>
    quecode s' = quecode s \<and>
    sends (trace s') = sends (trace s) @ map (Pair (p_fd p)) frames \<and>
    length frames = (length P + 3942) div 3943 \<and>
    (\<forall>k < length frames. length (frames ! k) = 4096 \<and>
       (\<exists>m. message_of_bytes (frames ! k) = Some m \<and>
          h_topic_len (m_header m) = word_of_nat (length (cstr topic)) \<and>
          h_seq (m_header m) = word_of_nat k \<and> h_flags (m_header m) = QUEKKA_FLAG_MORE \<and>
          h_payload_len (m_header m) = word_of_nat (length P - k * 3943) \<and>
          cstr (m_payload m) = take 3942 (drop (k * 3943) P)))"
proof -
  let ?m = "wire_message (wire_header (cstr topic) now) P"
  let ?frames = "map (\<lambda>k. message_bytes (?m k)) [0..<chunk_count P]"
  obtain s' where s': "Quekka_publish K t topic payload (length P) s = (Ret 0, s')" "quecode s' = quecode s"
    "sends (trace s') = sends (trace s) @ map (Pair (p_fd p)) ?frames"
    using publish_run [OF assms(1)] assms(2) by (auto simp: o_def)
  have "length (?frames ! k) = 4096 \<and> message_of_bytes (?frames ! k) = Some (?m k) \<and>
    h_topic_len (m_header (?m k)) = word_of_nat (length (cstr topic)) \<and> h_seq (m_header (?m k)) = word_of_nat k \<and>
    h_flags (m_header (?m k)) = QUEKKA_FLAG_MORE \<and>
    h_payload_len (m_header (?m k)) = word_of_nat (length P - k * 3943) \<and>
    cstr (m_payload (?m k)) = take 3942 (drop (k * 3943) P)" if "k < chunk_count P" for k
  proof -
    have "k < 65536" using that assms(3) unfolding chunk_count_def PAYLOAD_MAX_eq by linarith
    moreover have "NUL \<notin> set P" using assms(2) by simp
    ultimately show ?thesis
      using that publish_frame_decodes [OF assms(1)] by (simp add: wire_message_fields cstr_wire_payload)
  qed
  moreover have "length ?frames = (length P + 3942) div 3943"
    by (simp add: chunk_count_def PAYLOAD_MAX_eq)
  ultimately show ?thesis using s' by (intro exI [of _ s'] exI [of _ ?frames]) auto
qed


theorem publish_framing_witness:
  "\<exists>s' f m. Quekka_publish sample_kernel 0 sample_topic sample_payload (length ''hello'') sample_pub_state = (Ret 0, s') \<and>
     sends (trace s') = [(3, f)] \<and> message_of_bytes f = Some m \<and> cstr (m_payload m) = ''hello'' \<and>
     h_payload_len (m_header m) = 5"
proof -
  have le: "length ''hello'' \<le> 65536 * 3943" by simp
  from publish_framing [OF sample_publishable_hello cstr_sample(2) [symmetric] le]
  obtain s' frames where
    s': "Quekka_publish sample_kernel 0 sample_topic sample_payload (length ''hello'') sample_pub_state = (Ret 0, s')"
    "sends (trace s') = sends (trace sample_pub_state) @ map (Pair (p_fd sample_producer)) frames"
    and n: "length frames = (length ''hello'' + 3942) div 3943"
    and all: "\<forall>k < length frames. length (frames ! k) = 4096 \<and>
       (\<exists>m. message_of_bytes (frames ! k) = Some m \<and>
          h_topic_len (m_header m) = word_of_nat (length (cstr sample_topic)) \<and>
          h_seq (m_header m) = word_of_nat k \<and> h_flags (m_header m) = QUEKKA_FLAG_MORE \<and>
          h_payload_len (m_header m) = word_of_nat (length ''hello'' - k * 3943) \<and>
          cstr (m_payload m) = take 3942 (drop (k * 3943) ''hello''))"
    by blast
  from n obtain f where f: "frames = [f]" by (auto simp: length_Suc_conv)
  with all have "\<exists>m. message_of_bytes f = Some m \<and> cstr (m_payload m) = ''hello'' \<and> h_payload_len (m_header m) = 5"
    by auto
  with s' f show ?thesis by (auto simp: sample_pub_state_def sample_producer_def simp del: list.size)
qed

text \<open>
  The end of a message is never marked: no frame of a publication carries
  \<open>QUEKKA_FLAG_LAST\<close>, not even the last one. The header copy of \<open>message_assemble\<close> is one byte
  short (\<open>QUEKKA_HEADER_SIZE - 1\<close>) and the byte it leaves out is \<open>flags\<close>.
\<close>

theorem publish_never_marks_last:
  assumes "publishable K t topic payload s p now"
    and "Quekka_publish K t topic payload (length (cstr payload)) s = (r, s')"
    and "b \<in> set (frames_sent s s')"
  shows "\<exists>m. message_of_bytes b = Some m \<and> h_flags (m_header m) = QUEKKA_FLAG_MORE \<and>
    h_flags (m_header m) \<noteq> QUEKKA_FLAG_LAST"
  using assms(3) publish_frame_decodes [OF assms(1)]
  by (auto simp: publish_frames(2) [OF assms(1,2)] wire_message_fields QUEKKA_FLAG_MORE_def QUEKKA_FLAG_LAST_def)

theorem publish_never_marks_last_witness:
  "\<exists>s' b m. Quekka_publish sample_kernel 0 sample_topic sample_payload (length (cstr sample_payload)) sample_pub_state
       = (Ret 0, s') \<and>
     frames_sent sample_pub_state s' = [b] \<and> message_of_bytes b = Some m \<and> h_flags (m_header m) = 0"
proof -
  note pub = sample_publishable_hello
  obtain r s' where run: "Quekka_publish sample_kernel 0 sample_topic sample_payload (length (cstr sample_payload))
       sample_pub_state = (r, s')"
    by fastforce
  have c: "chunk_count (cstr sample_payload) = Suc 0" by (simp add: chunk_count_def PAYLOAD_MAX_eq)
  obtain b where b: "frames_sent sample_pub_state s' = [b]"
    using publish_frames(2) [OF pub run] unfolding c by simp
  then have "b \<in> set (frames_sent sample_pub_state s')" by simp
  from publish_never_marks_last [OF pub run this] b run publish_frames(1) [OF pub run] show ?thesis
    by (auto simp: QUEKKA_FLAG_MORE_def simp del: list.size cstr_sample)
qed

text \<open>
  C30. Topics are cut to their first four characters: two topics of the same length that agree on
  these are published as identical byte sequences, so no receiver can tell them apart. The
  bound of both \<open>strncpy\<close> calls in \<open>header_assemble\<close> is \<open>sizeof\<close> of an integer constant expression.
\<close>

theorem publish_topic_collision:
  assumes "publishable K t topic payload s p now" and "publishable K t topic' payload s p now"
    and "take 4 (cstr topic) = take 4 (cstr topic')" and "length (cstr topic) = length (cstr topic')"
    and "Quekka_publish K t topic payload (length (cstr payload)) s = (r, s1)"
    and "Quekka_publish K t topic' payload (length (cstr payload)) s = (r', s2)"
  shows "r = Ret 0 \<and> r' = Ret 0 \<and> frames_sent s s1 = frames_sent s s2"
proof -
  have "wire_header (cstr topic) now = wire_header (cstr topic') now"
    by (simp add: wire_header_def assms(3,4))
  then show ?thesis
    by (simp add: publish_frames [OF assms(1,5)] publish_frames [OF assms(2,6)])
qed

theorem publish_topic_collision_witness:
  "\<exists>s1 s2. Quekka_publish sample_kernel 0 (''order-created'' @ [NUL]) sample_payload (length (cstr sample_payload))
        sample_pub_state = (Ret 0, s1) \<and>
     Quekka_publish sample_kernel 0 (''order-deleted'' @ [NUL]) sample_payload (length (cstr sample_payload))
        sample_pub_state = (Ret 0, s2) \<and>
     frames_sent sample_pub_state s1 = frames_sent sample_pub_state s2"
proof -
  have pub: "publishable sample_kernel 0 (''order-created'' @ [NUL]) sample_payload sample_pub_state sample_producer sample_tm"
    "publishable sample_kernel 0 (''order-deleted'' @ [NUL]) sample_payload sample_pub_state sample_producer sample_tm"
    by (rule sample_publishable; simp add: sample_payload_def)+
  obtain r s1 r' s2 where run:
    "Quekka_publish sample_kernel 0 (''order-created'' @ [NUL]) sample_payload (length (cstr sample_payload))
        sample_pub_state = (r, s1)"
    "Quekka_publish sample_kernel 0 (''order-deleted'' @ [NUL]) sample_payload (length (cstr sample_payload))
        sample_pub_state = (r', s2)"
    by fastforce
  from publish_topic_collision [OF pub _ _ run] run show ?thesis by auto
qed

text \<open>Cutting a list every \<open>c\<close> elements and keeping one less of each piece.\<close>

definition clipped :: "nat \<Rightarrow> 'a list \<Rightarrow> 'a list" where
  "clipped c P = concat (map (\<lambda>k. take (c - 1) (drop (k * c) P)) [0..<(length P + c - 1) div c])"

lemma clipped_step:
  assumes "0 < c" and "P \<noteq> []"
  shows "clipped c P = take (c - 1) P @ clipped c (drop c P)"
proof -
  have n: "(length P + c - 1) div c = Suc ((length (drop c P) + c - 1) div c)"
  proof (cases "length P \<le> c")
    case True
    have "0 < length P" using assms(2) by simp
    then have "c \<le> length P + c - 1" and "length P + c - 1 < 2 * c"
      using True assms(1) by linarith+
    then have "(length P + c - 1) div c = 1"
      by (intro div_nat_eqI) auto
    then show ?thesis using True assms(1) by simp
  next
    case False
    then have "length P + c - 1 = (length (drop c P) + c - 1) + c" using assms(1) by simp
    then have "(length P + c - 1) div c = ((length (drop c P) + c - 1) + c) div c" by (rule arg_cong)
    also have "\<dots> = Suc ((length (drop c P) + c - 1) div c)" using assms(1) by (simp only: div_add_self2)
    finally show ?thesis .
  qed
  have "[0..<Suc m] = 0 # map Suc [0..<m]" for m
    by (simp add: upt_conv_Cons map_Suc_upt del: upt_Suc)
  moreover have "drop (Suc k * c) P = drop (k * c) (drop c P)" for k
    by (simp add: add.commute)
  ultimately show ?thesis
    unfolding clipped_def n by (simp only: list.map map_map o_def concat.simps mult_0 drop_0)
qed

lemma clipped_Nil: "0 < c \<Longrightarrow> clipped c [] = []"
  by (simp add: clipped_def)

lemma length_clipped: "0 < c \<Longrightarrow> length (clipped c P) = length P - length P div c"
proof (induction "length P" arbitrary: P rule: less_induct)
  case less
  show ?case
  proof (cases "P = []")
    case True
    then show ?thesis using less.prems by (simp add: clipped_def)
  next
    case False
    then have "length (drop c P) < length P" using less.prems by simp
    from less.hyps [OF this less.prems] clipped_step [OF less.prems False]
    have len: "length (clipped c P) = min (length P) (c - 1) + (length P - c - (length P - c) div c)" by simp
    show ?thesis
    proof (cases "length P < c")
      case True
      then show ?thesis using len by simp
    next
      case False
      have "(length P - c) div c = length P div c - 1" using False less.prems
        by (metis div_self le_div_geq less_not_refl diff_Suc_1 not_less)
      moreover have "1 \<le> length P div c" using False less.prems by (simp add: div_greater_zero_iff Suc_le_eq)
      moreover have "length P div c \<le> length P" by simp
      moreover have "(length P - c) div c \<le> length P - c" by simp
      ultimately show ?thesis using len False less.prems by linarith
    qed
  qed
qed

text \<open>
  C23. What arrives is not what was published once a payload exceeds 3942 bytes: for a payload of at most 65536
  chunks, putting the payload texts of the frames together gives a text that lacks one byte of every full
  chunk, so the receiver can rebuild the payload exactly when it is shorter than 3943 bytes.
\<close>

theorem publish_payload_loss:
  assumes "publishable K t topic payload s p now" and "P = cstr payload" and "length P \<le> 65536 * 3943"
    and "Quekka_publish K t topic payload (length P) s = (r, s')"
  shows "\<exists>ms. map message_of_bytes (frames_sent s s') = map Some ms \<and>
    length (concat (map (cstr \<circ> m_payload) ms)) = length P - length P div 3943 \<and>
    (concat (map (cstr \<circ> m_payload) ms) = P \<longleftrightarrow> length P < 3943)"
proof -
  let ?m = "wire_message (wire_header (cstr topic) now) P"
  let ?ms = "map ?m [0..<chunk_count P]"
  have "map message_of_bytes (frames_sent s s') = map Some ?ms"
    using publish_frames(2) [OF assms(1)] assms(2,4) publish_frame_decodes(1) [OF assms(1)] by simp
  moreover have texts: "concat (map (cstr \<circ> m_payload) ?ms) = clipped 3943 P"
  proof -
    have "cstr (m_payload (?m k)) = take 3942 (drop (k * 3943) P)" if "k < chunk_count P" for k
    proof -
      have "k < 65536" using that assms(3) unfolding chunk_count_def PAYLOAD_MAX_eq by linarith
      then show ?thesis using cstr_wire_payload [of P "wire_header (cstr topic) now" k] assms(2) by simp
    qed
    then have "map (cstr \<circ> m_payload) ?ms = map (\<lambda>k. take (3943 - 1) (drop (k * 3943) P)) [0..<chunk_count P]"
      by simp
    then show ?thesis unfolding clipped_def chunk_count_def PAYLOAD_MAX_eq by (rule arg_cong)
  qed
  moreover have "clipped 3943 P = P \<longleftrightarrow> length P < 3943"
  proof
    assume eq: "clipped 3943 P = P"
    then have "length P = length P - length P div 3943" using length_clipped [of 3943 P] by simp
    then show "length P < 3943" by (metis diff_diff_cancel diff_self_eq_0 div_eq_0_iff div_le_dividend zero_neq_numeral)
  next
    assume "length P < 3943"
    then show "clipped 3943 P = P"
      by (cases "P = []") (simp_all add: clipped_step clipped_Nil)
  qed
  ultimately show ?thesis using length_clipped [of 3943 P] by (intro exI [of _ ?ms]) auto
qed

theorem publish_payload_loss_witness:
  "\<exists>s' ms. Quekka_publish sample_kernel 0 sample_topic (replicate 3943 (CHR ''x'') @ [NUL]) 3943 sample_pub_state
       = (Ret 0, s') \<and>
     map message_of_bytes (frames_sent sample_pub_state s') = map Some ms \<and>
     length (concat (map (cstr \<circ> m_payload) ms)) = 3942"
proof -
  define P where "P = replicate 3943 (CHR ''x'')"
  define b where "b = P @ [NUL]"
  have len: "length P = 3943" by (simp add: P_def)
  have c: "cstr b = P" unfolding b_def by (rule cstr_terminated) (simp add: P_def)
  have pub: "publishable sample_kernel 0 sample_topic b sample_pub_state sample_producer sample_tm"
    by (rule sample_publishable) (simp_all add: sample_topic_def b_def)
  obtain r s' where run: "Quekka_publish sample_kernel 0 sample_topic b (length P) sample_pub_state = (r, s')"
    by fastforce
  have le: "length P \<le> 65536 * 3943" using len by simp
  from publish_payload_loss [OF pub c [symmetric] le run] obtain ms where
    "map message_of_bytes (frames_sent sample_pub_state s') = map Some ms"
    "length (concat (map (cstr \<circ> m_payload) ms)) = length P - length P div 3943" by blast
  moreover have "r = Ret 0" using publish_frames(1) [OF pub run [folded c]] .
  ultimately show ?thesis using run unfolding len b_def P_def by (intro exI conjI) auto
qed

text \<open>
  C29. The sequence number is 16 bits wide and also picks the chunk: past 65536 frames a
  publication starts over. Frame \<open>k + 65536\<close> is frame \<open>k\<close> byte for byte, so of a payload
  longer than 258408448 bytes nothing beyond these is ever sent, and the call still returns 0.
\<close>

theorem publish_sequence_wraps:
  assumes "publishable K t topic payload s p now"
    and "Quekka_publish K t topic payload (length (cstr payload)) s = (r, s')"
    and "k + 65536 < length (frames_sent s s')"
  shows "r = Ret 0 \<and> frames_sent s s' ! (k + 65536) = frames_sent s s' ! k"
proof -
  have "wire_message h P (k + 65536) = wire_message h P k" for h P
    by (simp add: wire_message_def)
  then show ?thesis
    using assms(3) publish_frames [OF assms(1,2)] by simp
qed

theorem publish_sequence_wraps_witness:
  "\<exists>s'. Quekka_publish sample_kernel 0 sample_topic (replicate 258408449 (CHR ''x'') @ [NUL]) 258408449
       sample_pub_state = (Ret 0, s') \<and>
     length (frames_sent sample_pub_state s') = 65537 \<and>
     frames_sent sample_pub_state s' ! 65536 = frames_sent sample_pub_state s' ! 0"
proof -
  define P where "P = replicate 258408449 (CHR ''x'')"
  define b where "b = P @ [NUL]"
  have len: "length P = 258408449" by (simp add: P_def)
  have "NUL \<notin> set P" by (simp add: P_def)
  then have c: "cstr b = P" unfolding b_def by (rule cstr_terminated)
  have pub: "publishable sample_kernel 0 sample_topic b sample_pub_state sample_producer sample_tm"
    by (rule sample_publishable) (simp_all add: sample_topic_def b_def)
  obtain r s' where run: "Quekka_publish sample_kernel 0 sample_topic b (length P) sample_pub_state = (r, s')"
    by fastforce
  note run' = run [folded c]
  have n: "length (frames_sent sample_pub_state s') = 65537"
    unfolding publish_frames(2) [OF pub run'] length_map length_upt c chunk_count_def PAYLOAD_MAX_eq len by simp
  have "0 + 65536 < length (frames_sent sample_pub_state s')" unfolding n by simp
  from publish_sequence_wraps [OF pub run' this] have
    "r = Ret 0" "frames_sent sample_pub_state s' ! 65536 = frames_sent sample_pub_state s' ! 0"
    by (simp_all only: add_0 simp_thms)
  then show ?thesis using run n unfolding len unfolding b_def P_def by blast
qed

text \<open>
  C14. Every outcome of \<open>Quekka_publish\<close> on terminated texts, whatever the kernel answers. An empty
  topic, one of 65535 or more characters and a size that is not the payload's length give -1
  and the thread's error code, with nothing called. (An integration test passes the sum of both
  lengths as the size and expects 0; the code answers -1, a divergence among the findings.) Else no error
  code is set and there are three faults, all before the first \<open>send\<close>: no broken-down time for
  the answer to \<open>time\<close> (NULL pointer); a time text of 18 or more characters (the 18 bytes for it stay
  uninitialised); and, with a payload, a thread without producer (NULL pointer). Otherwise it returns 0 after
  one \<open>send\<close> per started 3943 bytes of payload, none for an empty one, all on the producer's descriptor.
\<close>

theorem publish_outcome:
  fixes s :: "'z pub_state_scheme"
  assumes "NUL \<in> set topic" and "NUL \<in> set payload" and "Quekka_publish K t topic payload sz s = (r, s')"
  shows "if cstr topic = [] \<or> 65535 \<le> length (cstr topic) \<or> length (cstr payload) \<noteq> sz
    then r = Ret (-1) \<and> s' = put_quecode t QUECODE_FAILURE s
    else quecode s' = quecode s \<and> g_producer s' = g_producer s \<and>
      (\<exists>fs qs. trace s' = trace s @ Call Time (K (trace s) Time) #
          send_events (case g_producer s t of Some p \<Rightarrow> p_fd p | None \<Rightarrow> 0) fs qs \<and> length qs = length fs \<and>
        (case tm_of (K (trace s) Time) of
           None \<Rightarrow> r = Fault Null_deref \<and> fs = []
         | Some now \<Rightarrow>
             if 18 \<le> length (strftime_msg_id now) then r = Fault Uninitialised \<and> fs = []
             else if cstr payload \<noteq> [] \<and> g_producer s t = None then r = Fault Null_deref \<and> fs = []
             else r = Ret 0 \<and> length fs = (sz + 3942) div 3943))"
proof (cases "cstr topic = [] \<or> 65535 \<le> length (cstr topic) \<or> length (cstr payload) \<noteq> sz")
  case True
  then have "Quekka_publish K t topic payload sz s = (Ret (-1), put_quecode t QUECODE_FAILURE s)"
    by (auto simp: Quekka_publish_def run_simps c_strlen_Some assms(1,2))
  then show ?thesis using True assms(3) by simp
next
  case False
  define s1 where "s1 = s\<lparr>trace := trace s @ [Call Time (K (trace s) Time)], errno := err_of (K (trace s) Time) (errno s)\<rparr>"
  have s1: "trace s1 = trace s @ [Call Time (K (trace s) Time)]" "g_producer s1 = g_producer s" "quecode s1 = quecode s"
    by (simp_all add: s1_def)
  obtain h where h: "wf_header h" "header_assemble K zero_header topic s =
    (case tm_of (K (trace s) Time) of None \<Rightarrow> (Fault Null_deref, s1)
     | Some now \<Rightarrow> (if 18 \<le> length (strftime_msg_id now) then Fault Uninitialised else Ret h, s1))"
    unfolding s1_def using header_assemble_cases [OF assms(1)] by blast
  have sz: "sz = length (cstr payload)" using False by simp
  show ?thesis
  proof (cases "\<exists>now. tm_of (K (trace s) Time) = Some now \<and> \<not> 18 \<le> length (strftime_msg_id now)")
    case early: False
    then have "(r, s') = (case tm_of (K (trace s) Time) of None \<Rightarrow> (Fault Null_deref, s1) | Some now \<Rightarrow> (Fault Uninitialised, s1))"
      using False h(2) assms(3) by (auto simp: Quekka_publish_def run_simps c_strlen_Some assms(1,2) split: option.splits)
    then show ?thesis using False early s1 by (intro iffD2 [OF if_not_P] conjI exI [of _ "[]"]) (auto split: option.splits)
  next
    case True
    then obtain now where now: "tm_of (K (trace s) Time) = Some now" "\<not> 18 \<le> length (strftime_msg_id now)" by blast
    have run: "(r, s') = publish_loop K t h payload sz 0 s1"
      using False h(2) now assms(3) by (simp add: Quekka_publish_def run_simps c_strlen_Some assms(1,2))
    show ?thesis
    proof (cases "g_producer s t")
      case None
      then have "(r, s') = (if 0 < sz then Fault Null_deref else Ret 0, s1)"
        using run h(1) by (simp add: message_assemble_run [OF assms(2)] publish_loop.simps [of K t h payload sz 0] run_simps c_offset_def s1 Let_def)
      then show ?thesis using False None now s1 sz by (intro iffD2 [OF if_not_P] conjI exI [of _ "[]"]) (auto split: if_splits)
    next
      case (Some p)
      then have p: "g_producer s1 t = Some p" by (simp add: s1)
      from publish_loop_sends [where K = K and k = 0 and sq = 0 and remaining = sz, OF assms(2) refl h(1) p] sz run obtain qs where
        "r = Ret 0" "length qs = chunk_count (cstr payload)" "g_producer s' = g_producer s1" "quecode s' = quecode s1"
        "trace s' = trace s1 @ send_events (p_fd p) (map (\<lambda>j. message_bytes (wire_message h (cstr payload) j)) [0..<chunk_count (cstr payload)]) qs"
        by force
      then show ?thesis
        using False Some now s1 sz
        by (auto simp: chunk_count_def PAYLOAD_MAX_eq intro!: exI [of _ "map (\<lambda>j. message_bytes (wire_message h (cstr payload) j)) [0..<chunk_count (cstr payload)]"] exI [of _ qs])
    qed
  qed
qed

theorem publish_outcome_witness:
  "(\<exists>s' f q. Quekka_publish sample_kernel 0 sample_topic sample_payload 5 sample_pub_state = (Ret 0, s') \<and>
     trace s' = [Call Time (sample_kernel [] Time), Call (Send 3 f Msg_dontwait) q])"
proof -
  obtain r s' where run: "Quekka_publish sample_kernel 0 sample_topic sample_payload 5 sample_pub_state = (r, s')"
    by fastforce
  have h: "NUL \<in> set sample_topic" "NUL \<in> set sample_payload" "tm_of (sample_kernel [] Time) = Some sample_tm"
    "length (strftime_msg_id sample_tm) = 14"
    by (simp_all add: sample_topic_def sample_payload_def sample_kernel_def length_strftime_msg_id show_year_4 sample_tm_def)
  from publish_outcome [OF h(1,2) run] h(3,4) obtain fs qs where "r = Ret 0" "length fs = Suc 0" "length qs = length fs"
    "trace s' = Call Time (sample_kernel [] Time) # send_events 3 fs qs"
    by (auto simp: sample_pub_state_def sample_producer_def)
  then show ?thesis using run by (auto simp: length_Suc_conv)
qed

section \<open>Properties of the producer's creation\<close>

text \<open>The environment in which creation goes through: socket, connection and memory are granted.\<close>

definition producer_calls :: "Quekka_config \<Rightarrow> int \<Rightarrow> syscall list" where
  "producer_calls config fd =
     [Socket, Connect fd (socket_set_server_address (cfg_ip config) (uint (cfg_port config))), Malloc SIZEOF_PRODUCER]"

definition grants :: "kernel \<Rightarrow> event list \<Rightarrow> Quekka_config \<Rightarrow> int \<Rightarrow> int \<Rightarrow> bool" where
  "grants K tr config fd p \<longleftrightarrow>
     (let addr = socket_set_server_address (cfg_ip config) (uint (cfg_port config));
          tr1 = tr @ [Call Socket (Val fd)]; tr2 = tr1 @ [Call (Connect fd addr) (Val 0)]
      in 0 < fd \<and> 0 < p \<and> K tr Socket = Val fd \<and> K tr1 (Connect fd addr) = Val 0 \<and>
         K tr2 (Malloc SIZEOF_PRODUCER) = Val p)"

lemma producer_init_run:
  assumes "g_producer s t = None" and "grants K (trace s) config fd p" and "wf_config config"
  shows "Quekka_producer_init K t beyond config s =
    (let s' = s\<lparr>trace := trace s @ map2 Call (producer_calls config fd) [Val fd, Val 0, Val p]\<rparr> in
     if length beyond < 6 then (Fault Out_of_bounds, s')
     else let q = \<lparr>p_fd = fd, p_config = take 8 (drop 8 (cfg_ip config)), p_publish = Fn_Quekka_publish\<rparr>
       in (Ret (Some q), put_producer t (Some q) s'))"
proof -
  have len: "length (config_bytes config) = 18"
    using assms(3) by (simp add: config_bytes_def wf_config_def INET_ADDRSTRLEN_def)
  have cp: "c_memcpy (replicate SIZEOF_PRODUCER NUL) (config_bytes config @ beyond) SIZEOF_PRODUCER =
    (if length beyond < 6 then None else Some (config_bytes config @ take 6 beyond))"
    using len by (auto simp: c_memcpy_def SIZEOF_PRODUCER_def)
  have "take 8 (drop 8 (config_bytes config @ x)) = take 8 (drop 8 (cfg_ip config))" for x
    using assms(3) by (simp add: config_bytes_def wf_config_def INET_ADDRSTRLEN_def)
  then show ?thesis
    using assms(1,2)
    by (simp add: Quekka_producer_init_def socket_init_def socket_connect_def run_simps grants_def Let_def
        err_of_def ptr_of_def cp producer_of_bytes_def producer_calls_def del: One_nat_def)
qed

definition no_producer :: pub_state where
  "no_producer = sample_pub_state\<lparr>g_producer := (\<lambda>_. None)\<rparr>"

lemma sample_grants: "grants sample_kernel [] zero_config 3 4160"
  by (simp add: grants_def Let_def sample_kernel_def fresh_fd_def)

text \<open>
  C40. \<open>Quekka_producer_init\<close> reads past its argument: it copies \<open>sizeof(Quekka_producer)\<close>, 24
  bytes, out of a configuration of 18. Where no 6 readable bytes follow, the behaviour is
  undefined, after the connection was made. Where they do, the call returns a connected
  producer whose \<open>config\<close> pointer is made of the bytes 8 to 15 of the address text.
\<close>

theorem producer_init_reads_past_config:
  assumes "g_producer s t = None" and "grants K (trace s) config fd p" and "wf_config config"
    and "Quekka_producer_init K t beyond config s = (r, s')"
  shows "trace s' = trace s @ map2 Call (producer_calls config fd) [Val fd, Val 0, Val p] \<and>
    (if length beyond < 6 then r = Fault Out_of_bounds \<and> g_producer s' = g_producer s
     else \<exists>q. r = Ret (Some q) \<and> p_fd q = fd \<and> p_publish q = Fn_Quekka_publish \<and>
       p_config q = take 8 (drop 8 (cfg_ip config)) \<and> g_producer s' = (g_producer s)(t := Some q))"
  using assms(4) producer_init_run [OF assms(1-3), of beyond]
  by (auto simp: Let_def split: if_splits)

theorem producer_init_reads_past_config_witness:
  "\<exists>s'. Quekka_producer_init sample_kernel 0 [] zero_config no_producer = (Fault Out_of_bounds, s') \<and>
     length (trace s') = 3"
proof -
  obtain r s' where run: "Quekka_producer_init sample_kernel 0 [] zero_config no_producer = (r, s')" by fastforce
  have h: "g_producer no_producer 0 = None" "grants sample_kernel (trace no_producer) zero_config 3 4160"
    using sample_grants by (simp_all add: no_producer_def sample_pub_state_def)
  from producer_init_reads_past_config [OF h wf_zero_config run] run show ?thesis
    by (simp add: producer_calls_def no_producer_def sample_pub_state_def)
qed

text \<open>
  There is one producer per thread: once \<open>Quekka_producer_init\<close> has returned a producer to
  a thread, every later call of this thread returns the same one without any system call,
  whatever configuration it is given; and the producers of other threads are untouched.
\<close>

theorem producer_init_once:
  assumes "Quekka_producer_init K t beyond config s = (Ret (Some q), s')"
  shows "Quekka_producer_init K' t beyond' config' s' = (Ret (Some q), s') \<and>
    (\<forall>u. u \<noteq> t \<longrightarrow> g_producer s' u = g_producer s u)"
proof -
  have "g_producer s' t = Some q \<and> (\<forall>u. u \<noteq> t \<longrightarrow> g_producer s' u = g_producer s u)"
    using assms unfolding Quekka_producer_init_def
    by (auto simp: run_simps socket_defs Let_def require_c_Ret_iff split: if_splits elim!: bind_c_RetE then_c_RetE
        dest!: arg_cong [of _ _ g_producer])
  then show ?thesis by (simp add: Quekka_producer_init_def run_simps)
qed

text \<open>
  The check after \<open>socket_init\<close> tests for 0, while failure is -1: when no socket can be
  had, creation goes on with descriptor -1, the connection fails on it and the process
  exits with status 1; neither NULL nor an error code ever reaches the caller.
\<close>

theorem producer_init_socket_failure:
  assumes "g_producer s t = None" and "K (trace s) Socket = Err e"
    and "\<forall>tr addr. K tr (Connect (-1) addr) = Err EBADF"
    and "Quekka_producer_init K t beyond config s = (r, s')"
  shows "r = Exit 1 \<and> quecode s' = quecode s \<and> g_producer s' = g_producer s \<and>
    (\<exists>addr r'. trace s' = trace s @ [Call Socket (Err e), Logged LOG_ERROR ''socket failed: %s'' [Strerror_arg e],
       Call (Connect (-1) addr) (Err EBADF),
       Logged LOG_ERROR ''connect failed: %s'' [Strerror_arg EBADF], Call (Close (-1)) r'])"
  using assms
  by (auto simp: Quekka_producer_init_def socket_defs run_simps err_of_def Let_def)

text \<open>
  The byte order of the port does not fit together across components: a producer whose
  configuration was filled by \<open>Quekka_config_set_address\<close> connects to the port that was
  written, one whose port was set by \<open>Quekka_config_set_port\<close> connects to the port with the
  two bytes exchanged (9999 becomes 3879).
\<close>

theorem producer_connects_to_port:
  assumes "wf_config c" and "host_text h" and "length h \<le> 16" and "port_text p"
    and "decimal_value p < 65536"
    and "Quekka_config_set_address (h @ CHR '':'' # p @ [NUL]) c = (Ret 0, c1)"
    and "Quekka_config_set_port (p @ [NUL]) c = (Ret 0, c2)"
  shows "sin_port (socket_set_server_address (cfg_ip c1) (uint (cfg_port c1))) = htons (word_of_nat (decimal_value p)) \<and>
    sin_port (socket_set_server_address (cfg_ip c2) (uint (cfg_port c2))) = word_of_nat (decimal_value p)"
proof -
  have port: "sin_port (socket_set_server_address ip (uint w)) = htons w" for ip w
    by (simp add: socket_set_server_address_def set_sin_addr_def zero_sockaddr_def split: option.split)
  have "\<forall>c \<in> set p. c_isdigit c" "decimal_value p < 2 ^ 31"
    using assms(4,5) by (auto simp: port_text_def)
  from set_port_run [OF assms(4) this(2), of c] have "cfg_port c2 = htons (word_of_nat (decimal_value p))"
    using assms(7) by auto
  moreover have "cfg_port c1 = word_of_nat (decimal_value p)"
    using set_address_run [OF assms(2) _ assms(4), of c "[]"] assms(1,3,6) c_atoi_digits [OF \<open>\<forall>c \<in> set p. c_isdigit c\<close> \<open>decimal_value p < 2 ^ 31\<close>]
    by (auto simp: wf_config_def INET_ADDRSTRLEN_def)
  ultimately show ?thesis by (simp add: port)
qed

theorem producer_connects_to_port_witness:
  "\<exists>c1 c2. Quekka_config_set_address (''127.0.0.1'' @ CHR '':'' # ''9999'' @ [NUL]) zero_config = (Ret 0, c1) \<and>
     Quekka_config_set_port (''9999'' @ [NUL]) zero_config = (Ret 0, c2) \<and>
     unat (sin_port (socket_set_server_address (cfg_ip c1) (uint (cfg_port c1)))) = 3879 \<and>
     unat (sin_port (socket_set_server_address (cfg_ip c2) (uint (cfg_port c2)))) = 9999"
proof -
  have h: "host_text ''127.0.0.1''" "length ''127.0.0.1'' \<le> 16" "port_text ''9999''" "decimal_value ''9999'' < 65536"
    by (simp_all add: host_text_def port_text_def c_isdigit_def decimal_value_def digit_value_def)
  obtain c1 c2 where c: "Quekka_config_set_address (''127.0.0.1'' @ CHR '':'' # ''9999'' @ [NUL]) zero_config = (Ret 0, c1)"
    "Quekka_config_set_port (''9999'' @ [NUL]) zero_config = (Ret 0, c2)"
    using set_address_run [OF h(1) _ h(3), of zero_config "[]"]
    by (auto simp: Quekka_config_set_port_def put_port_def run_simps zero_config_def INET_ADDRSTRLEN_def intro: that)
  from producer_connects_to_port [OF wf_zero_config h c] c show ?thesis
    by (auto simp: unat_htons decimal_value_def digit_value_def)
qed

theorem producer_init_once_witness:
  "\<exists>q s'. Quekka_producer_init sample_kernel 0 (replicate 6 NUL) zero_config no_producer = (Ret (Some q), s') \<and>
     Quekka_producer_init sample_kernel 0 [] zero_config s' = (Ret (Some q), s')"
proof -
  have h: "g_producer no_producer 0 = None" "grants sample_kernel (trace no_producer) zero_config 3 4160"
    using sample_grants by (simp_all add: no_producer_def sample_pub_state_def)
  obtain q s' where run: "Quekka_producer_init sample_kernel 0 (replicate 6 NUL) zero_config no_producer = (Ret (Some q), s')"
    using producer_init_run [OF h wf_zero_config, of "replicate 6 NUL"] by (auto simp: Let_def)
  from producer_init_once [OF run, of sample_kernel "[]" zero_config] run show ?thesis by blast
qed

theorem producer_init_socket_failure_witness:
  "\<exists>s'. Quekka_producer_init (\<lambda>tr c. if c = Socket then Err 24 else Err EBADF) 0 [] zero_config no_producer = (Exit 1, s')"
proof -
  obtain r s' where run: "Quekka_producer_init (\<lambda>tr c. if c = Socket then Err 24 else Err EBADF) 0 [] zero_config no_producer
    = (r, s')" by fastforce
  have "g_producer no_producer 0 = None" by (simp add: no_producer_def)
  from producer_init_socket_failure [OF this _ _ run, of 24] run show ?thesis by simp
qed

end
