(* ===== verification/Monitor.thy ===== *)
theory Monitor
  imports Prelude "HOL-Library.Sublist"
begin

text \<open>
  Threads that share a state behind one mutex. The code between lock and unlock is a \<open>script\<close>, cut into the
  steps at which another thread may run; \<open>thread_step\<close> lets any thread take its next step.
  The locale \<open>monitor\<close> states what makes a mutex protect its state, and concludes that every
  interleaving has the effect of running the calls one after another, in the order in which they took
  the mutex; \<open>steady_monitor\<close> adds that what the unlocked test of a call reads does not change.
\<close>

section \<open>Code cut into steps\<close>

datatype 's script = Finish | Act "'s \<Rightarrow> 's script outcome \<times> 's"

primrec run_script :: "'s script \<Rightarrow> ('s, unit) prog" where
  "run_script Finish = return_c ()"
| "run_script (Act m) =
     (\<lambda>s. case map_prod (map_outcome run_script) id (m s) of
        (Ret f, s') \<Rightarrow> f s' | (Exit n, s') \<Rightarrow> (Exit n, s') | (Fault e, s') \<Rightarrow> (Fault e, s') | (Out_of_fuel, s') \<Rightarrow> (Out_of_fuel, s'))"

text \<open>One step \<open>m\<close>, then the script its result chooses.\<close>

definition step_c :: "('s, 'a) prog \<Rightarrow> ('a \<Rightarrow> 's script) \<Rightarrow> 's script" where
  "step_c m k = Act (bind_c m (\<lambda>x. return_c (k x)))"

lemma run_script_Act: "run_script (Act m) s = bind_c m run_script s"
  by (cases "m s"; cases "fst (m s)") (auto simp: bind_c_def)

lemma run_script_step [simp]: "run_script (step_c m k) = bind_c m (\<lambda>x. run_script (k x))"
  unfolding step_c_def by (rule ext) (simp add: run_script_Act bind_c_assoc bind_c_return del: run_script.simps)

text \<open>A script that leaves alone what \<open>v\<close> sees of the state.\<close>

inductive script_keeps :: "('s \<Rightarrow> 'v) \<Rightarrow> 's script \<Rightarrow> bool" for v where
  "script_keeps v Finish"
| "(\<And>s k s'. m s = (Ret k, s') \<Longrightarrow> v s' = v s \<and> script_keeps v k) \<Longrightarrow> script_keeps v (Act m)"

inductive_simps script_keeps_Act: "script_keeps v (Act m)"

lemma script_keeps_step:
  assumes "\<And>s x s'. m s = (Ret x, s') \<Longrightarrow> v s' = v s" and "\<And>x. script_keeps v (k x)"
  shows "script_keeps v (step_c m k)"
  unfolding step_c_def
proof (rule script_keeps.intros)
  fix s k' s'
  assume "bind_c m (\<lambda>x. return_c (k x)) s = (Ret k', s')"
  then obtain x where "m s = (Ret x, s')" "k' = k x"
    by (cases "m s"; cases "fst (m s)") (auto simp: bind_c_def return_c_def)
  with assms show "v s' = v s \<and> script_keeps v k'" by blast
qed

lemma script_keeps_mono: "script_keeps v k \<Longrightarrow> (\<And>s s'. v s' = v s \<Longrightarrow> u s' = u s) \<Longrightarrow> script_keeps u k"
proof (induction rule: script_keeps.induct)
  case (2 m)
  show ?case by (rule script_keeps.intros) (use 2 in blast)
qed (rule script_keeps.intros)

lemma script_keeps_run: "script_keeps v k \<Longrightarrow> run_script k s = (Ret (), s') \<Longrightarrow> v s' = v s"
proof (induction arbitrary: s rule: script_keeps.induct)
  case 1
  then show ?case by (simp add: run_simps)
next
  case (2 m)
  from "2.prems" obtain k s1 where "m s = (Ret k, s1)" "run_script k s1 = (Ret (), s')"
    unfolding run_script_Act by (elim bind_c_RetE)
  with "2.IH" show ?case by metis
qed

section \<open>Threads\<close>

datatype ('c, 's) phase = Idle | Wants 'c | Inside "'s script"

text \<open>\<open>history\<close> lists the calls in the order in which they took the mutex.\<close>

record ('c, 's) threads =
  world :: 's
  todo :: "nat \<Rightarrow> 'c list"
  phase_of :: "nat \<Rightarrow> ('c, 's) phase"
  history :: "(nat \<times> 'c) list"

text \<open>The mutex, the test a call makes before it asks for it, and what it does when it has it.\<close>

record ('c, 's) monitor_ops =
  is_held :: "'s \<Rightarrow> bool"
  set_held :: "bool \<Rightarrow> 's \<Rightarrow> 's"
  admits :: "'c \<Rightarrow> 's \<Rightarrow> bool"
  script_for :: "'c \<Rightarrow> 's script"

inductive thread_step :: "('c, 's) monitor_ops \<Rightarrow> ('c, 's) threads \<Rightarrow> ('c, 's) threads \<Rightarrow> bool" for M where
  enter: "phase_of g t = Idle \<Longrightarrow> todo g t = c # cs \<Longrightarrow> admits M c (world g) \<Longrightarrow>
    thread_step M g (g\<lparr>todo := (todo g)(t := cs), phase_of := (phase_of g)(t := Wants c)\<rparr>)"
| pass: "phase_of g t = Idle \<Longrightarrow> todo g t = c # cs \<Longrightarrow> \<not> admits M c (world g) \<Longrightarrow>
    thread_step M g (g\<lparr>todo := (todo g)(t := cs)\<rparr>)"
| lock: "phase_of g t = Wants c \<Longrightarrow> \<not> is_held M (world g) \<Longrightarrow>
    thread_step M g (g\<lparr>world := set_held M True (world g), phase_of := (phase_of g)(t := Inside (script_for M c)),
      history := history g @ [(t, c)]\<rparr>)"
| act: "phase_of g t = Inside (Act m) \<Longrightarrow> m (world g) = (Ret k, w) \<Longrightarrow>
    thread_step M g (g\<lparr>world := w, phase_of := (phase_of g)(t := Inside k)\<rparr>)"
| unlock: "phase_of g t = Inside Finish \<Longrightarrow>
    thread_step M g (g\<lparr>world := set_held M False (world g), phase_of := (phase_of g)(t := Idle)\<rparr>)"

abbreviation thread_runs :: "('c, 's) monitor_ops \<Rightarrow> ('c, 's) threads \<Rightarrow> ('c, 's) threads \<Rightarrow> bool" where
  "thread_runs M \<equiv> (thread_step M)\<^sup>*\<^sup>*"

definition started :: "'s \<Rightarrow> (nat \<Rightarrow> 'c list) \<Rightarrow> ('c, 's) threads" where
  "started w f = \<lparr>world = w, todo = f, phase_of = (\<lambda>_. Idle), history = []\<rparr>"

definition finished :: "('c, 's) threads \<Rightarrow> bool" where
  "finished g \<longleftrightarrow> (\<forall>t. phase_of g t = Idle \<and> todo g t = [])"

text \<open>The calls one after another, each with the mutex to itself.\<close>

definition alone :: "('c, 's) monitor_ops \<Rightarrow> 'c \<Rightarrow> ('s, unit) prog" where
  "alone M c = then_c (modify_c (set_held M True)) (then_c (run_script (script_for M c)) (modify_c (set_held M False)))"

definition serial :: "('c, 's) monitor_ops \<Rightarrow> (nat \<times> 'c) list \<Rightarrow> ('s, unit) prog" where
  "serial M h = skip_all (map (\<lambda>tc. alone M (snd tc)) h)"

definition calls_of :: "nat \<Rightarrow> (nat \<times> 'c) list \<Rightarrow> 'c list" where
  "calls_of t h = map snd (filter (\<lambda>tc. fst tc = t) h)"

primrec waiting :: "('c, 's) phase \<Rightarrow> 'c list" where
  "waiting Idle = []"
| "waiting (Wants c) = [c]"
| "waiting (Inside k) = []"

text \<open>A thread in the middle of a call whose next step does not return: undefined behaviour, say.\<close>

definition stuck :: "('c, 's) threads \<Rightarrow> bool" where
  "stuck g \<longleftrightarrow> (\<exists>t m. phase_of g t = Inside (Act m) \<and> (\<nexists>k w. m (world g) = (Ret k, w)))"

lemma calls_of_simps [simp]:
  "calls_of t [] = []" "calls_of t (h @ [(t', c)]) = calls_of t h @ (if t' = t then [c] else [])"
  by (simp_all add: calls_of_def)

lemma skip_all_snoc: "skip_all (ms @ [m]) = then_c (skip_all ms) m"
proof (induction ms)
  case Nil
  show ?case by (rule ext) (simp add: then_c_def bind_c_def return_c_def split: prod.split outcome.split)
next
  case (Cons a ms)
  then show ?case by (simp add: then_c_def bind_c_assoc)
qed

lemma serial_snoc: "serial M h w = (Ret (), w') \<Longrightarrow> serial M (h @ [(t, c)]) w = alone M c w'"
  by (simp add: serial_def skip_all_snoc run_simps)

text \<open>A thread by itself can carry a script, and a whole call, through.\<close>

lemma runs_inside:
  assumes "run_script k (world g) = (Ret (), w')" and "phase_of g t = Inside k"
  shows "thread_runs M g (g\<lparr>world := w', phase_of := (phase_of g)(t := Inside Finish)\<rparr>)"
  using assms
proof (induction k arbitrary: g)
  case Finish
  then have "g\<lparr>world := w', phase_of := (phase_of g)(t := Inside Finish)\<rparr> = g" by (simp add: run_simps fun_upd_idem)
  then show ?case by (simp only: rtranclp.rtrancl_refl)
next
  case (Act m)
  from Act.prems(1) obtain k w1 where k: "m (world g) = (Ret k, w1)" "run_script k w1 = (Ret (), w')"
    unfolding run_script_Act by (elim bind_c_RetE)
  let ?g = "g\<lparr>world := w1, phase_of := (phase_of g)(t := Inside k)\<rparr>"
  have "Ret k \<in> Basic_BNFs.fsts (m (world g))" by (simp add: k(1))
  then have "thread_runs M ?g (?g\<lparr>world := w', phase_of := (phase_of ?g)(t := Inside Finish)\<rparr>)"
    by (rule Act.IH [OF rangeI]) (simp_all add: k(2))
  moreover have "thread_step M g ?g" using Act.prems(2) k(1) by (rule thread_step.act)
  ultimately have "thread_runs M g (?g\<lparr>world := w', phase_of := (phase_of ?g)(t := Inside Finish)\<rparr>)"
    by (rule converse_rtranclp_into_rtranclp [rotated])
  then show ?case by (simp del: fun_upd_apply)
qed

lemma runs_call:
  assumes "phase_of g t = Wants c" and "\<not> is_held M (world g)" and "alone M c (world g) = (Ret (), w')"
  shows "thread_runs M g (g\<lparr>history := history g @ [(t, c)], world := w', phase_of := (phase_of g)(t := Idle)\<rparr>)"
proof -
  let ?g = "g\<lparr>world := set_held M True (world g), phase_of := (phase_of g)(t := Inside (script_for M c)), history := history g @ [(t, c)]\<rparr>"
  obtain w1 where w1: "run_script (script_for M c) (set_held M True (world g)) = (Ret (), w1)" "w' = set_held M False w1"
    using assms(3) by (auto simp: alone_def run_simps elim!: then_c_RetE)
  let ?g1 = "?g\<lparr>world := w1, phase_of := (phase_of ?g)(t := Inside Finish)\<rparr>"
  have "thread_step M g ?g" using assms(1,2) by (rule thread_step.lock)
  moreover have "thread_runs M ?g ?g1" using w1(1) by (intro runs_inside) simp_all
  moreover have "thread_step M ?g1 (?g1\<lparr>world := set_held M False (world ?g1), phase_of := (phase_of ?g1)(t := Idle)\<rparr>)"
    by (rule thread_step.unlock) simp
  ultimately have "thread_runs M g (?g1\<lparr>world := set_held M False (world ?g1), phase_of := (phase_of ?g1)(t := Idle)\<rparr>)"
    by (meson converse_rtranclp_into_rtranclp rtranclp.rtrancl_into_rtrancl)
  then show ?thesis by (simp add: w1(2))
qed

lemma runs_whole_call:
  assumes "phase_of g t = Idle" and "todo g t = c # cs" and "admits M c (world g)" and "\<not> is_held M (world g)"
    and "alone M c (world g) = (Ret (), w')"
  shows "thread_runs M g (g\<lparr>world := w', todo := (todo g)(t := cs), history := history g @ [(t, c)]\<rparr>)"
proof -
  let ?g = "g\<lparr>todo := (todo g)(t := cs), phase_of := (phase_of g)(t := Wants c)\<rparr>"
  have "thread_step M g ?g" using assms(1-3) by (rule thread_step.enter)
  moreover have "thread_runs M ?g (?g\<lparr>history := history ?g @ [(t, c)], world := w', phase_of := (phase_of ?g)(t := Idle)\<rparr>)"
    by (rule runs_call) (simp_all add: assms)
  moreover have "(phase_of g)(t := Idle) = phase_of g" using assms(1) by auto
  then have "?g\<lparr>history := history ?g @ [(t, c)], world := w', phase_of := (phase_of ?g)(t := Idle)\<rparr> =
      g\<lparr>world := w', todo := (todo g)(t := cs), history := history g @ [(t, c)]\<rparr>" by simp
  ultimately show ?thesis by (metis converse_rtranclp_into_rtranclp)
qed

section \<open>What a mutex buys\<close>

locale monitor =
  fixes M :: "('c, 's) monitor_ops"
  assumes held_set: "is_held M (set_held M b w) = b"
    and scripts_keep: "script_keeps (is_held M) (script_for M c)"
begin

text \<open>
  Either no thread is inside and the state is that of a sequential run; or exactly one is, and it will be when
  that one is through.
\<close>

definition consistent :: "'s \<Rightarrow> ('c, 's) threads \<Rightarrow> bool" where
  "consistent w g \<longleftrightarrow>
     (\<forall>t k. phase_of g t \<noteq> Inside k) \<and> \<not> is_held M (world g) \<and> serial M (history g) w = (Ret (), world g) \<or>
     (\<exists>t k. phase_of g t = Inside k \<and> (\<forall>t' k'. phase_of g t' = Inside k' \<longrightarrow> t' = t) \<and> is_held M (world g) \<and>
        script_keeps (is_held M) k \<and>
        serial M (history g) w = then_c (run_script k) (modify_c (set_held M False)) (world g))"

lemma consistent_inside:
  assumes "consistent w g" and "phase_of g t = Inside k"
  shows "is_held M (world g)" and "script_keeps (is_held M) k" and "phase_of g t' = Inside k' \<Longrightarrow> t' = t"
    and "serial M (history g) w = then_c (run_script k) (modify_c (set_held M False)) (world g)"
  using assms unfolding consistent_def by (metis phase.inject(2))+

lemma consistent_outside:
  assumes "consistent w g" and "\<not> is_held M (world g)"
  shows "phase_of g t \<noteq> Inside k" and "serial M (history g) w = (Ret (), world g)"
  using assms unfolding consistent_def by blast+

lemma consistent_cong:
  assumes "world g' = world g" and "history g' = history g" and "\<And>t k. phase_of g' t = Inside k \<longleftrightarrow> phase_of g t = Inside k"
  shows "consistent w g' = consistent w g"
  unfolding consistent_def assms ..

lemma consistent_step: "thread_step M g g' \<Longrightarrow> consistent w g \<Longrightarrow> consistent w g'"
proof (induction rule: thread_step.induct)
  case (enter g t c cs)
  then show ?case by (subst consistent_cong [of _ g]) auto
next
  case (pass g t c cs)
  then show ?case by (subst consistent_cong [of _ g]) auto
next
  case (lock g t c)
  note out = consistent_outside [OF lock.prems lock.hyps(2)]
  have "serial M (history g @ [(t, c)]) w =
      then_c (run_script (script_for M c)) (modify_c (set_held M False)) (set_held M True (world g))"
    using serial_snoc [OF out(2)] by (simp add: alone_def run_simps)
  then show ?case unfolding consistent_def
    using out(1) held_set scripts_keep by (intro disjI2 exI [of _ t] exI [of _ "script_for M c"]) auto
next
  case (act g t m k w')
  note ins = consistent_inside [OF act.prems act.hyps(1)]
  have "is_held M w' = is_held M (world g)" "script_keeps (is_held M) k"
    using ins(2) act.hyps(2) unfolding script_keeps_Act by blast+
  moreover have "then_c (run_script (Act m)) (modify_c (set_held M False)) (world g) =
      then_c (run_script k) (modify_c (set_held M False)) w'"
    using act.hyps(2) by (simp add: then_c_def bind_c_def run_script_Act del: run_script.simps)
  ultimately show ?case unfolding consistent_def
    using ins by (intro disjI2 exI [of _ t] exI [of _ k]) auto
next
  case (unlock g t)
  note ins = consistent_inside [OF unlock.prems unlock.hyps]
  have "serial M (history g) w = (Ret (), set_held M False (world g))"
    using ins(4) by (simp add: run_simps)
  then show ?case unfolding consistent_def using ins(3) held_set by (intro disjI1) auto
qed

lemma consistent_runs: "thread_runs M g g' \<Longrightarrow> consistent w g \<Longrightarrow> consistent w g'"
  by (induction rule: rtranclp_induct) (auto intro: consistent_step)

lemma consistent_started: "\<not> is_held M w \<Longrightarrow> consistent w (started w f)"
  by (simp add: consistent_def started_def serial_def run_simps)

lemmas reachable_consistent = consistent_runs [OF _ consistent_started]

text \<open>At most one thread is inside, and the mutex says so.\<close>

lemma mutual_exclusion:
  assumes "thread_runs M (started w f) g" and "\<not> is_held M w" and "phase_of g t = Inside k" and "phase_of g t' = Inside k'"
  shows "t = t'" and "is_held M (world g)"
  using consistent_inside [OF reachable_consistent [OF assms(1,2)] assms(3)] assms(4) by auto

lemma serialised:
  assumes "thread_runs M (started w f) g" and "\<not> is_held M w" and "\<forall>t k. phase_of g t \<noteq> Inside k"
  shows "serial M (history g) w = (Ret (), world g)"
  using reachable_consistent [OF assms(1,2)] assms(3) unfolding consistent_def by blast

text \<open>A thread that has not finished, or another one, can go on.\<close>

lemma progress:
  assumes "thread_runs M (started w f) g" and "\<not> is_held M w" and "\<not> finished g" and "\<not> stuck g"
  shows "\<exists>g'. thread_step M g g'"
proof (cases "is_held M (world g)")
  case True
  then obtain t k where t: "phase_of g t = Inside k"
    using reachable_consistent [OF assms(1,2)] unfolding consistent_def by blast
  show ?thesis
  proof (cases k)
    case (Act m)
    with assms(4) t obtain k' w' where "m (world g) = (Ret k', w')" unfolding stuck_def by blast
    with t Act show ?thesis by (blast intro: thread_step.act)
  qed (use t in \<open>blast intro: thread_step.unlock\<close>)
next
  case False
  obtain t where "phase_of g t \<noteq> Idle \<or> todo g t \<noteq> []" using assms(3) by (auto simp: finished_def)
  then consider c where "phase_of g t = Wants c" | c cs where "phase_of g t = Idle" "todo g t = c # cs"
    using consistent_outside(1) [OF reachable_consistent [OF assms(1,2)] False]
    by (cases "phase_of g t"; cases "todo g t") auto
  then show ?thesis
    by cases (use False in \<open>blast intro: thread_step.lock thread_step.enter thread_step.pass\<close>)+
qed

text \<open>Each thread's calls come in its own order; those its test turned away are missing.\<close>

lemma program_order:
  assumes "thread_runs M (started w f) g"
  shows "subseq (calls_of t (history g) @ waiting (phase_of g t) @ todo g t) (f t)"
  using assms
proof (induction rule: rtranclp_induct)
  case base
  then show ?case by (simp add: started_def)
next
  case (step g g')
  from step.hyps(2) step.IH show ?case
  proof (induction rule: thread_step.induct)
    case (pass g t' c cs)
    have "subseq (calls_of t (history g) @ cs) (calls_of t (history g) @ c # cs)" by (intro list_emb_append_mono subseq_order.order_refl list_emb_Cons)
    with pass show ?case by (cases "t = t'") (auto intro: subseq_order.order_trans)
  qed auto
qed

end

text \<open>What a call's test looks at never changes: then it decides once and for all.\<close>

locale steady_monitor = monitor M for M :: "('c, 's) monitor_ops" +
  fixes view :: "'s \<Rightarrow> 'v"
  assumes admits_view: "view w = view w' \<Longrightarrow> admits M c w = admits M c w'"
    and held_view: "view (set_held M b w) = view w"
    and scripts_view: "script_keeps view (script_for M c)"
begin

lemma view_runs:
  assumes "thread_runs M (started w f) g"
  shows "view (world g) = view w \<and> (\<forall>t k. phase_of g t = Inside k \<longrightarrow> script_keeps view k)"
  using assms
proof (induction rule: rtranclp_induct)
  case base
  then show ?case by (simp add: started_def)
next
  case (step g g')
  from step.hyps(2) step.IH show ?case
  proof (induction rule: thread_step.induct)
    case (act g t m k w')
    then have "script_keeps view (Act m)" by blast
    then have "view w' = view (world g)" "script_keeps view k" using act.hyps(2) unfolding script_keeps_Act by blast+
    with act.prems show ?case by auto
  qed (auto simp: held_view scripts_view)
qed

lemma complete_order:
  assumes "thread_runs M (started w f) g"
  shows "calls_of t (history g) @ waiting (phase_of g t) @ filter (\<lambda>c. admits M c w) (todo g t) = filter (\<lambda>c. admits M c w) (f t)"
  using assms
proof (induction rule: rtranclp_induct)
  case base
  then show ?case by (simp add: started_def)
next
  case (step g g')
  have "admits M c (world g) = admits M c w" for c
    using view_runs [OF step.hyps(1)] admits_view by blast
  with step.hyps(2) step.IH show ?case
    by (induction rule: thread_step.induct) auto
qed

end

end
