(* ===== verification/Quekka_Log_Threads.thy ===== *)
theory Quekka_Log_Threads
  imports Monitor Quekka_Log
begin

text \<open>
  The logger used by several threads (\<^verbatim>\<open>src/quekka/Quekka_log.c\<close>, \<open>log_mutex\<close>). Every operation is cut into
  its steps between lock and unlock, with the test of the level before the lock, where the code
  has it. The steps run by themselves are the operation (\<open>run_op_alone\<close>); run by several
  threads they interleave, and the mutex makes each operation whole.
\<close>

section \<open>The operations in steps\<close>

definition write_script ::
    "(int \<Rightarrow> char list) \<Rightarrow> tm option \<Rightarrow> LogLevel \<Rightarrow> char list \<Rightarrow> char list \<Rightarrow> int \<Rightarrow>
     char list \<Rightarrow> log_arg list \<Rightarrow> log_world script" where
  "write_script e now level file func line fmt as =
     step_c (require_c Null_deref now) (\<lambda>t.
     let prefix = log_prefix level (strftime_log t) file func line;
         to_file = (\<lambda>va.
           step_c (get_c (\<lambda>w. (lg_file_output (g_logger w), lg_file (g_logger w)))) (\<lambda>(on, f).
           case f of
             None \<Rightarrow> Finish
           | Some path \<Rightarrow>
               if on \<noteq> 0 then
                 step_c (put_file path (prefix @ '' '')) (\<lambda>_.
                 step_c (require_c Bad_arguments (vfprintf_args e fmt va)) (\<lambda>(out, _).
                 step_c (put_file path out) (\<lambda>_.
                 step_c (put_file path [CHR 0x0A]) (\<lambda>_. Finish))))
               else Finish))
     in step_c (get_c (\<lambda>w. lg_console_output (g_logger w))) (\<lambda>con.
        if con \<noteq> 0 then
          step_c (put_console (level_colors ! level_index level @ prefix @ color_reset @ '' '')) (\<lambda>_.
          step_c (require_c Bad_arguments (vfprintf_args e fmt (Some as))) (\<lambda>(out, va).
          step_c (put_console out) (\<lambda>_.
          step_c (put_console [CHR 0x0A]) (\<lambda>_. to_file va))))
        else to_file (Some as)))"

primrec op_script :: "log_op \<Rightarrow> log_world script" where
  "op_script (Op_init can f lv) =
     step_c close_log_file (\<lambda>_.
     let set_level = step_c (set_logger (\<lambda>l. l\<lparr>lg_level := lv\<rparr>)) (\<lambda>_. Finish) in
     case f of
       None \<Rightarrow> set_level
     | Some file \<Rightarrow>
         step_c (require_c Unterminated (c_strlen file)) (\<lambda>n.
         if n > 0 then step_c (open_log_file can file) (\<lambda>_. set_level) else set_level))"
| "op_script (Op_set_level lv) = step_c (set_logger (\<lambda>l. l\<lparr>lg_level := lv\<rparr>)) (\<lambda>_. Finish)"
| "op_script (Op_enable_console n) = step_c (set_logger (\<lambda>l. l\<lparr>lg_console_output := n\<rparr>)) (\<lambda>_. Finish)"
| "op_script (Op_enable_file n) = step_c (set_logger (\<lambda>l. l\<lparr>lg_file_output := n\<rparr>)) (\<lambda>_. Finish)"
| "op_script Op_close = step_c close_log_file (\<lambda>_. Finish)"
| "op_script (Op_write e now l) =
     write_script e now (ll_level l) (ll_file l) (ll_func l) (ll_line l) (ll_fmt l) (ll_args l)"

definition log_monitor :: "(log_op, log_world) monitor_ops" where
  "log_monitor = \<lparr>is_held = log_mutex, set_held = (\<lambda>b w. w\<lparr>log_mutex := b\<rparr>),
     admits = (\<lambda>op w. \<not> filtered w op), script_for = op_script\<rparr>"

lemma put_split:
  "put_console (u @ v) = then_c (put_console u) (put_console v)" "put_file p (u @ v) = then_c (put_file p u) (put_file p v)"
  by (rule ext, simp add: log_run_simps split: option.split)+

lemma bind_c_unit: "bind_c m (\<lambda>_. return_c ()) = m"
  by (rule ext) (simp add: bind_c_def return_c_def split: prod.split outcome.split)

lemma run_script_cases:
  "run_script (if b then k else k') = (if b then run_script k else run_script k')"
  "run_script (case v of None \<Rightarrow> k | Some x \<Rightarrow> f x) = (case v of None \<Rightarrow> run_script k | Some x \<Rightarrow> run_script (f x))"
  "run_script (case p of (x, y) \<Rightarrow> g x y) = (case p of (x, y) \<Rightarrow> run_script (g x y))"
  by (simp_all split: option.split prod.split)

lemmas script_flat = run_script_step run_script_cases run_script.simps(1) Let_def flat_simps

lemma run_write_script:
  "run_script (write_script e now level file func line fmt as) =
     bind_c (require_c Null_deref now) (\<lambda>t.
      let prefix = log_prefix level (strftime_log t) file func line in
      bind_c (get_c (\<lambda>w. lg_console_output (g_logger w))) (\<lambda>con.
      bind_c
        (if con \<noteq> 0 then
           then_c (put_console (level_colors ! level_index level @ prefix @ color_reset @ '' ''))
             (bind_c (require_c Bad_arguments (vfprintf_args e fmt (Some as))) (\<lambda>(out, va).
                then_c (put_console (out @ [CHR 0x0A])) (return_c va)))
         else return_c (Some as)) (\<lambda>va.
      bind_c (get_c (\<lambda>w. (lg_file_output (g_logger w), lg_file (g_logger w)))) (\<lambda>(on, f).
        case f of
           None \<Rightarrow> return_c ()
         | Some path \<Rightarrow>
             if on \<noteq> 0 then
               then_c (put_file path (prefix @ '' ''))
                 (bind_c (require_c Bad_arguments (vfprintf_args e fmt va)) (\<lambda>(out, _).
                    put_file path (out @ [CHR 0x0A])))
             else return_c ()))))"
  unfolding write_script_def script_flat put_split bind_c_unit ..

lemma mutex_lock_free: "\<not> log_mutex w \<Longrightarrow> bind_c mutex_lock f w = bind_c (modify_c (\<lambda>w. w\<lparr>log_mutex := True\<rparr>)) f w"
  by (simp add: mutex_lock_def run_simps)

text \<open>By itself, an operation that is let in does just its steps.\<close>

lemma run_op_alone:
  assumes "\<not> log_mutex w"
  shows "run_op op w = (if filtered w op then (Ret (), w) else alone log_monitor op w)"
proof -
  have a: "alone log_monitor op = bind_c (modify_c (\<lambda>w. w\<lparr>log_mutex := True\<rparr>)) (\<lambda>_. bind_c (run_script (op_script op)) (\<lambda>_. mutex_unlock))" for op
    by (simp add: alone_def log_monitor_def mutex_unlock_def then_c_def)
  show ?thesis
  proof (cases op)
    case (Op_init can f lv)
    then show ?thesis unfolding a
      by (cases f) (simp_all add: logger_init_def script_flat mutex_lock_free [OF assms] cong: if_cong)
  next
    case (Op_write e now l)
    show ?thesis
    proof (cases "shown w l")
      case True
      then have lvl: "\<not> ll_level l < lg_level (g_logger w)" by (simp add: shown_def)
      have get: "bind_c (get_c f) k w = k (f w) w" for f :: "log_world \<Rightarrow> 'x" and k :: "'x \<Rightarrow> unit logging"
        by (simp add: run_simps)
      have "\<not> filtered w op" using Op_write True by simp
      then show ?thesis
        unfolding a Op_write run_op.simps op_script.simps write_line_def log_write_def get if_not_P [OF lvl] run_write_script script_flat
          mutex_lock_free [OF assms] by (simp only: if_False)
    next
      case False
      then show ?thesis using Op_write not_shown [OF False] by simp
    qed
  qed (unfold a, simp_all add: logger_set_level_def logger_enable_console_def logger_enable_file_def logger_close_def
      script_flat mutex_lock_free [OF assms])
qed

lemma write_script_keeps:
  "script_keeps (\<lambda>w. (g_logger w, log_mutex w)) (write_script e now level file func line fmt as)"
  unfolding write_script_def Let_def
  by (auto intro!: script_keeps_step script_keeps.intros(1) split: option.split prod.split simp: log_steps_run require_c_Ret_iff get_c_run)


section \<open>The mutex at work\<close>

lemma keeps_log_mutex:
  "keeps (\<lambda>w. log_mutex w = b) close_log_file" "keeps (\<lambda>w. log_mutex w = b) (open_log_file can f)"
  "keeps (\<lambda>w. log_mutex w = b) (set_logger h)"
proof -
  have p: "keeps (\<lambda>w. log_mutex w = b) (put_console u)" "keeps (\<lambda>w. log_mutex w = b) (put_file q u)"
    "keeps (\<lambda>w. log_mutex w = b) (set_logger h')" for u q h'
    unfolding put_console_def put_file_def set_logger_def by (rule keeps_modify, simp)+
  then show "keeps (\<lambda>w. log_mutex w = b) (set_logger h)" by blast
  show "keeps (\<lambda>w. log_mutex w = b) close_log_file" "keeps (\<lambda>w. log_mutex w = b) (open_log_file can f)"
    unfolding close_log_file_def open_log_file_def fopen_append_def by (intro keeps_intros p)+
qed

lemma op_script_keeps_mutex: "script_keeps log_mutex (op_script op)"
proof -
  have k: "m s = (Ret x, s') \<Longrightarrow> log_mutex s' = log_mutex s" if "\<And>b. keeps (\<lambda>w. log_mutex w = b) m"
    for m :: "'x logging" and s x s'
    using keepsD [OF that refl] by blast
  show ?thesis
  proof (cases op)
    case (Op_write e now l)
    from write_script_keeps have "script_keeps log_mutex (write_script e now lv fl fn ln fmt as)" for lv fl fn ln fmt as
      by (rule script_keeps_mono) simp
    with Op_write show ?thesis by simp
  qed (auto intro!: script_keeps_step script_keeps.intros(1) simp: Let_def require_c_Ret_iff split: option.split
      dest: k [OF keeps_log_mutex(1)] k [OF keeps_log_mutex(2)] k [OF keeps_log_mutex(3)])
qed

interpretation ops: monitor log_monitor
  by unfold_locales (simp_all add: log_monitor_def op_script_keeps_mutex)

text \<open>A log call: the texts of \<open>strerror\<close> and the time it finds, and the line.\<close>

type_synonym log_line_call = "(int \<Rightarrow> char list) \<times> tm option \<times> log_line"

definition line_monitor :: "(log_line_call, log_world) monitor_ops" where
  "line_monitor = \<lparr>is_held = log_mutex, set_held = (\<lambda>b w. w\<lparr>log_mutex := b\<rparr>),
     admits = (\<lambda>(e, now, l) w. shown w l), script_for = (\<lambda>(e, now, l). op_script (Op_write e now l))\<rparr>"

interpretation lines: steady_monitor line_monitor g_logger
proof unfold_locales
  show "script_keeps (is_held line_monitor) (script_for line_monitor c)" for c
    using op_script_keeps_mutex by (cases c) (simp add: line_monitor_def del: op_script.simps)
  have "script_keeps g_logger (write_script e now lv fl fn ln fmt as)" for e now lv fl fn ln fmt as
    using write_script_keeps by (rule script_keeps_mono) simp
  then show "script_keeps g_logger (script_for line_monitor c)" for c
    by (cases c) (simp add: line_monitor_def)
qed (auto simp: line_monitor_def shown_def)

lemma alone_line: "alone line_monitor (e, now, l) = alone log_monitor (Op_write e now l)"
  by (simp add: alone_def line_monitor_def log_monitor_def)

text \<open>What a call by itself leaves alone.\<close>

lemma alone_line_keeps:
  assumes "alone line_monitor c w = (Ret (), w')"
  shows "g_logger w' = g_logger w" and "\<not> log_mutex w'"
proof -
  obtain w1 where w1: "run_script (script_for line_monitor c) (w\<lparr>log_mutex := True\<rparr>) = (Ret (), w1)" "w' = w1\<lparr>log_mutex := False\<rparr>"
    using assms by (auto simp: alone_def line_monitor_def run_simps elim!: then_c_RetE)
  from script_keeps_run [OF lines.scripts_view w1(1)] w1(2) show "g_logger w' = g_logger w" "\<not> log_mutex w'" by simp_all
qed

definition write_call :: "log_line_call \<Rightarrow> unit logging" where
  "write_call c = (case c of (e, now, l) \<Rightarrow> write_line e now l)"

lemma admits_line: "admits line_monitor (e, now, l) w = shown w l"
  by (simp add: line_monitor_def)

lemma write_call_alone:
  "\<not> log_mutex w \<Longrightarrow> admits line_monitor c w \<Longrightarrow> write_call c w = alone line_monitor c w"
  using run_op_alone [of w "Op_write (fst c) (fst (snd c)) (snd (snd c))"]
  by (cases c) (simp add: write_call_def alone_line admits_line)

lemma serial_lines:
  assumes "\<not> log_mutex w" and "\<forall>tc \<in> set h. admits line_monitor (snd tc) w" and "serial line_monitor h w = (Ret (), w')"
  shows "skip_all (map (\<lambda>tc. write_call (snd tc)) h) w = (Ret (), w')"
  using assms
proof (induction h arbitrary: w)
  case Nil
  then show ?case by (simp add: serial_def)
next
  case (Cons tc h)
  obtain w1 where w1: "alone line_monitor (snd tc) w = (Ret (), w1)" "serial line_monitor h w1 = (Ret (), w')"
    using Cons.prems(3) by (auto simp: serial_def elim!: then_c_RetE)
  note k = alone_line_keeps [OF w1(1)]
  have "admits line_monitor c w1 = admits line_monitor c w" for c by (rule lines.admits_view [OF k(1)])
  then have "\<forall>tc \<in> set h. admits line_monitor (snd tc) w1" using Cons.prems(2) by simp
  from Cons.IH [OF k(2) this w1(2)] w1(1) write_call_alone [OF Cons.prems(1)] Cons.prems(2) show ?case
    by (simp add: run_simps)
qed

lemma in_history: "tc \<in> set h \<Longrightarrow> snd tc \<in> set (calls_of (fst tc) h)"
  by (force simp: calls_of_def)

lemma history_admitted:
  assumes "thread_runs line_monitor (started w f) g" and "tc \<in> set (history g)"
  shows "admits line_monitor (snd tc) w \<and> snd tc \<in> set (f (fst tc))"
proof -
  have "snd tc \<in> set (filter (\<lambda>c. admits line_monitor c w) (f (fst tc)))"
    using in_history [OF assms(2)] unfolding lines.complete_order [OF assms(1), symmetric] by simp
  then show ?thesis by simp
qed

section \<open>Properties\<close>

text \<open>
  C4. Log calls of several threads are atomic. Whatever calls any number of threads make, and however
  their steps interleave, once all are through the console, the files and the logger are what
  \<open>log_write\<close> leaves when the calls are made one after another in some order, an order in which each thread's
  calls appear as the thread made them, without those below the level.
\<close>

theorem log_calls_atomic:
  assumes "\<not> log_mutex w" and "thread_runs line_monitor (started w f) g" and "finished g"
  shows "skip_all (map (\<lambda>tc. write_call (snd tc)) (history g)) w = (Ret (), world g) \<and>
    (\<forall>t. calls_of t (history g) = filter (\<lambda>(e, now, l). shown w l) (f t))"
proof
  have idle: "\<forall>t. phase_of g t = Idle \<and> todo g t = []" using assms(3) by (simp add: finished_def)
  then have "serial line_monitor (history g) w = (Ret (), world g)"
    using lines.serialised [OF assms(2)] assms(1) by (simp add: line_monitor_def)
  then show "skip_all (map (\<lambda>tc. write_call (snd tc)) (history g)) w = (Ret (), world g)"
    using serial_lines [OF assms(1)] history_admitted [OF assms(2)] by blast
  show "\<forall>t. calls_of t (history g) = filter (\<lambda>(e, now, l). shown w l) (f t)"
    using lines.complete_order [OF assms(2)] idle by (simp add: line_monitor_def case_prod_unfold)
qed

text \<open>The lines of a list of calls on the console.\<close>

definition call_text :: "log_line_call \<Rightarrow> char list" where
  "call_text c = (case c of (e, now, l) \<Rightarrow> console_text e (the now) l)"

definition sound_call :: "log_line_call \<Rightarrow> bool" where
  "sound_call c \<longleftrightarrow> (case c of (e, now, l) \<Rightarrow> now \<noteq> None \<and> line_body e l \<noteq> None)"

definition to_console :: "log_world \<Rightarrow> bool" where
  "to_console w \<longleftrightarrow> \<not> log_mutex w \<and> lg_console_output (g_logger w) \<noteq> 0 \<and>
     (lg_file_output (g_logger w) = 0 \<or> lg_file (g_logger w) = None)"

lemma alone_write_console:
  assumes "to_console w" and "line_body e l \<noteq> None"
  shows "alone log_monitor (Op_write e (Some t) l) w = (Ret (), w\<lparr>console := console w @ console_text e t l\<rparr>)"
proof -
  obtain out rest where v: "vformat e (ll_fmt l) (ll_args l) = Some (out, rest)"
    using assms(2) by (auto simp: line_body_def)
  let ?w = "w\<lparr>log_mutex := True\<rparr>"
  have "run_script (op_script (Op_write e (Some t) l)) ?w = (Ret (), ?w\<lparr>console := console w @ console_text e t l\<rparr>)"
    using assms(1) unfolding to_console_def
    by (auto simp: run_write_script log_run_simps vfprintf_args_def v console_text_def line_prefix_def line_body_def Let_def split: option.split)
  moreover have "w\<lparr>console := x, log_mutex := False\<rparr> = w\<lparr>console := x\<rparr>" for x using assms(1) by (simp add: to_console_def)
  ultimately show ?thesis by (simp add: alone_def log_monitor_def log_run_simps del: op_script.simps)
qed

lemma alone_on_console:
  "to_console w \<Longrightarrow> sound_call c \<Longrightarrow> alone line_monitor c w = (Ret (), w\<lparr>console := console w @ call_text c\<rparr>)"
  by (cases c) (auto simp: alone_line alone_write_console call_text_def sound_call_def)

lemma serial_on_console:
  assumes "to_console w" and "\<forall>tc \<in> set h. sound_call (snd tc) \<and> admits line_monitor (snd tc) w"
  shows "serial line_monitor h w = (Ret (), w\<lparr>console := console w @ concat (map (\<lambda>tc. call_text (snd tc)) h)\<rparr>)"
  using assms
proof (induction h arbitrary: w)
  case Nil
  then show ?case by (simp add: serial_def run_simps)
next
  case (Cons tc h)
  let ?w = "w\<lparr>console := console w @ call_text (snd tc)\<rparr>"
  have "to_console ?w" using Cons.prems(1) by (simp add: to_console_def)
  moreover have "admits line_monitor c ?w = admits line_monitor c w" for c by (rule lines.admits_view) simp
  ultimately have "serial line_monitor h ?w = (Ret (), ?w\<lparr>console := console ?w @ concat (map (\<lambda>tc. call_text (snd tc)) h)\<rparr>)"
    using Cons.prems(2) by (intro Cons.IH) auto
  then show ?case
    using alone_on_console [OF Cons.prems(1), of "snd tc"] Cons.prems(2) by (simp add: serial_def run_simps)
qed

text \<open>
  C17. A console log stays readable, and never stops. With output to the console only and calls whose formats
  fit their arguments, at every moment of any interleaving at which no thread is inside \<open>log_write\<close>, the console
  has gained whole lines only, those of the calls made so far, in the order in which these took the
  mutex; and as long as some thread has not finished, some thread can take a step: there is no deadlock and no
  undefined behaviour.
\<close>

theorem console_lines_whole:
  assumes "to_console w" and "\<forall>t. \<forall>c \<in> set (f t). sound_call c" and "thread_runs line_monitor (started w f) g"
  shows "((\<forall>t k. phase_of g t \<noteq> Inside k) \<longrightarrow>
      world g = w\<lparr>console := console w @ concat (map (\<lambda>tc. call_text (snd tc)) (history g))\<rparr>) \<and>
    (finished g \<or> (\<exists>g'. thread_step line_monitor g g'))"
proof
  have free: "\<not> is_held line_monitor w" using assms(1) by (simp add: to_console_def line_monitor_def)
  have "\<forall>tc \<in> set (history g). sound_call (snd tc) \<and> admits line_monitor (snd tc) w"
    using history_admitted [OF assms(3)] assms(2) by blast
  note run = serial_on_console [OF assms(1) this]
  show "(\<forall>t k. phase_of g t \<noteq> Inside k) \<longrightarrow>
      world g = w\<lparr>console := console w @ concat (map (\<lambda>tc. call_text (snd tc)) (history g))\<rparr>"
    using lines.serialised [OF assms(3) free] run by simp
  have "\<not> stuck g"
  proof
    assume "stuck g"
    then obtain t m where t: "phase_of g t = Inside (Act m)" "\<nexists>k w. m (world g) = (Ret k, w)" by (auto simp: stuck_def)
    have "then_c (run_script (Act m)) (modify_c (set_held line_monitor False)) (world g) = serial line_monitor (history g) w"
      using lines.consistent_inside(4) [OF lines.reachable_consistent [OF assms(3) free] t(1)] by simp
    with run t(2) show False
      by (auto simp: run_script_Act simp del: run_script.simps elim!: then_c_RetE bind_c_RetE)
  qed
  with lines.progress [OF assms(3) free] show "finished g \<or> (\<exists>g'. thread_step line_monitor g g')" by blast
qed

text \<open>Lines of different levels differ in their colour: their texts do not commute.\<close>

lemma console_text_start: "take 5 (console_text e t l) = level_colors ! level_index (ll_level l)"
  by (cases "ll_level l") (simp_all add: console_text_def level_colors_def)

lemma console_texts_differ:
  assumes "ll_level l \<noteq> ll_level l'"
  shows "console_text e t l @ u \<noteq> console_text e' t' l' @ v"
proof
  assume eq: "console_text e t l @ u = console_text e' t' l' @ v"
  have "take 5 (console_text e t l @ u) = take 5 (console_text e t l)" for e t l u
    by (cases "ll_level l") (simp_all add: console_text_def level_colors_def)
  then have "level_colors ! level_index (ll_level l) = level_colors ! level_index (ll_level l')"
    using console_text_start eq by metis
  then show False using assms by (cases "ll_level l"; cases "ll_level l'") (simp_all add: level_colors_def)
qed

lemma run_line:
  assumes "to_console u" and "line_body e k \<noteq> None"
  shows "run_op (Op_write e (Some t) k) u = (Ret (), if shown u k then u\<lparr>console := console u @ console_text e t k\<rparr> else u)"
  using write_line_console [of u k e t] not_shown [of u k] assms by (simp add: to_console_def)

lemma run_level:
  assumes "\<not> log_mutex u"
  shows "run_op (Op_set_level lv) u = (Ret (), u\<lparr>g_logger := (g_logger u)\<lparr>lg_level := lv\<rparr>\<rparr>)"
    and "alone log_monitor (Op_set_level lv) u = (Ret (), u\<lparr>g_logger := (g_logger u)\<lparr>lg_level := lv\<rparr>\<rparr>)"
proof -
  have "u\<lparr>g_logger := x, log_mutex := False\<rparr> = u\<lparr>g_logger := x\<rparr>" for x using assms by simp
  then show "run_op (Op_set_level lv) u = (Ret (), u\<lparr>g_logger := (g_logger u)\<lparr>lg_level := lv\<rparr>\<rparr>)"
    "alone log_monitor (Op_set_level lv) u = (Ret (), u\<lparr>g_logger := (g_logger u)\<lparr>lg_level := lv\<rparr>\<rparr>)"
    using assms by (simp_all add: logger_set_level_def alone_def log_monitor_def log_run_simps)
qed

text \<open>The state in which \<open>l'\<close> was written after the level was raised, and \<open>l\<close> after it.\<close>

definition crossed :: "log_world \<Rightarrow> (int \<Rightarrow> char list) \<Rightarrow> tm \<Rightarrow> log_line \<Rightarrow> LogLevel \<Rightarrow> log_line \<Rightarrow> log_world" where
  "crossed w e t l lv l' = w\<lparr>g_logger := (g_logger w)\<lparr>lg_level := lv\<rparr>,
     console := (console w @ console_text e t l') @ console_text e t l\<rparr>"

lemma crossing_run:
  assumes "to_console w" and "shown w l" and "ll_level l < lv" and "lv \<le> ll_level l'"
    and "line_body e l \<noteq> None" and "line_body e l' \<noteq> None"
    and "f = (\<lambda>_. [])(0 := [Op_write e (Some t) l], 1 := [Op_set_level lv, Op_write e (Some t) l'])"
  shows "\<exists>g. thread_runs log_monitor (started w f) g \<and> finished g \<and> world g = crossed w e t l lv l'"
proof -
  let ?op = "Op_write e (Some t) l" and ?op' = "Op_write e (Some t) l'" and ?g = "started w f"
  define w1 where "w1 = w\<lparr>g_logger := (g_logger w)\<lparr>lg_level := lv\<rparr>\<rparr>"
  define w2 where "w2 = w1\<lparr>console := console w1 @ console_text e t l'\<rparr>"
  have free: "\<not> log_mutex w" "\<not> log_mutex w1" "\<not> log_mutex w2" "to_console w1" "to_console w2" "shown w1 l'"
    using assms(1,4) by (simp_all add: to_console_def w1_def w2_def shown_def)
  define g0 where "g0 = ?g\<lparr>todo := (todo ?g)(0 := []), phase_of := (phase_of ?g)(0 := Wants ?op)\<rparr>"
  define g1 where "g1 = g0\<lparr>world := w1, todo := (todo g0)(1 := [?op']), history := history g0 @ [(1, Op_set_level lv)]\<rparr>"
  define g2 where "g2 = g1\<lparr>world := w2, todo := (todo g1)(1 := []), history := history g1 @ [(1, ?op')]\<rparr>"
  define g3 where "g3 = g2\<lparr>history := history g2 @ [(0, ?op)], world := crossed w e t l lv l', phase_of := (phase_of g2)(0 := Idle)\<rparr>"
  note g_defs = g0_def g1_def g2_def started_def assms(7) log_monitor_def
  have "thread_step log_monitor ?g g0"
    unfolding g0_def by (rule thread_step.enter) (simp_all add: started_def assms(2,7) log_monitor_def)
  moreover have "alone log_monitor (Op_set_level lv) (world g0) = (Ret (), w1)"
    using run_level(2) [OF free(1)] by (simp add: g0_def started_def w1_def)
  then have "thread_runs log_monitor g0 g1"
    unfolding g1_def by (rule runs_whole_call [rotated 4]) (simp_all add: g_defs free)
  moreover have "alone log_monitor ?op' (world g1) = (Ret (), w2)"
    using alone_write_console [OF free(4) assms(6)] by (simp add: g1_def w2_def)
  then have "thread_runs log_monitor g1 g2"
    unfolding g2_def by (rule runs_whole_call [rotated 4]) (simp_all add: g_defs free)
  moreover have "alone log_monitor ?op (world g2) = (Ret (), crossed w e t l lv l')"
    using alone_write_console [OF free(5) assms(5)] by (simp add: g2_def w2_def w1_def crossed_def)
  then have "thread_runs log_monitor g2 g3"
    unfolding g3_def by (rule runs_call [rotated 2]) (simp_all add: g_defs free)
  ultimately have "thread_runs log_monitor ?g g3" by (meson converse_rtranclp_into_rtranclp rtranclp_trans)
  moreover have "finished g3" "world g3 = crossed w e t l lv l'" by (auto simp: finished_def g3_def g_defs)
  ultimately show ?thesis by blast
qed

lemma no_order_crosses:
  assumes "to_console w" and "shown w l" and "ll_level l < lv" and "lv \<le> ll_level l'"
    and "line_body e l \<noteq> None" and "line_body e l' \<noteq> None"
    and "calls \<in> shuffles [Op_write e (Some t) l] [Op_set_level lv, Op_write e (Some t) l']"
  shows "console (snd (skip_all (map run_op calls) w)) \<noteq> console (crossed w e t l lv l')"
proof -
  let ?op = "Op_write e (Some t) l" and ?op' = "Op_write e (Some t) l'"
  let ?w1 = "w\<lparr>g_logger := (g_logger w)\<lparr>lg_level := lv\<rparr>\<rparr>"
  let ?w2 = "?w1\<lparr>console := console ?w1 @ console_text e t l'\<rparr>"
  let ?v1 = "w\<lparr>console := console w @ console_text e t l\<rparr>"
  let ?v2 = "?v1\<lparr>g_logger := (g_logger ?v1)\<lparr>lg_level := lv\<rparr>\<rparr>"
  have c: "to_console ?w1" "to_console ?w2" "to_console ?v2" "\<not> log_mutex w" "\<not> log_mutex ?v1"
    using assms(1) by (simp_all add: to_console_def)
  have sh: "\<not> shown ?w1 l" "shown ?w1 l'" "\<not> shown ?w2 l" "shown ?v2 l'" using assms(3,4) by (auto simp: shown_def)
  have "ll_level l \<noteq> ll_level l'" using assms(3,4) by auto
  note differ = console_texts_differ [OF this]
  have some: "console_text e t l \<noteq> []" using console_text_start [of e t l] by (cases "ll_level l") (auto simp: level_colors_def)
  have "calls \<in> {[?op, Op_set_level lv, ?op'], [Op_set_level lv, ?op, ?op'], [Op_set_level lv, ?op', ?op]}"
    using assms(7) by (auto simp: Cons_in_shuffles_iff)
  then have "console (snd (skip_all (map run_op calls) w)) \<in>
      {console w @ console_text e t l @ console_text e t l', console w @ console_text e t l'}"
    using run_line [OF assms(1,5)] run_line [OF c(3) assms(6)] run_level(1) [OF c(5)] run_level(1) [OF c(4)] sh
      run_line [OF c(1) assms(5)] run_line [OF c(1) assms(6)] run_line [OF c(2) assms(5)] assms(2)
    by (auto simp: run_simps simp del: run_op.simps)
  then show ?thesis using some differ [of e t "console_text e t l'" e t "console_text e t l"] by (auto simp: crossed_def)
qed

text \<open>
  C31. The level is read without the mutex, so a change of the level and a line can cross. One thread writes a
  line at a level that is shown; another raises the level above it and then writes a line of its own. There
  is a run that ends with the second thread's line on the console first and the first thread's line after it, though it is
  below the level set before: no order of the three calls, each carried out whole, leaves this.
\<close>

theorem level_test_races:
  assumes "to_console w" and "shown w l" and "ll_level l < lv" and "lv \<le> ll_level l'"
    and "line_body e l \<noteq> None" and "line_body e l' \<noteq> None"
    and "f = (\<lambda>_. [])(0 := [Op_write e (Some t) l], 1 := [Op_set_level lv, Op_write e (Some t) l'])"
  shows "\<exists>g. thread_runs log_monitor (started w f) g \<and> finished g \<and> lg_level (g_logger (world g)) = lv \<and>
    console (world g) = console w @ console_text e t l' @ console_text e t l \<and>
    (\<forall>ops \<in> shuffles (f 0) (f 1). skip_all (map run_op ops) w \<noteq> (Ret (), world g))"
proof -
  obtain g where g: "thread_runs log_monitor (started w f) g" "finished g" "world g = crossed w e t l lv l'"
    using crossing_run [OF assms] by blast
  have "skip_all (map run_op calls) w \<noteq> (Ret (), world g)" if "calls \<in> shuffles (f 0) (f 1)" for calls
  proof -
    from that have "calls \<in> shuffles [Op_write e (Some t) l] [Op_set_level lv, Op_write e (Some t) l']" by (simp add: assms(7))
    from no_order_crosses [OF assms(1-6) this] show ?thesis unfolding g(3) by fastforce
  qed
  moreover have "lg_level (g_logger (world g)) = lv" "console (world g) = console w @ console_text e t l' @ console_text e t l"
    by (simp_all add: g(3) crossed_def)
  ultimately show ?thesis using g(1,2) by blast
qed

text \<open>
  The mutex keeps the logger's operations apart, whatever they are: at most one thread is between lock and
  unlock; when none is, the state is what the operations leave when run whole, in the order in which they
  took the mutex; and each thread's operations come in its own order.
\<close>

theorem log_ops_exclusive:
  assumes "\<not> log_mutex w" and "thread_runs log_monitor (started w f) g"
  shows "(\<forall>t t' k k'. phase_of g t = Inside k \<and> phase_of g t' = Inside k' \<longrightarrow> t = t' \<and> log_mutex (world g)) \<and>
    ((\<forall>t k. phase_of g t \<noteq> Inside k) \<longrightarrow> serial log_monitor (history g) w = (Ret (), world g)) \<and>
    (\<forall>t. subseq (calls_of t (history g)) (f t))"
proof -
  have free: "\<not> is_held log_monitor w" using assms(1) by (simp add: log_monitor_def)
  have "subseq (calls_of t (history g)) (f t)" for t
    using ops.program_order [OF assms(2), of t] by (meson subseq_order.order_trans subseq_rev_drop_many subseq_order.order_refl)
  then show ?thesis
    using ops.mutual_exclusion [OF assms(2) free] ops.serialised [OF assms(2) free] by (auto simp: log_monitor_def)
qed

section \<open>Witnesses\<close>

definition sample_call :: log_line_call where
  "sample_call = ((\<lambda>_. []), Some sample_now, sample_line)"

definition sample_calls :: "nat \<Rightarrow> log_line_call list" where
  "sample_calls = (\<lambda>_. [])(0 := [sample_call], 1 := [((\<lambda>_. []), Some sample_now, sample_line\<lparr>ll_level := LOG_DEBUG\<rparr>)])"

lemma sample_body: "line_body (\<lambda>_. []) sample_line \<noteq> None" "line_body (\<lambda>_. []) (sample_line\<lparr>ll_level := lv\<rparr>) \<noteq> None"
  using sample_format by (simp_all add: sample_line_def line_body_def)

lemma sample_ready: "to_console sample_world" "\<not> log_mutex sample_world" "\<forall>t. \<forall>c \<in> set (sample_calls t). sound_call c"
  using sample_body by (simp_all add: to_console_def sample_log_defs sample_calls_def sample_call_def sound_call_def)

lemma sample_lines_run:
  "\<exists>g. thread_runs line_monitor (started sample_world sample_calls) g \<and> finished g \<and> history g = [(0, sample_call)]"
proof -
  let ?g = "started sample_world sample_calls"
  define g1 where "g1 = ?g\<lparr>todo := (todo ?g)(1 := [])\<rparr>"
  let ?w = "sample_world\<lparr>console := console sample_world @ call_text sample_call\<rparr>"
  define g2 where "g2 = g1\<lparr>world := ?w, todo := (todo g1)(0 := []), history := history g1 @ [(0, sample_call)]\<rparr>"
  have "thread_step line_monitor ?g g1"
    unfolding g1_def by (rule thread_step.pass [of _ _ "((\<lambda>_. []), Some sample_now, sample_line\<lparr>ll_level := LOG_DEBUG\<rparr>)"])
      (simp_all add: started_def sample_calls_def admits_line sample_log_defs)
  moreover have "thread_runs line_monitor g1 g2"
    unfolding g2_def
  proof (rule runs_whole_call)
    show "alone line_monitor sample_call (world g1) = (Ret (), ?w)"
      using alone_on_console [OF sample_ready(1), of sample_call] sample_body(1)
      by (simp add: g1_def started_def sample_call_def sound_call_def)
  qed (simp_all add: g1_def started_def sample_calls_def sample_call_def admits_line line_monitor_def sample_log_defs)
  moreover have "finished g2" "history g2 = [(0, sample_call)]"
    by (auto simp: finished_def g2_def g1_def started_def sample_calls_def)
  ultimately show ?thesis by (meson converse_rtranclp_into_rtranclp)
qed

theorem log_calls_atomic_witness:
  "\<exists>g. thread_runs line_monitor (started sample_world sample_calls) g \<and> finished g \<and>
     skip_all [write_call sample_call] sample_world = (Ret (), world g)"
proof -
  obtain g where g: "thread_runs line_monitor (started sample_world sample_calls) g" "finished g" "history g = [(0, sample_call)]"
    using sample_lines_run by blast
  from log_calls_atomic [OF sample_ready(2) g(1,2)] g show ?thesis by (auto simp: g(3))
qed

theorem console_lines_whole_witness:
  "\<exists>g. thread_runs line_monitor (started sample_world sample_calls) g \<and>
     world g = sample_world\<lparr>console := call_text sample_call\<rparr>"
proof -
  obtain g where g: "thread_runs line_monitor (started sample_world sample_calls) g" "finished g" "history g = [(0, sample_call)]"
    using sample_lines_run by blast
  have "console sample_world = []" by (simp add: sample_world_def)
  moreover have "\<forall>t k. phase_of g t \<noteq> Inside k" using g(2) by (simp add: finished_def)
  ultimately show ?thesis using console_lines_whole [OF sample_ready(1,3) g(1)] g by auto
qed

theorem level_test_races_witness:
  "\<exists>g. thread_runs log_monitor (started sample_world ((\<lambda>_. [])(
       0 := [Op_write (\<lambda>_. []) (Some sample_now) (sample_line\<lparr>ll_level := LOG_WARNING\<rparr>)],
       1 := [Op_set_level LOG_ERROR, Op_write (\<lambda>_. []) (Some sample_now) sample_line]))) g \<and> finished g \<and>
     lg_level (g_logger (world g)) = LOG_ERROR"
proof -
  have "shown sample_world (sample_line\<lparr>ll_level := LOG_WARNING\<rparr>)" "ll_level (sample_line\<lparr>ll_level := LOG_WARNING\<rparr>) < LOG_ERROR"
    "LOG_ERROR \<le> ll_level sample_line"
    by (simp_all add: sample_log_defs less_LogLevel_def)
  from level_test_races [OF sample_ready(1) this sample_body(2,1) refl, of sample_now] show ?thesis by blast
qed

theorem log_ops_exclusive_witness:
  "\<exists>g. thread_runs log_monitor (started sample_world ((\<lambda>_. [])(0 := [Op_close], 1 := [Op_close]))) g \<and>
     phase_of g 0 = Inside (op_script Op_close) \<and> phase_of g 1 = Wants Op_close \<and> log_mutex (world g)"
proof -
  let ?g = "started sample_world ((\<lambda>_. [])(0 := [Op_close], 1 := [Op_close]))"
  define g1 where "g1 = ?g\<lparr>todo := (todo ?g)(0 := []), phase_of := (phase_of ?g)(0 := Wants Op_close)\<rparr>"
  define g2 where "g2 = g1\<lparr>todo := (todo g1)(1 := []), phase_of := (phase_of g1)(1 := Wants Op_close)\<rparr>"
  define g3 where "g3 = g2\<lparr>world := set_held log_monitor True (world g2),
    phase_of := (phase_of g2)(0 := Inside (script_for log_monitor Op_close)), history := history g2 @ [(0, Op_close)]\<rparr>"
  have "thread_step log_monitor ?g g1"
    unfolding g1_def by (rule thread_step.enter) (simp_all add: started_def log_monitor_def)
  moreover have "thread_step log_monitor g1 g2"
    unfolding g2_def by (rule thread_step.enter) (simp_all add: g1_def started_def log_monitor_def)
  moreover have "thread_step log_monitor g2 g3"
    unfolding g3_def using sample_ready(2) by (intro thread_step.lock) (simp_all add: g2_def g1_def started_def log_monitor_def)
  ultimately have run: "thread_runs log_monitor ?g g3" by (meson converse_rtranclp_into_rtranclp rtranclp.rtrancl_refl)
  moreover have "phase_of g3 0 = Inside (op_script Op_close)" "phase_of g3 1 = Wants Op_close"
    by (simp_all add: g3_def g2_def log_monitor_def)
  ultimately show ?thesis using log_ops_exclusive [OF sample_ready(2) run] by blast
qed

end
