(* ===== verification/Delivery.thy ===== *)
theory Delivery
  imports Quekka_Producer Server_Traffic
begin

text \<open>
  From the producer to the server: what \<open>Quekka_publish\<close> (\<^verbatim>\<open>src/quekka/Quekka_producer.c\<close>) hands to
  \<open>send\<close>, what the system accepts of it, and what a server (\<^verbatim>\<open>src/internal/libsocket.c\<close>) passes on of
  the bytes that arrive. The connection between the two is the system's: a hypothesis says which bytes arrive.
\<close>

section \<open>Bytes on a connection\<close>

text \<open>The bytes the system took on a descriptor; \<open>send\<close> may take some or none of what it is given.\<close>

fun accepted :: "int \<Rightarrow> event list \<Rightarrow> char list" where
  "accepted fd [] = []"
| "accepted fd (Call (Send f b fl) r # tr) = (if f = fd then take (nat (int_of r)) b else []) @ accepted fd tr"
| "accepted fd (ev # tr) = accepted fd tr"

fun sent_whole :: "event \<Rightarrow> bool" where
  "sent_whole (Call (Send f b fl) r) = (int_of r = int (length b))"
| "sent_whole ev = True"

fun sent_nothing :: "event \<Rightarrow> bool" where
  "sent_nothing (Call (Send f b fl) r) = (int_of r < 0)"
| "sent_nothing ev = True"

lemma accepted_append [simp]: "accepted fd (tr @ tr') = accepted fd tr @ accepted fd tr'"
  by (induction fd tr rule: accepted.induct) auto

lemma accepted_whole:
  "list_all sent_whole tr \<Longrightarrow> accepted fd tr = concat (map snd (filter (\<lambda>x. fst x = fd) (sends tr)))"
  by (induction fd tr rule: accepted.induct) auto

lemma accepted_nothing: "list_all sent_nothing tr \<Longrightarrow> accepted fd tr = []"
  by (induction fd tr rule: accepted.induct) auto

text \<open>A publication only adds to the trace, and only calls for the time and to send.\<close>

lemma publish_loop_extends:
  assumes "\<And>tr fd b. P (Call (Send fd b Msg_dontwait) (K tr (Send fd b Msg_dontwait)))"
  shows "keeps (\<lambda>s. extends P tr (trace s)) (publish_loop K t h payload remaining sq :: ('z pub_state_scheme, int) prog)"
  using assms
proof (induction K t h payload remaining sq rule: publish_loop.induct)
  case (1 K t h payload remaining sq)
  show ?case
    unfolding publish_loop.simps [of K t h payload remaining sq] message_assemble_def Let_def
    by (intro keeps_intros keeps_case_prod keeps_one_call) (rule "1.prems", rule "1.IH", simp_all add: "1.prems")
qed

lemma publish_extends:
  assumes "\<And>tr fd b. P (Call (Send fd b Msg_dontwait) (K tr (Send fd b Msg_dontwait)))" and "\<And>tr. P (Call Time (K tr Time))"
  shows "keeps (\<lambda>s. extends P tr (trace s)) (Quekka_publish K t topic payload sz :: ('z pub_state_scheme, int) prog)"
proof -
  have "keeps (\<lambda>s. extends P tr (trace s)) (Quecode_set_code t c :: ('z pub_state_scheme, unit) prog)" for t c
    unfolding Quecode_set_code_def by (rule keeps_modify) simp
  with assms show ?thesis
    unfolding Quekka_publish_def header_assemble_def Let_def
    by (intro keeps_intros keeps_one_call publish_loop_extends)
qed

lemma publish_since:
  assumes "Quekka_publish K t topic payload sz s = (r, s')"
  shows "trace s' = trace s @ since id s s'" and "sends (since id s s') = since sends s s'"
    and "accepted fd (since id s s') = since (accepted fd) s s'"
proof -
  have "extends (\<lambda>_. True) (trace s) (trace s')" by (rule keepsD [OF publish_extends _ assms]) simp_all
  then obtain new where n: "trace s' = trace s @ new" by (auto simp: extends_def)
  then show "trace s' = trace s @ since id s s'" "sends (since id s s') = since sends s s'"
    "accepted fd (since id s s') = since (accepted fd) s s'"
    by (simp_all add: since_def)
qed

lemma publish_sends:
  assumes "publishable K t topic payload s p now"
    and "Quekka_publish K t topic payload (length (cstr payload)) s = (r, s')"
  shows "since sends s s' = map (Pair (p_fd p)) (frames_sent s s')"
  using publish_run [OF assms(1)] assms(2) by (auto simp: since_def frames_sent_def)

text \<open>If every byte was accepted, the connection carries the messages.\<close>

lemma publication_decodes:
  assumes "publishable K t topic payload s p now"
    and "Quekka_publish K t topic payload (length (cstr payload)) s = (r, s')" and "list_all sent_whole (since id s s')"
  shows "\<exists>ms. decode_frames QUEKKA_MSG_SIZE message_of_bytes (length ms) (since (accepted (p_fd p)) s s') = Some ms \<and>
    ms = map (wire_message (wire_header (cstr topic) now) (cstr payload)) [0..<chunk_count (cstr payload)] \<and>
    (0 < length (cstr payload) \<and> length (cstr payload) \<le> 3942 \<longrightarrow> map (\<lambda>m. cstr (m_payload m)) ms = [cstr payload])"
proof -
  let ?ms = "map (wire_message (wire_header (cstr topic) now) (cstr payload)) [0..<chunk_count (cstr payload)]"
  have "since (accepted (p_fd p)) s s' = concat (frames_sent s s')"
    using accepted_whole [OF assms(3), of "p_fd p"] publish_sends [OF assms(1,2)]
    unfolding publish_since(2,3) [OF assms(2)] by (simp add: comp_def)
  also have "\<dots> = concat (map message_bytes ?ms)" unfolding publish_frames(2) [OF assms(1,2)] by (simp add: comp_def)
  finally have b: "since (accepted (p_fd p)) s s' = concat (map message_bytes ?ms)" .
  have "\<forall>m \<in> set ?ms. wf_message m" using assms(1) wf_wire_message wf_wire_header by (auto simp: publishable_def)
  from message_codec.decode_stream [OF this]
  have "decode_frames QUEKKA_MSG_SIZE message_of_bytes (length ?ms) (since (accepted (p_fd p)) s s') = Some ?ms"
    unfolding b .
  moreover have "map (\<lambda>m. cstr (m_payload m)) ?ms = [cstr payload]" if "0 < length (cstr payload)" "length (cstr payload) \<le> 3942"
  proof -
    have "(n + 3942) div 3943 = 1" if "0 < n" "n \<le> 3942" for n :: nat
      by (rule div_nat_eqI) (use that in simp_all)
    with that have "chunk_count (cstr payload) = 1" by (simp add: chunk_count_def PAYLOAD_MAX_eq del: length_greater_0_conv)
    then show ?thesis using that by (simp add: cstr_wire_payload)
  qed
  ultimately show ?thesis by auto
qed

section \<open>Properties\<close>

text \<open>
  C24. \<open>Quekka_publish\<close> does not look at what \<open>send\<close> answers. Under any two systems that agree on the time it
  hands the same frames to the same descriptor and returns 0 with the error code untouched. So it reports success also when
  not a byte was accepted, and after a frame that was accepted in part it goes on with the next
  one: what is on the connection are the accepted parts of the frames, one after another.
\<close>

theorem publish_ignores_send_results:
  assumes "publishable K t topic payload s p now" and "publishable K' t topic payload s p now"
    and "Quekka_publish K t topic payload (length (cstr payload)) s = (r, s1)"
    and "Quekka_publish K' t topic payload (length (cstr payload)) s = (r', s2)"
  shows "r = Ret 0 \<and> r' = Ret 0 \<and> quecode s1 = quecode s \<and> quecode s2 = quecode s \<and>
    since sends s s1 = since sends s s2 \<and>
    (list_all sent_nothing (since id s s1) \<longrightarrow> since (accepted (p_fd p)) s s1 = []) \<and>
    (list_all sent_whole (since id s s2) \<longrightarrow> since (accepted (p_fd p)) s s2 = concat (frames_sent s s2))"
proof -
  have q: "r = Ret 0" "r' = Ret 0" "quecode s1 = quecode s" "quecode s2 = quecode s"
    using publish_run [OF assms(1)] publish_run [OF assms(2)] assms(3,4) by auto
  have f: "frames_sent s s1 = frames_sent s s2"
    unfolding publish_frames(2) [OF assms(1,3)] publish_frames(2) [OF assms(2,4)] ..
  have "since (accepted (p_fd p)) s s1 = []" if "list_all sent_nothing (since id s s1)"
    unfolding publish_since(3) [OF assms(3), symmetric] using that by (rule accepted_nothing)
  moreover have "since (accepted (p_fd p)) s s2 = concat (frames_sent s s2)" if "list_all sent_whole (since id s s2)"
    using accepted_whole [OF that, of "p_fd p"] publish_sends [OF assms(2,4)]
    unfolding publish_since(2,3) [OF assms(4)] by (simp add: comp_def)
  ultimately show ?thesis using q f publish_sends [OF assms(1,3)] publish_sends [OF assms(2,4)] by simp
qed

text \<open>
  C2. From the producer to the server's user, over a whole run of the server. If every \<open>send\<close> of a publication was
  accepted whole, and these bytes and no others arrive while \<open>socket_server_start\<close> runs, in whatever chunks and over
  however many events, then what \<open>on_received\<close> is given, put together and cut every 4096 bytes, are
  exactly the published messages in order; a payload of up to 3942 bytes is the content of the one message
  it takes.
\<close>

theorem publication_reaches_running_server:
  fixes s :: "'z pub_state_scheme" and m :: "'y mem_scheme"
  assumes "publishable K t topic payload s p now"
    and "Quekka_publish K t topic payload (length (cstr payload)) s = (r, s')" and "list_all sent_whole (since id s s')"
    and "well_behaved K' (recorder :: 'y mem_scheme user)" and "server_ok server sv ep cs m"
    and "on_received (ss_callbacks sv) = Some g" and "socket_server_start K' recorder l n server m = (q, m')"
    and "concat (map snd (since received m m')) = since (accepted (p_fd p)) s s'"
  shows "\<exists>ms. decode_frames QUEKKA_MSG_SIZE message_of_bytes (length ms) (concat (map snd (since delivered m m'))) = Some ms \<and>
    ms = map (wire_message (wire_header (cstr topic) now) (cstr payload)) [0..<chunk_count (cstr payload)] \<and>
    (0 < length (cstr payload) \<and> length (cstr payload) \<le> 3942 \<longrightarrow> map (\<lambda>m. cstr (m_payload m)) ms = [cstr payload])"
proof -
  have "map snd (since delivered m m') = map snd (since received m m')"
    using wpD [OF server_start_carries [OF assms(4-6)] assms(7)] by (auto simp: carried_def since_def)
  with assms(8) show ?thesis
    using publication_decodes [OF assms(1-3)] by simp
qed

text \<open>
  The same for one event: the bytes arrive while \<open>handle_client\<close> serves the client's descriptor, and
  everything \<open>on_received\<close> is given comes from this client.
\<close>

theorem publication_reaches_server_user:
  fixes s :: "'z pub_state_scheme" and m :: "'y mem_scheme"
  assumes "publishable K t topic payload s p now"
    and "Quekka_publish K t topic payload (length (cstr payload)) s = (r, s')" and "list_all sent_whole (since id s s')"
    and "recv_fits K'" and "server_ok server sv ep cs m" and "on_received (ss_callbacks sv) = Some g"
    and "handle_client K' recorder n server fd m = (q, m')"
    and "concat (since (chunks fd) m m') = since (accepted (p_fd p)) s s'"
  shows "(\<forall>d \<in> set (since delivered m m'). fst d = lookup fd cs) \<and>
    (\<exists>ms. decode_frames QUEKKA_MSG_SIZE message_of_bytes (length ms) (concat (map snd (since delivered m m'))) = Some ms \<and>
       ms = map (wire_message (wire_header (cstr topic) now) (cstr payload)) [0..<chunk_count (cstr payload)] \<and>
       (0 < length (cstr payload) \<and> length (cstr payload) \<le> 3942 \<longrightarrow> map (\<lambda>m. cstr (m_payload m)) ms = [cstr payload]))"
proof -
  have "extends_delivery fd (lookup fd cs) m m'"
    by (rule wpD [OF handle_client_extends [OF assms(4-6)] assms(7)])
  then have d: "since delivered m m' = map (Pair (lookup fd cs)) (since (chunks fd) m m')"
    by (auto simp: extends_delivery_def since_def chunks_received comp_def)
  then have "concat (map snd (since delivered m m')) = since (accepted (p_fd p)) s s'" using assms(8) by (simp add: comp_def)
  then show ?thesis using publication_decodes [OF assms(1-3)] d by auto
qed

section \<open>Witnesses\<close>

text \<open>A system whose connection takes nothing.\<close>

definition full_pipe :: kernel where
  "full_pipe tr c = (case c of Send fd b f \<Rightarrow> Err EAGAIN | _ \<Rightarrow> sample_kernel tr c)"

lemma full_pipe_publishable:
  "publishable full_pipe 0 sample_topic sample_payload sample_pub_state sample_producer sample_tm"
  using sample_publishable_hello by (simp add: publishable_def full_pipe_def)

lemma full_pipe_refuses:
  assumes "Quekka_publish full_pipe t topic payload sz s = (r, s')"
  shows "list_all sent_nothing (since id s s')"
proof -
  have "extends sent_nothing (trace s) (trace s')"
    by (rule keepsD [OF publish_extends _ assms]) (simp_all add: full_pipe_def)
  then show ?thesis by (auto simp: extends_def since_def)
qed

lemma sample_sends_whole:
  assumes "Quekka_publish sample_kernel t topic payload sz s = (r, s')"
  shows "list_all sent_whole (since id s s')"
proof -
  have "extends sent_whole (trace s) (trace s')"
    by (rule keepsD [OF publish_extends _ assms]) (simp_all add: sample_kernel_def)
  then show ?thesis by (auto simp: extends_def since_def)
qed

theorem publish_ignores_send_results_witness:
  "\<exists>s1. Quekka_publish full_pipe 0 sample_topic sample_payload (length (cstr sample_payload)) sample_pub_state = (Ret 0, s1) \<and>
     length (since sends sample_pub_state s1) = 1 \<and> since (accepted 3) sample_pub_state s1 = []"
proof -
  let ?run = "\<lambda>K. Quekka_publish K 0 sample_topic sample_payload (length (cstr sample_payload)) sample_pub_state"
  obtain r s1 r' s2 where run: "?run full_pipe = (r, s1)" "?run sample_kernel = (r', s2)" by (metis surj_pair)
  have "length (since sends sample_pub_state s1) = 1"
    unfolding publish_sends [OF full_pipe_publishable run(1)] publish_frames(2) [OF full_pipe_publishable run(1)]
    by (simp add: chunk_count_def PAYLOAD_MAX_eq)
  moreover have "p_fd sample_producer = 3" by (simp add: sample_producer_def)
  ultimately show ?thesis
    using publish_ignores_send_results [OF full_pipe_publishable sample_publishable_hello run] full_pipe_refuses [OF run(1)] run
    by auto
qed

text \<open>A connection on which the bytes \<open>B\<close> arrive, at most 1000 at a time; when they have arrived the wait fails.\<close>

definition pipe :: "char list \<Rightarrow> kernel" where
  "pipe B tr c =
     (let rest = drop (length (concat (map snd (received tr)))) B in
      case c of
        Recv fd n f \<Rightarrow> if rest = [] then Err EAGAIN else Bytes (take (min n 1000) rest)
      | Epoll_wait ep n t \<Rightarrow> if rest = [] then Err EBADF else Ready (take n [(0, EPOLLIN)])
      | _ \<Rightarrow> sample_kernel tr c)"

lemma pipe_behaves: "well_behaved (pipe B) recorder"
proof -
  have "recv_fits (pipe B)" "poll_fits (pipe B)" "accept_fresh (pipe B)"
    by (auto simp: recv_fits_def poll_fits_def accept_fresh_def pipe_def Let_def sample_kernel_def split: if_splits)
  moreover have "malloc_fresh (pipe B)" using sample_malloc_fresh by (simp add: malloc_fresh_def pipe_def Let_def)
  ultimately show ?thesis using recorder_quiet by (simp add: well_behaved_def)
qed

lemma pipe_receive:
  fixes s :: "'z mem_scheme"
  assumes "on_received (ss_callbacks sv) = Some g"
  shows "heap s server = Some (Server sv) \<Longrightarrow> server \<noteq> 0 \<Longrightarrow> concat (map snd (received (trace s))) @ R = B \<Longrightarrow> length R \<le> 1000 * n \<Longrightarrow>
    \<exists>s'. receive_loop (pipe B) recorder (Suc n) server fd client s = (Ret (), s') \<and> concat (map snd (received (trace s'))) = B"
proof (induction n arbitrary: s R)
  case 0
  then show ?case by (auto simp: run_simps pipe_def BUFFER_SIZE_def err_of_def EAGAIN_def)
next
  case (Suc n)
  have rest: "drop (length (concat (map snd (received (trace s))))) B = R" using Suc.prems(3) by auto
  show ?case
  proof (cases "R = []")
    case True
    with rest Suc.prems(3) show ?thesis by (auto simp: run_simps pipe_def BUFFER_SIZE_def err_of_def EAGAIN_def)
  next
    case False
    let ?b = "take 1000 R"
    have le: "min (length R) 1000 \<le> 1024" by simp
    let ?s2 = "s\<lparr>trace := trace s @ [Call (Recv fd 1024 No_flag) (Bytes ?b), Logged LOG_DEBUG ''received'' [Int_arg (int client), Str_arg ?b, Int_arg (int (length ?b))]]\<rparr>"
    have "\<exists>s'. receive_loop (pipe B) recorder (Suc n) server fd client ?s2 = (Ret (), s') \<and> concat (map snd (received (trace s'))) = B"
      by (rule Suc.IH [of _ "drop 1000 R"]) (use Suc.prems False in auto)
    moreover have "receive_loop (pipe B) recorder (Suc (Suc n)) server fd client s = receive_loop (pipe B) recorder (Suc n) server fd client ?s2"
      using Suc.prems(1,2) rest False le
      by (subst receive_loop.simps(2)) (simp add: run_simps pipe_def BUFFER_SIZE_def assms call_opt_def recorder_def err_of_def Let_def del: receive_loop.simps)
    ultimately show ?thesis by simp
  qed
qed

lemma pipe_event:
  fixes s :: mem
  assumes ok: "server_ok 100 sample_server 4 [(400, new_client 0 any_addr)] s" and "received (trace s) = []" and "length B \<le> 1000 * n"
  shows "\<exists>s' cs. epoll_event_callback (pipe B) recorder (Suc n) 0 EPOLLIN 100 s = (Ret (), s') \<and> server_ok 100 sample_server 4 cs s' \<and>
    concat (map snd (received (trace s'))) = B"
proof -
  let ?cl = "lookup 0 [(400, new_client 0 any_addr)]"
  have sv: "heap s 100 = Some (Server sample_server)" "(100 :: ptr) \<noteq> 0" using ok by (auto elim: server_okE)
  have on: "on_received (ss_callbacks sample_server) = Some 1" "ss_listen_fd sample_server = 3"
    by (simp_all add: sample_server_def no_callbacks_def)
  from pipe_receive [OF on(1) sv, of B B n 0 ?cl] assms(2,3) obtain s' where
    run: "receive_loop (pipe B) recorder (Suc n) 100 0 ?cl s = (Ret (), s')" "concat (map snd (received (trace s'))) = B" by auto
  then have cb: "epoll_event_callback (pipe B) recorder (Suc n) 0 EPOLLIN 100 s = (Ret (), s')"
    using sv on(2) by (simp add: epoll_event_callback_def ptr_as_int_def run_simps handle_client_run [OF ok] client_fds_def
        new_client_def del: receive_loop.simps)
  have "serving 100 sample_server 4 (open_fds (trace s) - set (client_fds [(400, new_client 0 any_addr)])) s"
    using ok by (auto simp: serving_def)
  from wpD [OF event_callback_wp [OF pipe_behaves this] cb] obtain cs where "server_ok 100 sample_server 4 cs s'"
    by (auto simp: serving_def)
  then show ?thesis using cb run(2) by blast
qed

theorem publication_reaches_running_server_witness:
  "\<exists>s' m' msg. Quekka_publish sample_kernel 0 sample_topic sample_payload (length (cstr sample_payload)) sample_pub_state = (Ret 0, s') \<and>
     socket_server_start (pipe (concat (frames_sent sample_pub_state s'))) recorder 6 2 100 low_mem = (Ret 0, m') \<and>
     decode_frames QUEKKA_MSG_SIZE message_of_bytes 1 (concat (map snd (since delivered low_mem m'))) = Some [msg] \<and>
     cstr (m_payload msg) = ''hello''"
proof -
  note pub = sample_publishable_hello
  obtain r s' where run: "Quekka_publish sample_kernel 0 sample_topic sample_payload (length (cstr sample_payload)) sample_pub_state = (r, s')"
    by fastforce
  define B where "B = concat (frames_sent sample_pub_state s')"
  have fd: "p_fd sample_producer = 3" by (simp add: sample_producer_def)
  have whole: "list_all sent_whole (since id sample_pub_state s')" by (rule sample_sends_whole [OF run])
  have B: "since (accepted (p_fd sample_producer)) sample_pub_state s' = B"
    using accepted_whole [OF whole, of 3] publish_sends [OF pub run]
    unfolding publish_since(2,3) [OF run] fd B_def by (simp add: comp_def)
  have count: "chunk_count (cstr sample_payload) = 1" by (simp add: chunk_count_def PAYLOAD_MAX_eq)
  have len: "length B = 4096"
    unfolding B_def publish_frames(2) [OF pub run] count by (simp add: publish_frame_decodes(2) [OF pub] del: cstr_sample)
  then have "B \<noteq> []" by auto
  then have wait: "pipe B (trace low_mem) (Epoll_wait 4 EPOLL_MAX_EVENTS (-1)) = Ready [(0, EPOLLIN)]"
    by (simp add: pipe_def low_trace(5) EPOLL_MAX_EVENTS_def)
  have "length B \<le> 1000 * 5" using len by simp
  note event = pipe_event [OF _ _ this]
  have "\<exists>m'. socket_server_start (pipe B) recorder (Suc 5) 2 100 low_mem = (Ret 0, m') \<and>
      concat (map snd (received (trace m'))) = B"
    by (rule low_run [where K = "pipe B" and P = "\<lambda>xs. concat (map snd xs) = B", OF wait]) (use event in \<open>auto simp: pipe_def\<close>)
  then obtain m' where m': "socket_server_start (pipe B) recorder 6 2 100 low_mem = (Ret 0, m')"
    "concat (map snd (received (trace m'))) = B" by auto
  have on: "on_received (ss_callbacks sample_server) = Some 1" by (simp add: sample_server_def no_callbacks_def)
  have "concat (map snd (since received low_mem m')) = since (accepted (p_fd sample_producer)) sample_pub_state s'"
    unfolding B by (simp add: since_def low_trace(5) m'(2))
  note reach = publication_reaches_running_server [OF pub run whole pipe_behaves low_mem_ok on m'(1) this]
  have "0 < length (cstr sample_payload) \<and> length (cstr sample_payload) \<le> 3942" by simp
  with reach obtain ms where
    ms: "decode_frames QUEKKA_MSG_SIZE message_of_bytes (length ms) (concat (map snd (since delivered low_mem m'))) = Some ms"
    "map (\<lambda>m. cstr (m_payload m)) ms = [cstr sample_payload]" by metis
  then obtain msg where "ms = [msg]" "cstr (m_payload msg) = ''hello''" by auto
  then show ?thesis using ms(1) run m'(1) publish_frames(1) [OF pub run] by (auto simp: B_def)
qed

end
