(* ===== verification/Quekka_Mdb.thy ===== *)
theory Quekka_Mdb
  imports Prelude "HOL-Library.Multiset"
begin

text \<open>
  The in-memory tables (\<^verbatim>\<open>include/quekka/Quekka_mdb.hpp\<close>): \<open>columns\<close> is a map from keys to
  rows, \<open>table\<close> adds a callback that a detached thread calls after every change, \<open>Quekka_mdb\<close>
  keeps tables of different row types under names. Key and row types are type variables, the
  type a table was made with is a tag; \<open>value_type{}\<close> is the parameter \<open>d\<close>. The state holds the
  database's map of names, the table objects (a dropped one is gone, so that using a
  reference to it is a fault), the threads that were started and have not yet called back,
  and the callback calls made so far. Whether the system can start the thread of the \<open>i\<close>-th task is
  a parameter \<open>T i\<close>; where it cannot, \<open>std::thread\<close> throws after the row has been changed. What the
  callback does is outside the model.
\<close>

section \<open>Keys and columns\<close>

datatype 'a primarykey = Primarykey (getKey: 'a)

definition hash_primarykey :: "('a \<Rightarrow> nat) \<Rightarrow> 'a primarykey \<Rightarrow> nat" where
  "hash_primarykey h k = h (getKey k)"

datatype CRUD = CREATE | UPDATE | DELETE

record ('k, 'v) columns =
  c_data :: "'k \<rightharpoonup> 'v"

definition columns_has :: "'k \<Rightarrow> ('k, 'v) columns \<Rightarrow> bool" where
  "columns_has key c = (c_data c key \<noteq> None)"

text \<open>Results: what the function returns, with its output parameters, and the columns.\<close>

definition columns_get :: "'k \<Rightarrow> 'v \<Rightarrow> ('k, 'v) columns \<Rightarrow> bool \<times> 'v" where
  "columns_get key out c = (case c_data c key of None \<Rightarrow> (False, out) | Some v \<Rightarrow> (True, v))"

definition columns_upsert ::
    "'v \<Rightarrow> 'k \<Rightarrow> 'v \<Rightarrow> ('k, 'v) columns \<Rightarrow> (bool \<times> bool \<times> 'v) \<times> ('k, 'v) columns" where
  "columns_upsert d key newValue c =
     (case c_data c key of
        None \<Rightarrow> ((True, True, d), c\<lparr>c_data := (c_data c)(key \<mapsto> newValue)\<rparr>)
      | Some before \<Rightarrow> ((True, False, before), c\<lparr>c_data := (c_data c)(key \<mapsto> newValue)\<rparr>))"

definition columns_erase :: "'k \<Rightarrow> 'v \<Rightarrow> ('k, 'v) columns \<Rightarrow> (bool \<times> 'v) \<times> ('k, 'v) columns" where
  "columns_erase key before c =
     (case c_data c key of
        None \<Rightarrow> ((False, before), c)
      | Some b \<Rightarrow> ((True, b), c\<lparr>c_data := (c_data c)(key := None)\<rparr>))"

section \<open>Tables\<close>

type_synonym callback = nat
type_synonym tref = nat

record ('k, 'v) notice =
  n_fn :: callback
  n_key :: 'k
  n_op :: CRUD
  n_before :: 'v
  n_after :: 'v

record ('k, 'v) table =
  t_record :: "('k, 'v) columns"
  t_callback :: "callback option"

record ('ty, 'k, 'v) mdb =
  m_tables :: "string \<rightharpoonup> tref"
  m_objs :: "tref \<rightharpoonup> 'ty \<times> ('k, 'v) table"
  m_next :: tref
  m_threads :: "(nat \<times> ('k, 'v) notice) list"
  m_calls :: "('k, 'v) notice list"
  m_next_task :: nat

text \<open>A \<open>std::future\<close>: already set, or set when the task with this number has run.\<close>

datatype future = Set_future | Task_future nat

text \<open>\<open>std::system_error\<close>, thrown by the constructor of \<open>std::thread\<close>.\<close>

datatype thread_error = System_error

definition the_table :: "tref \<Rightarrow> (('ty, 'k, 'v) mdb, ('k, 'v) table) prog" where
  "the_table p = bind_c (get_c (\<lambda>s. m_objs s p)) (\<lambda>v. require_c Dangling (map_option snd v))"

definition put_table :: "tref \<Rightarrow> ('k, 'v) table \<Rightarrow> (('ty, 'k, 'v) mdb, unit) prog" where
  "put_table p t = modify_c (\<lambda>s. s\<lparr>m_objs := (m_objs s)(p := map_option (\<lambda>x. (fst x, t)) (m_objs s p))\<rparr>)"

definition dispatch_callback_async ::
    "(nat \<Rightarrow> bool) \<Rightarrow> callback option \<Rightarrow> 'k \<Rightarrow> CRUD \<Rightarrow> 'v \<Rightarrow> 'v \<Rightarrow> (('ty, 'k, 'v) mdb, thread_error + future) prog" where
  "dispatch_callback_async T cb key op before now =
     (case cb of
        None \<Rightarrow> return_c (Inr Set_future)
      | Some f \<Rightarrow>
          bind_c (get_c m_next_task) (\<lambda>i.
          then_c (modify_c (\<lambda>s. s\<lparr>m_next_task := Suc i\<rparr>))
          (if T i then
             then_c (modify_c (\<lambda>s. s\<lparr>m_threads := m_threads s @
                 [(i, \<lparr>n_fn = f, n_key = key, n_op = op, n_before = before, n_after = now\<rparr>)]\<rparr>))
               (return_c (Inr (Task_future i)))
           else return_c (Inl System_error))))"

definition table_upsert :: "(nat \<Rightarrow> bool) \<Rightarrow> 'v \<Rightarrow> tref \<Rightarrow> 'k \<Rightarrow> 'v \<Rightarrow> (('ty, 'k, 'v) mdb, thread_error + future) prog" where
  "table_upsert T d p key v =
     bind_c (the_table p) (\<lambda>t.
     case columns_upsert d key v (t_record t) of ((_, isCreate, before), r) \<Rightarrow>
       then_c (put_table p (t\<lparr>t_record := r\<rparr>))
         (dispatch_callback_async T (t_callback t) key (if isCreate then CREATE else UPDATE) before v))"

definition table_erase :: "(nat \<Rightarrow> bool) \<Rightarrow> 'v \<Rightarrow> tref \<Rightarrow> 'k \<Rightarrow> (('ty, 'k, 'v) mdb, thread_error + future) prog" where
  "table_erase T d p key =
     bind_c (the_table p) (\<lambda>t.
     case columns_erase key d (t_record t) of ((erased, before), r) \<Rightarrow>
       if \<not> erased then return_c (Inr Set_future)
       else then_c (put_table p (t\<lparr>t_record := r\<rparr>))
         (dispatch_callback_async T (t_callback t) key DELETE before d))"

definition table_get :: "tref \<Rightarrow> 'k \<Rightarrow> 'v \<Rightarrow> (('ty, 'k, 'v) mdb, bool \<times> 'v) prog" where
  "table_get p key out = bind_c (the_table p) (\<lambda>t. return_c (columns_get key out (t_record t)))"

section \<open>The database\<close>

definition empty_mdb :: "('ty, 'k, 'v) mdb" where
  "empty_mdb = \<lparr>m_tables = Map.empty, m_objs = Map.empty, m_next = 0, m_threads = [], m_calls = [], m_next_task = 0\<rparr>"

text \<open>The exception of \<open>getTable\<close> is a left value with its text.\<close>

definition getTable :: "'ty \<Rightarrow> string \<Rightarrow> callback option \<Rightarrow> (('ty, 'k, 'v) mdb, string + tref) prog" where
  "getTable ty name cb =
     bind_c (get_c (\<lambda>s. m_tables s name)) (\<lambda>it.
     case it of
       None \<Rightarrow>
         bind_c (get_c m_next) (\<lambda>raw.
         then_c (modify_c (\<lambda>s. s\<lparr>m_next := Suc raw, m_tables := (m_tables s)(name \<mapsto> raw),
             m_objs := (m_objs s)(raw \<mapsto> (ty, \<lparr>t_record = \<lparr>c_data = Map.empty\<rparr>, t_callback = cb\<rparr>))\<rparr>))
           (return_c (Inr raw)))
     | Some p \<Rightarrow>
         bind_c (get_c (\<lambda>s. m_objs s p)) (\<lambda>v.
         bind_c (require_c Dangling (map_option fst v)) (\<lambda>ty'.
         if ty' = ty then return_c (Inr p)
         else return_c (Inl ''Table with same name exists but with different RecordType''))))"

definition hasTable :: "string \<Rightarrow> (('ty, 'k, 'v) mdb, bool) prog" where
  "hasTable name = get_c (\<lambda>s. m_tables s name \<noteq> None)"

definition dropTable :: "string \<Rightarrow> (('ty, 'k, 'v) mdb, bool) prog" where
  "dropTable name =
     bind_c (get_c (\<lambda>s. m_tables s name)) (\<lambda>it.
     case it of
       None \<Rightarrow> return_c False
     | Some p \<Rightarrow>
         then_c (modify_c (\<lambda>s. s\<lparr>m_tables := (m_tables s)(name := None), m_objs := (m_objs s)(p := None)\<rparr>))
           (return_c True))"

section \<open>Columns and tables are maps\<close>

text \<open>What a key-value store promises, and what follows for a series of changes.\<close>

datatype ('k, 'v) change = Put 'k 'v | Del 'k

primrec apply_change :: "('k, 'v) change \<Rightarrow> ('k \<rightharpoonup> 'v) \<Rightarrow> 'k \<rightharpoonup> 'v" where
  "apply_change (Put k v) m = m(k \<mapsto> v)"
| "apply_change (Del k) m = m(k := None)"

locale kv_store =
  fixes contents :: "'s \<Rightarrow> 'k \<rightharpoonup> 'v"
    and good :: "'s \<Rightarrow> bool"
    and change :: "('k, 'v) change \<Rightarrow> 's \<Rightarrow> 's"
  assumes change_good: "good s \<Longrightarrow> good (change c s)"
    and change_contents: "good s \<Longrightarrow> contents (change c s) = apply_change c (contents s)"
begin

lemma changes_good: "good s \<Longrightarrow> good (fold change cs s)"
  by (induction cs arbitrary: s) (simp_all add: change_good)

lemma changes_contents: "good s \<Longrightarrow> contents (fold change cs s) = fold apply_change cs (contents s)"
  by (induction cs arbitrary: s) (simp_all add: change_good change_contents)

lemma put_get: "good s \<Longrightarrow> contents (change (Put k v) s) k = Some v"
  by (simp add: change_contents)

lemma del_get: "good s \<Longrightarrow> contents (change (Del k) s) k = None"
  by (simp add: change_contents)

end

primrec columns_change :: "('k, 'v) change \<Rightarrow> ('k, 'v) columns \<Rightarrow> ('k, 'v) columns" where
  "columns_change (Put k v) c = snd (columns_upsert undefined k v c)"
| "columns_change (Del k) c = snd (columns_erase k undefined c)"

interpretation columns: kv_store c_data "\<lambda>_. True" columns_change
proof
  fix c :: "('k, 'v) change" and s
  show "c_data (columns_change c s) = apply_change c (c_data s)"
    by (cases c) (auto simp: columns_upsert_def columns_erase_def split: option.split)
qed simp

definition rows :: "tref \<Rightarrow> ('ty, 'k, 'v) mdb \<Rightarrow> 'k \<rightharpoonup> 'v" where
  "rows p s = (case m_objs s p of None \<Rightarrow> Map.empty | Some x \<Rightarrow> c_data (t_record (snd x)))"

definition live :: "tref \<Rightarrow> ('ty, 'k, 'v) mdb \<Rightarrow> bool" where
  "live p s \<longleftrightarrow> m_objs s p \<noteq> None"

definition callback_of :: "tref \<Rightarrow> ('ty, 'k, 'v) mdb \<Rightarrow> callback option" where
  "callback_of p s = Option.bind (m_objs s p) (\<lambda>x. t_callback (snd x))"

primrec table_change :: "(nat \<Rightarrow> bool) \<Rightarrow> 'v \<Rightarrow> tref \<Rightarrow> ('k, 'v) change \<Rightarrow> (('ty, 'k, 'v) mdb, thread_error + future) prog" where
  "table_change T d p (Put k v) = table_upsert T d p k v"
| "table_change T d p (Del k) = table_erase T d p k"

text \<open>What a change has to report: nothing when nothing was deleted.\<close>

primrec report :: "callback \<Rightarrow> 'v \<Rightarrow> ('k \<rightharpoonup> 'v) \<Rightarrow> ('k, 'v) change \<Rightarrow> ('k, 'v) notice list" where
  "report f d m (Put k v) =
     [\<lparr>n_fn = f, n_key = k, n_op = (if m k = None then CREATE else UPDATE),
       n_before = (case m k of None \<Rightarrow> d | Some b \<Rightarrow> b), n_after = v\<rparr>]"
| "report f d m (Del k) =
     (case m k of None \<Rightarrow> []
      | Some b \<Rightarrow> [\<lparr>n_fn = f, n_key = k, n_op = DELETE, n_before = b, n_after = d\<rparr>])"

definition reports :: "tref \<Rightarrow> 'v \<Rightarrow> ('k, 'v) change \<Rightarrow> ('ty, 'k, 'v) mdb \<Rightarrow> ('k, 'v) notice list" where
  "reports p d c s = (case callback_of p s of None \<Rightarrow> [] | Some f \<Rightarrow> report f d (rows p s) c)"

text \<open>The threads started for a list of reports, with the numbers of their tasks.\<close>

definition started :: "(nat \<Rightarrow> bool) \<Rightarrow> nat \<Rightarrow> ('k, 'v) notice list \<Rightarrow> (nat \<times> ('k, 'v) notice) list" where
  "started T n ns = filter (\<lambda>x. T (fst x)) (List.enumerate n ns)"

lemma enumerate_append: "List.enumerate n (xs @ ys) = List.enumerate n xs @ List.enumerate (n + length xs) ys"
  by (induction xs arbitrary: n) simp_all

lemma started_simps [simp]:
  "started T n [] = []" "started T n (x # ns) = (if T n then [(n, x)] else []) @ started T (Suc n) ns"
  "started T n (ns @ ms) = started T n ns @ started T (n + length ns) ms"
  by (simp_all add: started_def enumerate_append)

lemma started_all: "\<forall>i. T i \<Longrightarrow> started T n ns = List.enumerate n ns"
  by (simp add: started_def)

lemma reports_cases: "reports p d c s = [] \<or> (\<exists>r. reports p d c s = [r])"
  by (cases c) (auto simp: reports_def split: option.split)

definition change_post :: "(nat \<Rightarrow> bool) \<Rightarrow> tref \<Rightarrow> 'v \<Rightarrow> ('k, 'v) change \<Rightarrow> ('ty, 'k, 'v) mdb \<Rightarrow> (thread_error + future) outcome \<Rightarrow> ('ty, 'k, 'v) mdb \<Rightarrow> bool" where
  "change_post T p d c s r s' \<longleftrightarrow>
     r = Ret (if reports p d c s = [] then Inr Set_future
       else if T (m_next_task s) then Inr (Task_future (m_next_task s)) else Inl System_error) \<and>
     rows p s' = apply_change c (rows p s) \<and> live p s' \<and> callback_of p s' = callback_of p s \<and>
     (\<forall>q. live q s' = live q s) \<and> (\<forall>q. q \<noteq> p \<longrightarrow> m_objs s' q = m_objs s q) \<and>
     m_tables s' = m_tables s \<and> m_next s' = m_next s \<and> m_calls s' = m_calls s \<and>
     m_threads s' = m_threads s @ started T (m_next_task s) (reports p d c s) \<and>
     m_next_task s' = m_next_task s + length (reports p d c s)"

lemma table_change_run:
  assumes "live p s"
  shows "wp (table_change T d p c) (change_post T p d c s) s"
proof -
  obtain ty t where t: "m_objs s p = Some (ty, t)" using assms by (auto simp: live_def)
  show ?thesis
    by (cases c; cases "c_data (t_record t) (case c of Put k v \<Rightarrow> k | Del k \<Rightarrow> k)"; cases "t_callback t")
      (auto simp: wp_def change_post_def table_upsert_def table_erase_def the_table_def put_table_def
        dispatch_callback_async_def columns_upsert_def columns_erase_def run_simps t rows_def live_def
        callback_of_def reports_def)
qed

lemma table_change_dead:
  assumes "\<not> live p s"
  shows "table_change T d p c s = (Fault Dangling, s)"
proof -
  have "m_objs s p = None" using assms unfolding live_def by blast
  then show ?thesis by (cases c) (simp_all add: table_upsert_def table_erase_def the_table_def run_simps)
qed

lemma table_change_post: "live p s \<Longrightarrow> change_post T p d c s (fst (table_change T d p c s)) (snd (table_change T d p c s))"
  using table_change_run [of p s T d c] by (simp add: wp_def)

lemma table_change_rows:
  assumes "live p s"
  shows "live p (snd (table_change T d p c s))" "rows p (snd (table_change T d p c s)) = apply_change c (rows p s)"
  using table_change_post [OF assms, of T d c] by (auto simp: change_post_def)

interpretation table: kv_store "rows p" "live p" "\<lambda>c s. snd (table_change T d p c s)"
  by unfold_locales (simp_all add: table_change_rows)

lemma table_get_run:
  assumes "live p s"
  shows "table_get p key out s = (Ret (case rows p s key of None \<Rightarrow> (False, out) | Some v \<Rightarrow> (True, v)), s)"
  using assms by (auto simp: table_get_def the_table_def columns_get_def live_def rows_def run_simps)

text \<open>A series of changes through one reference by a caller that catches what they throw, and all it has to report.\<close>

primrec table_session :: "(nat \<Rightarrow> bool) \<Rightarrow> 'v \<Rightarrow> tref \<Rightarrow> ('k, 'v) change list \<Rightarrow> (('ty, 'k, 'v) mdb, (thread_error + future) list) prog" where
  "table_session T d p [] = return_c []"
| "table_session T d p (c # cs) =
     bind_c (table_change T d p c) (\<lambda>f. bind_c (table_session T d p cs) (\<lambda>fs. return_c (f # fs)))"

primrec change_log :: "callback \<Rightarrow> 'v \<Rightarrow> ('k \<rightharpoonup> 'v) \<Rightarrow> ('k, 'v) change list \<Rightarrow> ('k, 'v) notice list" where
  "change_log f d m [] = []"
| "change_log f d m (c # cs) = report f d m c @ change_log f d (apply_change c m) cs"

definition session_log :: "tref \<Rightarrow> 'v \<Rightarrow> ('k, 'v) change list \<Rightarrow> ('ty, 'k, 'v) mdb \<Rightarrow> ('k, 'v) notice list" where
  "session_log p d cs s = (case callback_of p s of None \<Rightarrow> [] | Some f \<Rightarrow> change_log f d (rows p s) cs)"

lemma session_log_Cons:
  assumes "change_post T p d c s r s1"
  shows "session_log p d (c # cs) s = reports p d c s @ session_log p d cs s1"
  using assms by (auto simp: session_log_def reports_def change_post_def split: option.split)

lemma table_session_run:
  assumes "live p s"
  shows "\<exists>fs s'. table_session T d p cs s = (Ret fs, s') \<and> length fs = length cs \<and> ((\<forall>i. T i) \<longrightarrow> Inl System_error \<notin> set fs) \<and>
    s' = fold (\<lambda>c s. snd (table_change T d p c s)) cs s \<and> m_calls s' = m_calls s \<and>
    m_threads s' = m_threads s @ started T (m_next_task s) (session_log p d cs s)"
  using assms
proof (induction cs arbitrary: s)
  case Nil
  then show ?case by (simp add: run_simps session_log_def split: option.split)
next
  case (Cons c cs)
  obtain r s1 where s1: "table_change T d p c s = (r, s1)" by fastforce
  from wpD [OF table_change_run [OF Cons.prems(1)] this] have p: "change_post T p d c s r s1" .
  then have "live p s1" using Cons.prems by (simp add: change_post_def)
  from Cons.IH [OF this] obtain fs s' where IH: "table_session T d p cs s1 = (Ret fs, s')" "length fs = length cs"
    "(\<forall>i. T i) \<longrightarrow> Inl System_error \<notin> set fs"
    "s' = fold (\<lambda>c s. snd (table_change T d p c s)) cs s1" "m_calls s' = m_calls s1"
    "m_threads s' = m_threads s1 @ started T (m_next_task s1) (session_log p d cs s1)" by blast
  show ?case
    using IH s1 p by (auto simp: run_simps change_post_def session_log_Cons [OF p])
qed

section \<open>Tables, names and threads together\<close>

text \<open>
  What can happen: the program gets or drops a table or changes one through a reference, and
  at any moment one of the started threads makes its callback call.
\<close>

datatype ('ty, 'k, 'v) act =
    Get_table 'ty string "callback option"
  | Drop_table string
  | Change tref "('k, 'v) change"
  | Run_thread nat

definition run_thread :: "nat \<Rightarrow> ('k, 'v) notice \<Rightarrow> ('ty, 'k, 'v) mdb \<Rightarrow> ('ty, 'k, 'v) mdb" where
  "run_thread i n s =
     s\<lparr>m_threads := filter (\<lambda>x. fst x \<noteq> i) (m_threads s), m_calls := m_calls s @ [n]\<rparr>"

inductive mdb_step :: "(nat \<Rightarrow> bool) \<Rightarrow> 'v \<Rightarrow> ('ty, 'k, 'v) act \<Rightarrow> ('ty, 'k, 'v) mdb \<Rightarrow> ('ty, 'k, 'v) mdb \<Rightarrow> bool" for T d where
  get: "getTable ty name cb s = (Ret r, s') \<Longrightarrow> mdb_step T d (Get_table ty name cb) s s'"
| drop: "dropTable name s = (Ret b, s') \<Longrightarrow> mdb_step T d (Drop_table name) s s'"
| change: "table_change T d p c s = (Ret f, s') \<Longrightarrow> mdb_step T d (Change p c) s s'"
| thread: "(i, n) \<in> set (m_threads s) \<Longrightarrow> mdb_step T d (Run_thread i) s (run_thread i n s)"

inductive_cases mdb_stepE: "mdb_step T d a s s'"

text \<open>A run, with everything that had to be reported on the way and for which a thread could be started.\<close>

primrec due :: "(nat \<Rightarrow> bool) \<Rightarrow> 'v \<Rightarrow> ('ty, 'k, 'v) act \<Rightarrow> ('ty, 'k, 'v) mdb \<Rightarrow> ('k, 'v) notice list" where
  "due T d (Get_table ty name cb) s = []"
| "due T d (Drop_table name) s = []"
| "due T d (Change p c) s = map snd (started T (m_next_task s) (reports p d c s))"
| "due T d (Run_thread i) s = []"

inductive mdb_runs :: "(nat \<Rightarrow> bool) \<Rightarrow> 'v \<Rightarrow> ('ty, 'k, 'v) act list \<Rightarrow> ('k, 'v) notice list \<Rightarrow> ('ty, 'k, 'v) mdb \<Rightarrow> ('ty, 'k, 'v) mdb \<Rightarrow> bool" for T d where
  none: "mdb_runs T d [] [] s s"
| more: "mdb_step T d a s s1 \<Longrightarrow> mdb_runs T d as ns s1 s' \<Longrightarrow> mdb_runs T d (a # as) (due T d a s @ ns) s s'"

definition mdb_ok :: "('ty, 'k, 'v) mdb \<Rightarrow> bool" where
  "mdb_ok s \<longleftrightarrow>
     (\<forall>name p. m_tables s name = Some p \<longrightarrow> live p s) \<and>
     (\<forall>n n' p. m_tables s n = Some p \<longrightarrow> m_tables s n' = Some p \<longrightarrow> n = n') \<and>
     (\<forall>p. live p s \<longrightarrow> p < m_next s) \<and>
     distinct (map fst (m_threads s)) \<and> (\<forall>x \<in> set (m_threads s). fst x < m_next_task s)"

lemma mdb_ok_empty: "mdb_ok empty_mdb"
  by (simp add: mdb_ok_def empty_mdb_def live_def)

definition get_post :: "'ty \<Rightarrow> string \<Rightarrow> callback option \<Rightarrow> ('ty, 'k, 'v) mdb \<Rightarrow> (string + tref) outcome \<Rightarrow> ('ty, 'k, 'v) mdb \<Rightarrow> bool" where
  "get_post ty name cb s r s' \<longleftrightarrow>
     (case m_tables s name of
        None \<Rightarrow> r = Ret (Inr (m_next s)) \<and>
          s' = s\<lparr>m_next := Suc (m_next s), m_tables := (m_tables s)(name \<mapsto> m_next s),
            m_objs := (m_objs s)(m_next s \<mapsto> (ty, \<lparr>t_record = \<lparr>c_data = Map.empty\<rparr>, t_callback = cb\<rparr>))\<rparr>
      | Some p \<Rightarrow> s' = s \<and> (\<exists>ty' t. m_objs s p = Some (ty', t) \<and>
          r = Ret (if ty' = ty then Inr p else Inl ''Table with same name exists but with different RecordType'')))"

lemma getTable_run:
  assumes "mdb_ok s"
  shows "wp (getTable ty name cb) (get_post ty name cb s) s"
proof (cases "m_tables s name")
  case None
  then show ?thesis by (simp add: wp_def get_post_def getTable_def run_simps)
next
  case (Some p)
  then obtain ty' t where "m_objs s p = Some (ty', t)" using assms by (fastforce simp: mdb_ok_def live_def)
  then show ?thesis using Some by (simp add: wp_def get_post_def getTable_def run_simps)
qed

lemma dropTable_run:
  "dropTable name s = (case m_tables s name of None \<Rightarrow> (Ret False, s)
     | Some p \<Rightarrow> (Ret True, s\<lparr>m_tables := (m_tables s)(name := None), m_objs := (m_objs s)(p := None)\<rparr>))"
  by (cases "m_tables s name") (simp_all add: dropTable_def run_simps)

lemma mset_threads_minus:
  assumes "distinct (map fst xs)" and "(i, n) \<in> set xs"
  shows "mset xs = add_mset (i, n) (mset (filter (\<lambda>x. fst x \<noteq> i) xs))"
  using assms
proof (induction xs)
  case (Cons x xs)
  show ?case
  proof (cases "fst x = i")
    case True
    then have "\<forall>y \<in> set xs. fst y \<noteq> i" using Cons.prems(1) by (auto simp: image_iff)
    moreover from this have "x = (i, n)" using Cons.prems(2) True by auto
    ultimately show ?thesis by (simp add: filter_id_conv)
  qed (use Cons in auto)
qed simp

lemma map_fst_enumerate: "map fst (List.enumerate n xs) = [n..<n + length xs]"
  by (simp add: enumerate_eq_zip)

lemma map_snd_enumerate: "map snd (List.enumerate n xs) = xs"
  by (simp add: enumerate_eq_zip)

lemma mdb_step_change:
  assumes "mdb_step T d (Change p c) s s'"
  shows "\<exists>r. change_post T p d c s r s'"
  using assms by (auto elim!: mdb_stepE)
    (metis fst_conv outcome.distinct(3) snd_conv table_change_dead table_change_post)

lemma mdb_step_ok:
  assumes "mdb_step T d a s s'" and "mdb_ok s"
  shows "mdb_ok s'"
proof (cases a)
  case (Get_table ty name cb)
  with assms(1) obtain r where "getTable ty name cb s = (Ret r, s')" by (auto elim: mdb_stepE)
  moreover have "m_tables s n \<noteq> Some (m_next s)" for n
    using assms(2) unfolding mdb_ok_def by (metis less_irrefl)
  ultimately show ?thesis
    using wpD [OF getTable_run [OF assms(2)], of ty name cb "Ret r" s'] assms(2)
    by (auto simp: get_post_def mdb_ok_def live_def less_Suc_eq split: option.splits)
next
  case (Drop_table name)
  show ?thesis
  proof (cases "m_tables s name")
    case None
    then have "s' = s" using assms(1) Drop_table by (auto elim!: mdb_stepE simp: dropTable_run)
    then show ?thesis using assms(2) by simp
  next
    case (Some p)
    then have s': "s' = s\<lparr>m_tables := (m_tables s)(name := None), m_objs := (m_objs s)(p := None)\<rparr>"
      using assms(1) Drop_table by (auto elim!: mdb_stepE simp: dropTable_run)
    have l: "live q s' \<longleftrightarrow> q \<noteq> p \<and> live q s" for q by (simp add: s' live_def)
    have "q \<noteq> p" if "m_tables s n = Some q" "n \<noteq> name" for n q using assms(2) Some that by (auto simp: mdb_ok_def)
    then show ?thesis
      using assms(2) unfolding mdb_ok_def l by (simp add: s')
  qed
next
  case (Change p c)
  with assms(1) have "mdb_step T d (Change p c) s s'" by simp
  from mdb_step_change [OF this] obtain r where "change_post T p d c s r s'" ..
  with assms(2) show ?thesis
    by (fastforce simp: change_post_def mdb_ok_def started_def distinct_map_filter map_fst_enumerate in_set_enumerate_eq)
next
  case (Run_thread i)
  with assms(1) obtain n where "s' = run_thread i n s" by (auto elim: mdb_stepE)
  with assms(2) show ?thesis by (simp add: run_thread_def mdb_ok_def live_def distinct_map_filter)
qed

definition said :: "('ty, 'k, 'v) mdb \<Rightarrow> ('k, 'v) notice multiset" where
  "said s = mset (m_calls s) + mset (map snd (m_threads s))"

lemma mdb_step_said:
  assumes "mdb_step T d a s s'" and "mdb_ok s"
  shows "said s' = said s + mset (due T d a s)"
proof (cases a)
  case (Get_table ty name cb)
  with assms(1) obtain r where "getTable ty name cb s = (Ret r, s')" by (auto elim: mdb_stepE)
  from wpD [OF getTable_run [OF assms(2)] this] show ?thesis
    by (auto simp: get_post_def said_def Get_table split: option.splits)
next
  case (Drop_table name)
  with assms(1) show ?thesis by (auto elim!: mdb_stepE simp: dropTable_run said_def split: option.splits)
next
  case (Change p c)
  with assms(1) have "mdb_step T d (Change p c) s s'" by simp
  from mdb_step_change [OF this] obtain r where "change_post T p d c s r s'" ..
  then show ?thesis by (simp add: change_post_def said_def Change)
next
  case (Run_thread i)
  with assms(1) obtain n where n: "(i, n) \<in> set (m_threads s)" "s' = run_thread i n s" by (auto elim: mdb_stepE)
  have "distinct (map fst (m_threads s))" using assms(2) by (simp add: mdb_ok_def)
  from arg_cong [OF mset_threads_minus [OF this n(1)], of "image_mset snd"] n(2) show ?thesis
    by (simp add: run_thread_def said_def Run_thread)
qed

lemma mdb_runs_said: "mdb_runs T d as ns s s' \<Longrightarrow> mdb_ok s \<Longrightarrow> mdb_ok s' \<and> said s' = said s + mset ns"
  by (induction rule: mdb_runs.induct) (auto simp: mdb_step_said dest: mdb_step_ok)

lemma mdb_step_pending:
  assumes "mdb_step T d a s s'" and "mdb_ok s"
  shows "\<exists>new. m_calls s' = m_calls s @ new \<and> set (m_threads s) \<subseteq> set (m_threads s') \<union> {x. snd x \<in> set new}"
proof (cases a)
  case (Get_table ty name cb)
  with assms(1) obtain r where "getTable ty name cb s = (Ret r, s')" by (auto elim: mdb_stepE)
  from wpD [OF getTable_run [OF assms(2)] this] show ?thesis
    by (auto simp: get_post_def split: option.splits)
next
  case (Drop_table name)
  with assms(1) show ?thesis by (auto elim!: mdb_stepE simp: dropTable_run split: option.splits)
next
  case (Change p c)
  with assms(1) have "mdb_step T d (Change p c) s s'" by simp
  from mdb_step_change [OF this] obtain r where "change_post T p d c s r s'" ..
  then show ?thesis by (auto simp: change_post_def)
next
  case (Run_thread i)
  with assms(1) obtain n where n: "(i, n) \<in> set (m_threads s)" "s' = run_thread i n s" by (auto elim: mdb_stepE)
  have "distinct (map fst (m_threads s))" using assms(2) by (simp add: mdb_ok_def)
  from arg_cong [OF mset_threads_minus [OF this n(1)], of set_mset] have "set (m_threads s) = insert (i, n) (set (m_threads s'))"
    by (simp add: n(2) run_thread_def)
  then show ?thesis using n(2) by (auto simp: run_thread_def)
qed

lemma mdb_runs_pending:
  "mdb_runs T d as ns s s' \<Longrightarrow> mdb_ok s \<Longrightarrow>
    \<exists>new. m_calls s' = m_calls s @ new \<and> set (m_threads s) \<subseteq> set (m_threads s') \<union> {x. snd x \<in> set new}"
proof (induction rule: mdb_runs.induct)
  case (more a s s1 as ns s')
  obtain n1 n2 where "m_calls s1 = m_calls s @ n1" "set (m_threads s) \<subseteq> set (m_threads s1) \<union> {x. snd x \<in> set n1}"
    "m_calls s' = m_calls s1 @ n2" "set (m_threads s1) \<subseteq> set (m_threads s') \<union> {x. snd x \<in> set n2}"
    using mdb_step_pending [OF more.hyps(1) more.prems] more.IH [OF mdb_step_ok [OF more.hyps(1) more.prems]] by blast
  then show ?case by (intro exI [of _ "n1 @ n2"]) auto
qed auto

lemma deliver_in_order:
  "mset q = mset (m_threads s) \<Longrightarrow> distinct (map fst (m_threads s)) \<Longrightarrow>
    \<exists>s'. mdb_runs T d (map (\<lambda>x. Run_thread (fst x)) q) [] s s' \<and> m_threads s' = [] \<and> m_calls s' = m_calls s @ map snd q"
proof (induction q arbitrary: s)
  case Nil
  then show ?case by (auto intro: mdb_runs.none)
next
  case (Cons x q)
  obtain i n where x: "x = (i, n)" by (cases x)
  have i: "(i, n) \<in> set (m_threads s)" using Cons.prems(1) x by (metis list.set_intros(1) mset_eq_setD)
  let ?s = "run_thread i n s"
  have "mset (x # q) = add_mset x (mset (m_threads ?s))"
    using mset_threads_minus [OF Cons.prems(2) i] Cons.prems(1) x by (simp add: run_thread_def)
  then have "mset q = mset (m_threads ?s)" by simp
  moreover have "distinct (map fst (m_threads ?s))"
    using Cons.prems(2) by (simp add: run_thread_def distinct_map_filter)
  ultimately obtain s' where s': "mdb_runs T d (map (\<lambda>x. Run_thread (fst x)) q) [] ?s s'" "m_threads s' = []"
    "m_calls s' = m_calls ?s @ map snd q" using Cons.IH by blast
  have "mdb_step T d (Run_thread i) s ?s" using i by (rule mdb_step.thread)
  from mdb_runs.more [OF this s'(1)] s'(2,3) x show ?case by (auto simp: run_thread_def)
qed

section \<open>A sample database\<close>

text \<open>A system that can always start a thread, and one that never can.\<close>

definition always :: "nat \<Rightarrow> bool" where "always i = True"
definition never :: "nat \<Rightarrow> bool" where "never i = False"

text \<open>One table \<open>users\<close> of type 1 with callback 7, made empty; a run of two updates of one row.\<close>

definition users_mdb :: "(nat, nat, int) mdb" where
  "users_mdb = snd (getTable 1 ''users'' (Some 7) empty_mdb)"

definition updated_mdb :: "(nat, nat, int) mdb" where
  "updated_mdb = snd (table_session always 0 0 [Put 5 10, Put 5 11] users_mdb)"

lemmas mdb_eval = always_def users_mdb_def updated_mdb_def empty_mdb_def getTable_def dropTable_def table_upsert_def table_erase_def
  the_table_def put_table_def dispatch_callback_async_def columns_upsert_def columns_erase_def run_simps

lemma users_mdb_eq: "users_mdb =
  \<lparr>m_tables = [''users'' \<mapsto> 0], m_objs = [0 \<mapsto> (1, \<lparr>t_record = \<lparr>c_data = Map.empty\<rparr>, t_callback = Some 7\<rparr>)],
   m_next = 1, m_threads = [], m_calls = [], m_next_task = 0\<rparr>"
  by (simp add: mdb_eval)

definition created :: "(nat, int) notice" where
  "created = \<lparr>n_fn = 7, n_key = 5, n_op = CREATE, n_before = 0, n_after = 10\<rparr>"

definition changed :: "(nat, int) notice" where
  "changed = \<lparr>n_fn = 7, n_key = 5, n_op = UPDATE, n_before = 10, n_after = 11\<rparr>"

lemma users_mdb_sel: "m_threads users_mdb = []" "m_calls users_mdb = []" "m_next_task users_mdb = 0"
  by (simp_all add: users_mdb_eq)

lemma users_mdb_ok: "mdb_ok users_mdb" "live 0 users_mdb" "callback_of 0 users_mdb = Some 7" "rows 0 users_mdb = Map.empty"
  by (simp_all add: users_mdb_eq mdb_ok_def live_def callback_of_def rows_def)

lemma updated_mdb_eq: "updated_mdb =
  \<lparr>m_tables = [''users'' \<mapsto> 0], m_objs = [0 \<mapsto> (1, \<lparr>t_record = \<lparr>c_data = [5 \<mapsto> 11]\<rparr>, t_callback = Some 7\<rparr>)],
   m_next = 1, m_threads = [(0, created), (1, changed)], m_calls = [], m_next_task = 2\<rparr>"
  unfolding updated_mdb_def users_mdb_eq by (simp add: mdb_eval created_def changed_def)

lemma updated_mdb_ok: "mdb_ok updated_mdb"
  by (simp add: updated_mdb_eq mdb_ok_def live_def)

lemma sample_run: "mdb_runs always 0 [Get_table 1 ''users'' (Some 7), Change 0 (Put 5 10), Run_thread 0] [created] empty_mdb
  (users_mdb\<lparr>m_objs := [0 \<mapsto> (1, \<lparr>t_record = \<lparr>c_data = [5 \<mapsto> 10]\<rparr>, t_callback = Some 7\<rparr>)], m_calls := [created], m_next_task := 1\<rparr>)"
proof -
  let ?s1 = "users_mdb\<lparr>m_objs := [0 \<mapsto> (1, \<lparr>t_record = \<lparr>c_data = [5 \<mapsto> 10]\<rparr>, t_callback = Some 7\<rparr>)],
    m_threads := [(0, created)], m_next_task := 1\<rparr>"
  have 1: "mdb_step always 0 (Get_table 1 ''users'' (Some 7)) empty_mdb users_mdb"
    by (rule mdb_step.get [where r = "Inr 0"]) (simp add: mdb_eval)
  have 2: "mdb_step always 0 (Change 0 (Put 5 10)) users_mdb ?s1"
    by (rule mdb_step.change [where f = "Inr (Task_future 0)"]) (simp add: users_mdb_eq mdb_eval created_def)
  have 3: "mdb_step always 0 (Run_thread 0) ?s1 (run_thread 0 created ?s1)" by (rule mdb_step.thread) simp
  have "due always 0 (Change 0 (Put 5 10)) users_mdb = [created]"
    by (simp add: users_mdb_ok reports_def created_def always_def)
  with mdb_runs.more [OF 1 mdb_runs.more [OF 2 mdb_runs.more [OF 3 mdb_runs.none]]] show ?thesis
    by (simp add: run_thread_def users_mdb_eq)
qed

section \<open>Properties\<close>

text \<open>
  C6. A table is a map with a change log. Any series of \<open>upsert\<close> and \<open>erase\<close> calls through a live
  reference goes through, each with a future or, only if the system cannot start a thread, with the
  exception of \<open>std::thread\<close>; whatever the threads do, \<open>get\<close> afterwards finds exactly what the same series of
  updates leaves in a map and leaves its output parameter alone otherwise. A table made without a callback
  starts no thread. With a callback there is one report for every change, in order: CREATE with the default
  value before it, UPDATE with the replaced row, DELETE with the deleted row, and none for deleting what is not
  there; a thread was started for just those reports for which the system could start one.
\<close>

theorem table_is_a_logged_map:
  fixes s :: "('ty, 'k, 'v) mdb"
  assumes "live p s" and "m = fold apply_change cs (rows p s)"
  shows "\<exists>fs s'. table_session T d p cs s = (Ret fs, s') \<and> length fs = length cs \<and>
    ((\<forall>i. T i) \<longrightarrow> Inl System_error \<notin> set fs) \<and>
    (\<forall>k out. table_get p k out s' = (Ret (case m k of None \<Rightarrow> (False, out) | Some v \<Rightarrow> (True, v)), s')) \<and>
    m_threads s' = m_threads s @
      (case callback_of p s of None \<Rightarrow> []
       | Some f \<Rightarrow> filter (\<lambda>x. T (fst x)) (List.enumerate (m_next_task s) (change_log f d (rows p s) cs))) \<and>
    m_calls s' = m_calls s"
proof -
  obtain fs s' where s': "table_session T d p cs s = (Ret fs, s')" "length fs = length cs"
    "(\<forall>i. T i) \<longrightarrow> Inl System_error \<notin> set fs"
    "s' = fold (\<lambda>c s. snd (table_change T d p c s)) cs s" "m_calls s' = m_calls s"
    "m_threads s' = m_threads s @ started T (m_next_task s) (session_log p d cs s)"
    using table_session_run [OF assms(1)] by blast
  moreover have "live p s'" "rows p s' = m"
    unfolding s'(4) assms(2) using assms(1) by (rule table.changes_good, rule table.changes_contents)
  ultimately show ?thesis
    by (auto simp: table_get_run session_log_def started_def split: option.split)
qed

theorem table_is_a_logged_map_witness:
  "(\<exists>fs s'. table_session always 0 0 [Put 5 10, Put 5 11, Del 6] users_mdb = (Ret fs, s') \<and> table_get 0 5 0 s' = (Ret (True, 11), s') \<and>
      m_threads s' = [(0, created), (1, changed)]) \<and>
   (\<exists>fs s'. table_session never 0 0 [Put 5 10, Put 5 11, Del 6] users_mdb = (Ret fs, s') \<and> table_get 0 5 0 s' = (Ret (True, 11), s') \<and>
      m_threads s' = [])"
  using table_is_a_logged_map [OF users_mdb_ok(2) refl, of always 0 "[Put 5 10, Put 5 11, Del 6]"]
    table_is_a_logged_map [OF users_mdb_ok(2) refl, of never 0 "[Put 5 10, Put 5 11, Del 6]"]
  by (auto simp: users_mdb_ok users_mdb_sel created_def changed_def always_def never_def)

text \<open>
  C15. Every change is reported exactly once. Whatever tables are made, dropped and changed and
  however the started threads run in between, the database stays consistent, and the
  callback calls made together with those still to be made by a started thread are exactly
  the changes for which the system could start a thread (all of them if it always can), each as
  often as it happened, also those of tables dropped meanwhile.
\<close>

theorem changes_reported_once:
  assumes "mdb_runs T d as ns empty_mdb s"
  shows "mdb_ok s \<and> mset (m_calls s) + mset (map snd (m_threads s)) = mset ns"
  using mdb_runs_said [OF assms mdb_ok_empty] by (simp add: said_def empty_mdb_def)

theorem changes_reported_once_witness:
  "mset (m_calls (users_mdb\<lparr>m_objs := [0 \<mapsto> (1, \<lparr>t_record = \<lparr>c_data = [5 \<mapsto> 10]\<rparr>, t_callback = Some 7\<rparr>)],
     m_calls := [created], m_next_task := 1\<rparr>)) = {#created#}"
  using changes_reported_once [OF sample_run] by (simp add: users_mdb_eq)

text \<open>
  C19. A change that throws has happened: where the system cannot start a thread, \<open>upsert\<close> and \<open>erase\<close> through a
  reference to a table with a callback throw \<open>std::system_error\<close> after the row was changed (if it had anything to
  report), no thread was started and no callback is or will be called for it.
\<close>

theorem change_without_thread:
  assumes "live p s" and "reports p d c s \<noteq> []" and "\<not> T (m_next_task s)"
  shows "\<exists>s'. table_change T d p c s = (Ret (Inl System_error), s') \<and> rows p s' = apply_change c (rows p s) \<and>
    m_threads s' = m_threads s \<and> m_calls s' = m_calls s"
proof -
  obtain r s' where run: "table_change T d p c s = (r, s')" by fastforce
  obtain n where "reports p d c s = [n]" using reports_cases [of p d c s] assms(2) by auto
  then show ?thesis using wpD [OF table_change_run [OF assms(1)] run] assms(2,3) run by (auto simp: change_post_def)
qed

theorem change_without_thread_witness:
  "\<exists>s'. table_change never 0 0 (Put 5 10) users_mdb = (Ret (Inl System_error), s') \<and> rows 0 s' 5 = Some 10 \<and> m_calls s' = []"
proof -
  have "reports 0 0 (Put 5 10) users_mdb \<noteq> []" "\<not> never (m_next_task users_mdb)"
    by (simp_all add: reports_def users_mdb_ok never_def)
  from change_without_thread [where T = never, OF users_mdb_ok(2) this] show ?thesis
    by (auto simp: users_mdb_ok users_mdb_sel simp del: table_change.simps)
qed

text \<open>
  Nothing orders the reports: the detached threads started so far can make their callback
  calls in any order at all, so two changes of one row may be reported backwards; and all of
  them can be brought to their end.
\<close>

theorem reports_in_any_order:
  assumes "mdb_ok s" and "mset q = mset (m_threads s)"
  shows "\<exists>s'. mdb_runs T d (map (\<lambda>x. Run_thread (fst x)) q) [] s s' \<and> m_threads s' = [] \<and>
    m_calls s' = m_calls s @ map snd q"
  using assms by (intro deliver_in_order) (simp_all add: mdb_ok_def)

theorem reports_in_any_order_witness:
  "\<exists>s'. mdb_runs always 0 [Run_thread 1, Run_thread 0] [] updated_mdb s' \<and> m_calls s' = [changed, created]"
proof -
  have "mset [(1, changed), (0, created)] = mset (m_threads updated_mdb)" by (simp add: updated_mdb_eq)
  from reports_in_any_order [OF updated_mdb_ok this, of always 0] show ?thesis by (auto simp: updated_mdb_eq)
qed

text \<open>
  C96. A future tells the truth: when the future of a change is ready in some later state,
  whatever happened meanwhile, the callback has been called for this change (unless there
  was nothing to report).
\<close>

primrec ready :: "future \<Rightarrow> ('ty, 'k, 'v) mdb \<Rightarrow> bool" where
  "ready Set_future s = True"
| "ready (Task_future i) s = (i \<notin> fst ` set (m_threads s))"

theorem ready_future_was_called:
  assumes "mdb_ok s" and "table_change T d p c s = (Ret (Inr fut), s1)" and "mdb_runs T d as ns s1 s2" and "ready fut s2"
  shows "\<exists>new. m_calls s2 = m_calls s @ new \<and> set (reports p d c s) \<subseteq> set new"
proof -
  have step: "mdb_step T d (Change p c) s s1" using assms(2) by (rule mdb_step.change)
  have "live p s" using assms(2) table_change_dead [of p s T d c] by force
  from wpD [OF table_change_run [OF this] assms(2)] have post: "change_post T p d c s (Ret (Inr fut)) s1" .
  from mdb_runs_pending [OF assms(3) mdb_step_ok [OF step assms(1)]] obtain new where
    new: "m_calls s2 = m_calls s1 @ new" "set (m_threads s1) \<subseteq> set (m_threads s2) \<union> {x. snd x \<in> set new}" by blast
  have "n \<in> set new" if "n \<in> set (reports p d c s)" for n
  proof -
    from that obtain r where r: "reports p d c s = [r]" using reports_cases [of p d c s] by auto
    then have "fut = Task_future (m_next_task s)" "(m_next_task s, n) \<in> set (m_threads s1)"
      using post that by (auto simp: change_post_def split: if_splits)
    with new(2) assms(4) show ?thesis by force
  qed
  then show ?thesis using new(1) post by (auto simp: change_post_def)
qed

theorem ready_future_was_called_witness:
  "\<exists>s1 s2. table_change always 0 0 (Put 5 10) users_mdb = (Ret (Inr (Task_future 0)), s1) \<and>
     mdb_runs always 0 [Run_thread 0] [] s1 s2 \<and> created \<in> set (m_calls s2)"
proof -
  let ?s1 = "users_mdb\<lparr>m_objs := [0 \<mapsto> (1, \<lparr>t_record = \<lparr>c_data = [5 \<mapsto> 10]\<rparr>, t_callback = Some 7\<rparr>)],
    m_threads := [(0, created)], m_next_task := 1\<rparr>"
  have c: "table_change always 0 0 (Put 5 10) users_mdb = (Ret (Inr (Task_future 0)), ?s1)"
    by (simp add: users_mdb_eq mdb_eval created_def)
  have "mdb_step always 0 (Run_thread 0) ?s1 (run_thread 0 created ?s1)" by (rule mdb_step.thread) simp
  from mdb_runs.more [OF this mdb_runs.none] have r: "mdb_runs always 0 [Run_thread 0] [] ?s1 (run_thread 0 created ?s1)" by simp
  have "ready (Task_future 0) (run_thread 0 created ?s1)" by (simp add: run_thread_def)
  from ready_future_was_called [OF users_mdb_ok(1) c r this] have "created \<in> set (m_calls (run_thread 0 created ?s1))"
    by (auto simp: reports_def users_mdb_ok created_def)
  with c r show ?thesis by blast
qed

text \<open>
  \<open>getTable\<close> finds or makes a table by its name: an unknown name gets a new empty table with
  the given callback, other tables are untouched, and a second call with the name gives the
  same table, keeps the first callback whatever is passed, and throws, changing nothing,
  when the row type is another one.
\<close>

theorem table_by_name:
  fixes s :: "('ty, 'k, 'v) mdb"
  assumes "mdb_ok s" and "m_tables s name = None"
  shows "\<exists>p s'. getTable ty name cb s = (Ret (Inr p), s') \<and> \<not> live p s \<and> live p s' \<and> rows p s' = Map.empty \<and>
    callback_of p s' = cb \<and> (\<forall>q. live q s \<longrightarrow> m_objs s' q = m_objs s q) \<and>
    hasTable name s' = (Ret True, s') \<and> getTable ty name cb' s' = (Ret (Inr p), s') \<and>
    (\<forall>ty'. ty' \<noteq> ty \<longrightarrow> getTable ty' name cb' s' =
       (Ret (Inl ''Table with same name exists but with different RecordType''), s'))"
proof -
  have "\<not> live (m_next s) s" using assms(1) unfolding mdb_ok_def by (metis less_irrefl)
  then show ?thesis using assms(2)
    by (auto simp: getTable_def hasTable_def run_simps live_def rows_def callback_of_def)
qed

theorem table_by_name_witness:
  "\<exists>p s'. getTable 2 ''prices'' None users_mdb = (Ret (Inr p), s') \<and> hasTable ''prices'' s' = (Ret True, s') \<and>
     m_objs s' 0 = m_objs users_mdb 0"
proof -
  have "m_tables users_mdb ''prices'' = None" by (simp add: users_mdb_eq)
  from table_by_name [OF users_mdb_ok(1) this, of 2 None None] users_mdb_ok(2) show ?thesis by blast
qed

text \<open>
  C36. A dropped table is gone, its references are not: \<open>dropTable\<close> removes the name and destroys
  the table, a second one reports that there is nothing to drop, the reports that were on
  their way still come, and any use of a reference that \<open>getTable\<close> gave out before is an access
  to a destroyed object.
\<close>

theorem dropped_table_dangles:
  fixes s :: "('ty, 'k, 'v) mdb"
  assumes "m_tables s name = Some p"
  shows "\<exists>s'. dropTable name s = (Ret True, s') \<and> hasTable name s' = (Ret False, s') \<and>
    dropTable name s' = (Ret False, s') \<and> m_threads s' = m_threads s \<and>
    (\<forall>c. table_change T d p c s' = (Fault Dangling, s')) \<and> (\<forall>k out. table_get p k out s' = (Fault Dangling, s'))"
proof -
  let ?s = "s\<lparr>m_tables := (m_tables s)(name := None), m_objs := (m_objs s)(p := None)\<rparr>"
  have "\<not> live p ?s" by (simp add: live_def)
  from table_change_dead [OF this] show ?thesis
    by (intro exI [of _ ?s]) (simp add: dropTable_run assms hasTable_def table_get_def the_table_def run_simps)
qed

theorem dropped_table_dangles_witness:
  "\<exists>s'. dropTable ''users'' updated_mdb = (Ret True, s') \<and> m_threads s' = [(0, created), (1, changed)] \<and>
     table_change always 0 0 (Put 5 12) s' = (Fault Dangling, s')"
proof -
  have "m_tables updated_mdb ''users'' = Some 0" by (simp add: updated_mdb_eq)
  then obtain s' where "dropTable ''users'' updated_mdb = (Ret True, s')" "m_threads s' = m_threads updated_mdb"
    "table_change always 0 0 (Put 5 12) s' = (Fault Dangling, s')" using dropped_table_dangles [of updated_mdb "''users''" 0 always 0] by blast
  then show ?thesis by (intro exI [of _ s']) (simp add: updated_mdb_eq del: table_change.simps)
qed

end
