(* ===== verification/Getopt.thy ===== *)
theory Getopt
  imports Clib
begin

text \<open>
  \<open>getopt\<close> of the C library as the two programs use it: every option takes an argument. It is
  modelled as the list of its results for a whole command line, in the order in which
  successive calls return them; a caller that stops early uses a prefix. An argument is
  attached to its option (\<open>-p9999\<close>) or the next word; \<open>--\<close> ends the options; words that are not
  options are skipped; an unknown option and a missing argument give \<open>?\<close>.
\<close>

text \<open>\<open>optarg\<close> points into the word with this number, at this offset; the text is what follows.\<close>

record optarg =
  oa_word :: nat
  oa_offset :: nat
  oa_text :: "char list"

datatype getopt_result = Opt char optarg | Opt_error

fun getopt_results :: "char list \<Rightarrow> nat \<Rightarrow> char list list \<Rightarrow> getopt_result list" where
  "getopt_results opts k [] = []"
| "getopt_results opts k (a # as) =
     (if length a < 2 \<or> hd a \<noteq> CHR ''-'' then getopt_results opts (Suc k) as
      else if a = ''--'' then []
      else if a ! 1 \<notin> set opts then [Opt_error]
      else if drop 2 a \<noteq> [] then
        Opt (a ! 1) \<lparr>oa_word = k, oa_offset = 2, oa_text = drop 2 a\<rparr> # getopt_results opts (Suc k) as
      else
        (case as of
           [] \<Rightarrow> [Opt_error]
         | v # as' \<Rightarrow> Opt (a ! 1) \<lparr>oa_word = Suc k, oa_offset = 0, oa_text = v\<rparr> # getopt_results opts (Suc (Suc k)) as'))"

declare getopt_results.simps [simp del]

text \<open>The last argument of an option, if the command line is accepted.\<close>

fun last_opt :: "char \<Rightarrow> getopt_result list \<Rightarrow> optarg option" where
  "last_opt c [] = None"
| "last_opt c (Opt d v # rs) =
     (case last_opt c rs of Some u \<Rightarrow> Some u | None \<Rightarrow> if d = c then Some v else None)"
| "last_opt c (Opt_error # rs) = last_opt c rs"

lemma getopt_results_opts: "Opt c v \<in> set (getopt_results opts k as) \<Longrightarrow> c \<in> set opts"
  by (induction opts k as rule: getopt_results.induct)
    (auto simp: getopt_results.simps split: if_splits list.splits)

end
