(* ===== verification/Quekka_Server.thy ===== *)
theory Quekka_Server
  imports Libepoll Libsocket Getopt
begin

text \<open>
  The server program that is built (\<^verbatim>\<open>src/server/quekka.c\<close>): options, the logger, a listening
  socket, an epoll handler with one registered connection object and the loop around
  \<open>epoll_handler_wait\<close>, whose callback is still empty. The program's static variables and the
  logger's world extend the state of the components it calls.
\<close>

section \<open>State\<close>

record srv = mem +
  g_ip :: ptr
  g_port :: int
  g_server_fd :: int
  g_handler :: ptr
  g_log :: log_world

definition EXIT_FAILURE :: int where "EXIT_FAILURE = 1"
definition SIZEOF_CONNECTION :: nat where "SIZEOF_CONNECTION = 8"

text \<open>A logger operation inside a program.\<close>

definition on_log :: "'a logging \<Rightarrow> ('z srv_scheme, 'a) prog" where
  "on_log m s = (case m (g_log s) of (r, w) \<Rightarrow> (r, s\<lparr>g_log := w\<rparr>))"

lemma on_log_run [run_simps]: "m (g_log s) = (r, w) \<Longrightarrow> on_log m s = (r, s\<lparr>g_log := w\<rparr>)"
  by (simp add: on_log_def)

section \<open>Options\<close>

text \<open>\<open>word k\<close> is the address of \<open>argv[k]\<close>; \<open>optarg\<close> points into it.\<close>

definition optarg_ptr :: "(nat \<Rightarrow> ptr) \<Rightarrow> optarg \<Rightarrow> ptr" where
  "optarg_ptr word a = word (oa_word a) + oa_offset a"

primrec option_loop :: "(nat \<Rightarrow> ptr) \<Rightarrow> getopt_result list \<Rightarrow> ('z srv_scheme, int) prog" where
  "option_loop word [] = return_c 0"
| "option_loop word (r # rs) =
     (case r of
        Opt c a \<Rightarrow>
          if c = CHR ''i'' then then_c (modify_c (\<lambda>s. s\<lparr>g_ip := optarg_ptr word a\<rparr>)) (option_loop word rs)
          else if c = CHR ''p'' then then_c (modify_c (\<lambda>s. s\<lparr>g_port := c_atoi (oa_text a)\<rparr>)) (option_loop word rs)
          else return_c (-1)
      | Opt_error \<Rightarrow> return_c (-1))"

definition server_processArgs :: "(nat \<Rightarrow> ptr) \<Rightarrow> char list list \<Rightarrow> ('z srv_scheme, int) prog" where
  "server_processArgs word argv = option_loop word (getopt_results ''ip'' 1 (drop 1 argv))"

section \<open>The program\<close>

definition server_callback_fn :: "'s event_callback" where
  "server_callback_fn p events user_data = return_c ()"

text \<open>\<open>while (epoll_handler_wait(gHandler, -1, callback_fn, NULL) != -1)\<close>.\<close>

primrec server_loop :: "kernel \<Rightarrow> nat \<Rightarrow> ('z srv_scheme, unit) prog" where
  "server_loop K 0 = fuel_c"
| "server_loop K (Suc n) =
     bind_c (get_c g_handler) (\<lambda>h.
     bind_c (epoll_handler_wait K h (-1) (Some server_callback_fn) 0) (\<lambda>r.
     if r \<noteq> -1 then server_loop K n else return_c ()))"

definition server_fatal_text :: "char list" where
  "server_fatal_text = ''epoll_handler_wait fatal - '' @ [CHR 0xEC, CHR 0x84, CHR 0x9C, CHR 0xEB, CHR 0xB2, CHR 0x84] @ '' '' @ [CHR 0xEC, CHR 0xA2, CHR 0x85, CHR 0xEB, CHR 0xA3, CHR 0x8C]"

definition server_main ::
    "kernel \<Rightarrow> (char list \<Rightarrow> bool) \<Rightarrow> (nat \<Rightarrow> ptr) \<Rightarrow> nat \<Rightarrow> char list list \<Rightarrow> ('z srv_scheme, int) prog" where
  "server_main K can_open word n argv =
     bind_c (server_processArgs word argv) (\<lambda>r.
     if r = -1 then return_c EXIT_FAILURE else
     then_c (on_log (logger_init can_open (Some (''quekka.log'' @ [NUL])) LOG_INFO))
     (then_c (log_call LOG_INFO ''########## quekka server start ##########'' [])
     (bind_c (socket_init K) (\<lambda>server_fd.
     if server_fd < 0 then return_c EXIT_FAILURE else
     then_c (socket_setsockopt_reuseaddr K server_fd)
     (bind_c (get_c g_ip) (\<lambda>ip.
     then_c (socket_bind_address K (ptr_as_int ip) server_fd)
     (then_c (socket_listen K server_fd)
     (then_c (modify_c (\<lambda>s. s\<lparr>g_server_fd := server_fd\<rparr>))
     (bind_c (epoll_handler_create K) (\<lambda>h.
     then_c (modify_c (\<lambda>s. s\<lparr>g_handler := h\<rparr>))
     (if h = 0 then
        then_c (log_call LOG_ERROR ''epoll_handler_create failed'' []) (return_c EXIT_FAILURE)
      else
      bind_c (alloc_c K SIZEOF_CONNECTION (Conn \<lparr>cn_fd = server_fd, cn_phase = READING_LENTH\<rparr>)) (\<lambda>listener.
      if listener = 0 then
        then_c (log_call LOG_ERROR ''listener allocation failed'' []) (return_c EXIT_FAILURE)
      else
      bind_c (epoll_handler_add K h server_fd listener EPOLLIN) (\<lambda>r.
      if r = -1 then
        then_c (log_call LOG_ERROR ''epoll_handler_add failed'' []) (return_c EXIT_FAILURE)
      else
      then_c (server_loop K n)
      (then_c (log_call LOG_ERROR server_fatal_text [])
        (return_c EXIT_FAILURE)))))))))))))))"

section \<open>What the options do\<close>

definition accepted :: "getopt_result list \<Rightarrow> bool" where
  "accepted rs \<longleftrightarrow> Opt_error \<notin> set rs"

definition set_options :: "(nat \<Rightarrow> ptr) \<Rightarrow> getopt_result list \<Rightarrow> 'z srv_scheme \<Rightarrow> 'z srv_scheme" where
  "set_options word rs s =
     s\<lparr>g_ip := (case last_opt (CHR ''i'') rs of None \<Rightarrow> g_ip s | Some a \<Rightarrow> optarg_ptr word a),
       g_port := (case last_opt (CHR ''p'') rs of None \<Rightarrow> g_port s | Some a \<Rightarrow> c_atoi (oa_text a))\<rparr>"

lemma option_loop_run:
  assumes "\<forall>c a. Opt c a \<in> set rs \<longrightarrow> c = CHR ''i'' \<or> c = CHR ''p''" and "accepted rs"
  shows "option_loop word rs s = (Ret 0, set_options word rs s)"
  using assms
proof (induction rs arbitrary: s)
  case Nil
  then show ?case by (simp add: run_simps set_options_def)
next
  case (Cons r rs)
  obtain c a where r: "r = Opt c a" using Cons.prems(2) by (cases r) (auto simp: accepted_def)
  then have "c = CHR ''i'' \<or> c = CHR ''p''" using Cons.prems(1) by auto
  moreover have "accepted rs" using Cons.prems(2) by (simp add: accepted_def)
  ultimately show ?case
    using Cons.IH Cons.prems(1) r by (auto simp: run_simps set_options_def split: option.split)
qed

lemma option_loop_rejects:
  "\<not> accepted rs \<Longrightarrow> \<exists>s'. option_loop word rs s = (Ret (-1), s') \<and> trace s' = trace s \<and> g_log s' = g_log s \<and> heap s' = heap s"
proof (induction rs arbitrary: s)
  case (Cons r rs)
  show ?case
  proof (cases r)
    case (Opt c a)
    then have "\<not> accepted rs" using Cons.prems by (simp add: accepted_def)
    from Cons.IH [OF this, of "s\<lparr>g_ip := optarg_ptr word a\<rparr>"] Cons.IH [OF this, of "s\<lparr>g_port := c_atoi (oa_text a)\<rparr>"]
    show ?thesis using Opt by (auto simp: run_simps)
  qed (simp add: run_simps)
qed (simp add: accepted_def)

lemma processArgs_run:
  assumes "rs = getopt_results ''ip'' 1 (drop 1 argv)"
  shows "accepted rs \<Longrightarrow> server_processArgs word argv s = (Ret 0, set_options word rs s)"
    and "\<not> accepted rs \<Longrightarrow> \<exists>s'. server_processArgs word argv s = (Ret (-1), s') \<and> trace s' = trace s \<and> g_log s' = g_log s \<and> heap s' = heap s"
  using getopt_results_opts [of _ _ "''ip''" 1 "drop 1 argv"] unfolding assms server_processArgs_def
  by (auto intro: option_loop_run option_loop_rejects)

section \<open>The loop\<close>

text \<open>
  What the server does not do: no call that takes a connection or moves data. And \<open>port\<close> is
  the only port it binds.
\<close>

fun server_event :: "16 word \<Rightarrow> event \<Rightarrow> bool" where
  "server_event port (Call c r) =
     (case c of Bind fd a \<Rightarrow> sin_port a = port | Accept l \<Rightarrow> False | Recv fd n f \<Rightarrow> False | Read fd n \<Rightarrow> False
      | Send fd b f \<Rightarrow> False | Write fd b \<Rightarrow> False | _ \<Rightarrow> True)"
| "server_event port ev = True"

fun waits :: "event list \<Rightarrow> nat" where
  "waits [] = 0"
| "waits (Call (Epoll_wait ep n t) r # tr) = Suc (waits tr)"
| "waits (ev # tr) = waits tr"

lemma waits_append [simp]: "waits (tr @ tr') = waits tr + waits tr'"
  by (induction tr rule: waits.induct) auto

text \<open>From the call number \<open>N\<close> on, \<open>epoll_wait\<close> fails (a signal arrived, say).\<close>

definition wait_fails_from :: "nat \<Rightarrow> kernel \<Rightarrow> bool" where
  "wait_fails_from N K \<longleftrightarrow> (\<forall>tr ep n t. N \<le> waits tr \<longrightarrow> ready_of (K tr (Epoll_wait ep n t)) = None)"

lemma skip_returns: "skip_all (map (\<lambda>x. return_c ()) xs) s = (Ret (), s)"
  by (induction xs) (simp_all add: run_simps)

lemma dispatch_noop:
  assumes "h \<noteq> 0" and "heap s h = Some (Handler v)" and "\<forall>i \<in> set js. i < length (eh_events v)"
  shows "dispatch h server_callback_fn 0 js s = (Ret (), s)"
proof -
  have "\<forall>p ev. spares h (server_callback_fn p ev 0)" by (simp add: spares_def server_callback_fn_def run_simps)
  from dispatch_run [where cb = server_callback_fn and s = s, OF this assms] show ?thesis
    by (simp add: server_callback_fn_def case_prod_beta skip_returns)
qed

lemma ready_of_Some: "ready_of r = Some evs \<longleftrightarrow> r = Ready evs"
  by (cases r) auto

lemma server_wait_run:
  fixes s :: "'z srv_scheme"
  assumes "handler_on h ep s" and "poll_fits K" and "q = K (trace s) (Epoll_wait ep 64 (-1))"
  shows "\<exists>s1. trace s1 = trace s @ Call (Epoll_wait ep 64 (-1)) q # (if ready_of q = None then [Perror ''epoll_wait'' (errno s1)] else []) \<and>
    handler_on h ep s1 \<and> g_handler s1 = g_handler s \<and>
    epoll_handler_wait K h (-1) (Some server_callback_fn) 0 s =
      (Ret (case ready_of q of None \<Rightarrow> -1 | Some evs \<Rightarrow> int (length evs)), s1)"
proof -
  obtain v where v: "h \<noteq> 0" "heap s h = Some (Handler v)" "eh_epoll_fd v = ep" "length (eh_events v) = 64"
    using assms(1) by (auto simp: handler_on_def EPOLL_MAX_EVENTS_def)
  show ?thesis
  proof (cases "ready_of q")
    case None
    then show ?thesis using v assms(3) by (auto simp: epoll_handler_wait_def run_simps EPOLL_MAX_EVENTS_def handler_on_def)
  next
    case (Some evs)
    define w where "w = v\<lparr>eh_events := evs @ drop (length evs) (eh_events v)\<rparr>"
    define s1 where "s1 = (after (Epoll_wait ep 64 (-1)) q s)\<lparr>heap := (heap s)(h \<mapsto> Handler w)\<rparr>"
    have n: "length evs \<le> 64" using assms(2,3) Some by (auto simp: poll_fits_def ready_of_Some)
    have "dispatch h server_callback_fn 0 [0..<length evs] s1 = (Ret (), s1)"
      using v n by (intro dispatch_noop) (auto simp: s1_def w_def)
    then have "epoll_handler_wait K h (-1) (Some server_callback_fn) 0 s = (Ret (int (length evs)), s1)"
      using v n Some assms(3) by (simp add: epoll_handler_wait_def run_simps EPOLL_MAX_EVENTS_def s1_def w_def)
    then show ?thesis using v n Some by (auto simp: s1_def w_def handler_on_def EPOLL_MAX_EVENTS_def)
  qed
qed

lemma server_loop_wp:
  assumes "handler_on h ep s" and "g_handler s = h" and "poll_fits K"
  shows "wp (server_loop K n) (\<lambda>r s'. (r = Ret () \<or> r = Out_of_fuel) \<and> extends (server_event port) (trace s) (trace s') \<and>
    (wait_fails_from N K \<and> 0 < n \<and> N < n + waits (trace s) \<longrightarrow> r = Ret ())) s"
  using assms(1,2)
proof (induction n arbitrary: s)
  case 0
  then show ?case by (simp add: wp_def run_simps)
next
  case (Suc n)
  let ?q = "K (trace s) (Epoll_wait ep 64 (-1))"
  obtain s1 where s1: "trace s1 = trace s @ Call (Epoll_wait ep 64 (-1)) ?q # (if ready_of ?q = None then [Perror ''epoll_wait'' (errno s1)] else [])"
    "handler_on h ep s1" "g_handler s1 = h"
    "epoll_handler_wait K h (-1) (Some server_callback_fn) 0 s = (Ret (case ready_of ?q of None \<Rightarrow> -1 | Some evs \<Rightarrow> int (length evs)), s1)"
    using server_wait_run [OF Suc.prems(1) assms(3) refl] Suc.prems(2) by auto
  show ?case
  proof (cases "ready_of ?q")
    case None
    then show ?thesis using s1 Suc.prems(2) by (auto simp: wp_def run_simps extends_def)
  next
    case (Some evs)
    then have step: "server_loop K (Suc n) s = server_loop K n s1" using s1(4) Suc.prems(2) by (simp add: run_simps)
    let ?m = "server_loop K n s1"
    have w: "wait_fails_from N K \<Longrightarrow> waits (trace s) < N"
      using Some by (metis linorder_not_less option.distinct(1) wait_fails_from_def)
    from Suc.IH [OF s1(2,3)] have IH: "fst ?m = Ret () \<or> fst ?m = Out_of_fuel" "extends (server_event port) (trace s1) (trace (snd ?m))"
      "wait_fails_from N K \<and> 0 < n \<and> N < n + waits (trace s1) \<longrightarrow> fst ?m = Ret ()" by (simp_all add: wp_def)
    have "extends (server_event port) (trace s) (trace s1)" using s1(1) Some by simp
    from extends_trans [OF this IH(2)] have "extends (server_event port) (trace s) (trace (snd ?m))" .
    moreover have "waits (trace s1) = Suc (waits (trace s))" using s1(1) Some by simp
    then have "wait_fails_from N K \<and> N < Suc n + waits (trace s) \<longrightarrow> fst ?m = Ret ()" using IH(3) w by fastforce
    ultimately show ?thesis using IH(1) by (simp add: wp_def step del: server_loop.simps)
  qed
qed

section \<open>The whole program\<close>

lemma extends_prefix: "extends P (tr @ new) tr' \<Longrightarrow> list_all P new \<Longrightarrow> extends P tr tr'"
  by (auto simp: extends_def)

lemma server_loop_bind:
  assumes "handler_on h ep s" and "g_handler s = h" and "poll_fits K"
    and "\<And>s'. extends (server_event port) (trace s) (trace s') \<Longrightarrow> wp (f ()) Q s'"
    and "\<And>s'. extends (server_event port) (trace s) (trace s') \<Longrightarrow> \<not> (wait_fails_from N K \<and> 0 < n \<and> N < n) \<Longrightarrow> Q Out_of_fuel s'"
  shows "wp (bind_c (server_loop K n) f) Q s"
  by (rule wp_bind [OF server_loop_wp [OF assms(1-3), of n port N]]) (use assms(4,5) in auto)

definition server_post :: "16 word \<Rightarrow> nat \<Rightarrow> kernel \<Rightarrow> nat \<Rightarrow> event list \<Rightarrow> int outcome \<Rightarrow> 'z srv_scheme \<Rightarrow> bool" where
  "server_post port N K n tr r s' \<longleftrightarrow>
     (r = Ret 1 \<or> r = Exit 1 \<or> r = Out_of_fuel \<and> \<not> (wait_fails_from N K \<and> N < n)) \<and>
     extends (server_event port) tr (trace s')"

definition served_port :: "(nat \<Rightarrow> ptr) \<Rightarrow> getopt_result list \<Rightarrow> 16 word" where
  "served_port word rs = (case last_opt (CHR ''i'') rs of None \<Rightarrow> 0 | Some a \<Rightarrow> htons (word_of_nat (optarg_ptr word a)))"

lemma port_of_pointer: "(word_of_int (ptr_as_int p) :: 16 word) = word_of_nat p"
  unfolding ptr_as_int_def by transfer (simp add: take_bit_signed_take_bit)

lemma htons_zero: "htons 0 = 0"
  by (simp add: htons_def)

text \<open>The calls before the loop: what they leave alone.\<close>

definition calm :: "16 word \<Rightarrow> 'z srv_scheme \<Rightarrow> 'z srv_scheme \<Rightarrow> bool" where
  "calm port s s' \<longleftrightarrow> extends (server_event port) (trace s) (trace s') \<and> heap s' = heap s \<and> g_ip s' = g_ip s"

definition calmly :: "16 word \<Rightarrow> ('z srv_scheme, 'a) prog \<Rightarrow> 'z srv_scheme \<Rightarrow> bool" where
  "calmly port m s \<longleftrightarrow> wp m (\<lambda>r s'. ((\<exists>x. r = Ret x) \<or> r = Exit 1) \<and> calm port s s') s"

lemma calm_sockets:
  fixes s :: "'z srv_scheme"
  shows "calmly port (socket_init K) s" "calmly port (socket_setsockopt_reuseaddr K fd) s"
    "htons (word_of_int p) = port \<Longrightarrow> calmly port (socket_bind_address K p fd) s"
    "calmly port (socket_listen K fd) s"
  unfolding calmly_def socket_defs Let_def flat_simps by (intro wp_intros; simp add: calm_def)+

lemma calm_bind:
  assumes "calmly port m s" and "calm port s0 s" and "\<And>x s'. calm port s0 s' \<Longrightarrow> wp (f x) Q s'"
    and "\<And>s'. calm port s0 s' \<Longrightarrow> Q (Exit 1) s'"
  shows "wp (bind_c m f) Q s"
proof -
  have "calm port s0 s'" if "calm port s s'" for s'
    using assms(2) that by (auto simp: calm_def intro: extends_trans)
  then show ?thesis by (intro wp_bind [OF assms(1) [unfolded calmly_def]]) (use assms(3,4) in auto)
qed

lemma server_polls_wp:
  fixes s :: "'z srv_scheme"
  shows "wp (epoll_handler_create K) (\<lambda>r s'. extends (server_event port) (trace s) (trace s') \<and>
    (r = Ret 0 \<or> (\<exists>h ep. r = Ret h \<and> handler_on h ep s' \<and> h \<in> allocated (trace s')))) s"
  unfolding epoll_handler_create_def flat_simps
  by (intro wp_intros) (auto simp: handler_on_def)

lemma server_serves_wp:
  fixes s :: "'z srv_scheme"
  assumes "\<exists>ep. handler_on h ep s" and "g_handler s = h" and "h \<in> allocated (trace s)" and "malloc_fresh K" and "poll_fits K"
    and "extends (server_event port) tr (trace s)"
  shows "wp (bind_c (alloc_c K SIZEOF_CONNECTION v) (\<lambda>listener.
      if listener = 0 then bind_c (log_call LOG_ERROR t1 []) (\<lambda>_. return_c EXIT_FAILURE)
      else bind_c (epoll_handler_add K h fd listener EPOLLIN) (\<lambda>r.
        if r = -1 then bind_c (log_call LOG_ERROR t2 []) (\<lambda>_. return_c EXIT_FAILURE)
        else bind_c (server_loop K n) (\<lambda>_. bind_c (log_call LOG_ERROR t3 []) (\<lambda>_. return_c EXIT_FAILURE)))))
    (server_post port N K n tr) s"
proof -
  have fresh: "ptr_of (K (trace s) (Malloc SIZEOF_CONNECTION)) \<noteq> h" using assms(3,4) by (auto simp: malloc_fresh_def)
  have ext: "extends (server_event port) tr tr'" if "extends (server_event port) (trace s @ new) tr'" "list_all (server_event port) new" for new tr'
    using extends_trans [OF assms(6)] extends_prefix [OF that] .
  have post: "server_post port N K n tr (Ret 1) s'" if "trace s' = trace s @ new" "list_all (server_event port) new" for s' :: "'z srv_scheme" and new
    using that assms(6) by (simp add: server_post_def extends_more)
  obtain ep where ep: "handler_on h ep s" using assms(1) by blast
  then have h: "h \<noteq> 0" "\<exists>v. heap s h = Some (Handler v) \<and> eh_epoll_fd v = ep \<and> length (eh_events v) = EPOLL_MAX_EVENTS"
    by (auto simp: handler_on_def)
  show ?thesis
    unfolding epoll_handler_add_def flat_simps
    by (intro server_loop_bind [OF _ _ assms(5)] wp_intros)
      (use fresh fresh [symmetric] h ep assms(2,6) in \<open>auto simp: handler_on_def EXIT_FAILURE_def server_post_def extends_more dest: ext\<close>)
qed

lemma server_main_wp:
  fixes s :: "'z srv_scheme"
  assumes "malloc_fresh K" and "poll_fits K" and "\<not> log_mutex (g_log s)" and "length (lg_filename (g_logger (g_log s))) = 256"
    and "g_ip s = 0" and "rs = getopt_results ''ip'' 1 (drop 1 argv)"
  shows "wp (server_main K can_open word n argv) (server_post (served_port word rs) N K n (trace s)) s"
proof (cases "accepted rs")
  case False
  then show ?thesis using processArgs_run(2) [OF assms(6), of word s]
    by (auto simp: wp_def server_main_def run_simps server_post_def EXIT_FAILURE_def)
next
  case True
  note args = processArgs_run(1) [OF assms(6) this, of word s]
  let ?s = "set_options word rs s" and ?port = "served_port word rs"
  have "NUL \<in> set (''quekka.log'' @ [NUL])" "cstr (''quekka.log'' @ [NUL]) \<noteq> []" "length (cstr (''quekka.log'' @ [NUL])) \<le> 255"
    "\<not> log_mutex (g_log ?s)" "length (lg_filename (g_logger (g_log ?s))) = 256"
    using assms(3,4) by (simp_all add: set_options_def)
  from logger_init_run [OF this(4,1,2,3,5), of can_open LOG_INFO]
  obtain w where "logger_init can_open (Some (''quekka.log'' @ [NUL])) LOG_INFO (g_log ?s) = (Ret (), w)" by blast
  then have log: "on_log (logger_init can_open (Some (''quekka.log'' @ [NUL])) LOG_INFO) ?s = (Ret (), ?s\<lparr>g_log := w\<rparr>)"
    by (rule on_log_run)
  define s0 where "s0 = ?s\<lparr>g_log := w, trace := trace s @ [Logged LOG_INFO ''########## quekka server start ##########'' []]\<rparr>"
  have s0: "extends (server_event ?port) (trace s) (trace s0)" "g_ip s0 = g_ip ?s" by (simp_all add: s0_def)
  have port: "htons (word_of_int (ptr_as_int (g_ip s0))) = ?port"
    by (cases "last_opt CHR ''i'' rs") (simp_all add: s0_def set_options_def served_port_def port_of_pointer assms(5) htons_zero)
  have start: "log_call LOG_INFO ''########## quekka server start ##########'' [] (?s\<lparr>g_log := w\<rparr>) = (Ret (), s0)"
    by (simp add: s0_def run_simps set_options_def)
  have exit: "server_post ?port N K n (trace s) (Exit 1) s'" "server_post ?port N K n (trace s) (Ret 1) s'"
    if "extends (server_event ?port) (trace s) (trace s')" for s' :: "'z srv_scheme"
    using that by (simp_all add: server_post_def)
  have ip: "htons (word_of_int (ptr_as_int (g_ip s'))) = ?port" if "calm ?port s0 s'" for s' :: "'z srv_scheme"
    using that port by (simp add: calm_def)
  have base: "extends (server_event ?port) (trace s) (trace s')" if "extends (server_event ?port) (trace s0) (trace s')" for s' :: "'z srv_scheme"
    using extends_trans [OF s0(1) that] .
  have base2: "extends (server_event ?port) (trace s) tr" if "extends (server_event ?port) (trace s0) (trace s')"
    "extends (server_event ?port) (trace s') tr" for tr and s' :: "'z srv_scheme"
    using extends_trans [OF base [OF that(1)] that(2)] .
  note step = calm_sockets [where port = ?port, THEN calm_bind [where ?s0.0 = s0]]
  show ?thesis
    unfolding server_main_def flat_simps
    apply (rule wp_run, rule args)
    apply (rule wp_if)
     apply simp
    apply (rule wp_run, rule log)
    apply (rule wp_run, rule start)
    apply (intro step wp_leaf_bind wp_bind [OF server_polls_wp [where port = ?port]] server_serves_wp [OF _ _ _ assms(1,2)]
        wp_if wp_leaf wp_note)
    by (use base in \<open>auto simp: port calm_def EXIT_FAILURE_def server_post_def handler_on_def extends_more intro: base base2\<close>)
qed

section \<open>Properties\<close>

text \<open>The static variables and the logger as the process starts with them.\<close>

definition srv_start :: srv where
  "srv_start = \<lparr>trace = [], errno = 0, heap = Map.empty, g_ip = 0, g_port = 9999, g_server_fd = -1, g_handler = 0,
     g_log = \<lparr>g_logger = g_logger_initial, log_mutex = False, console = [], disk = Map.empty\<rparr>\<rparr>"

lemma srv_start_log: "\<not> log_mutex (g_log srv_start)" "length (lg_filename (g_logger (g_log srv_start))) = 256" "g_ip srv_start = 0"
  by (simp_all add: srv_start_def g_logger_initial_def MAX_FILENAME_LEN_def)

text \<open>
  C21. The server serves nobody and listens on a port nobody asked for. Whatever the kernel does,
  \<open>main\<close> accepts no connection and receives and sends nothing: every event ends in the empty
  callback. The only port it binds is 0, that is, any free one, and with \<open>-i\<close> the low 16 bits
  of the address its argument is stored at, because the address text is passed where the
  port is expected; \<open>-p\<close> has no effect. It never faults and never reports success.
\<close>

theorem server_serves_nobody:
  fixes s :: "'z srv_scheme"
  assumes "malloc_fresh K" and "poll_fits K" and "\<not> log_mutex (g_log s)" and "length (lg_filename (g_logger (g_log s))) = 256"
    and "g_ip s = 0" and "server_main K can_open word n argv s = (r, s')"
  shows "(r = Ret EXIT_FAILURE \<or> r = Exit 1 \<or> r = Out_of_fuel) \<and>
    extends (server_event (case last_opt (CHR ''i'') (getopt_results ''ip'' 1 (drop 1 argv)) of
        None \<Rightarrow> 0 | Some a \<Rightarrow> htons (word_of_nat (word (oa_word a) + oa_offset a)))) (trace s) (trace s')"
proof -
  from wpD [OF server_main_wp [OF assms(1-5) refl, where N = 0] assms(6)] show ?thesis
    unfolding server_post_def served_port_def EXIT_FAILURE_def optarg_ptr_def by blast
qed

text \<open>
  C22. One failed wait ends the server: as soon as \<open>epoll_wait\<close> fails, be it because a signal
  arrived, \<open>main\<close> returns with the failure status (or it has exited before, for a socket
  call that failed). With a loop bound above the number of successful waits the run is complete.
\<close>

theorem server_ends_with_failed_wait:
  fixes s :: "'z srv_scheme"
  assumes "malloc_fresh K" and "poll_fits K" and "\<not> log_mutex (g_log s)" and "length (lg_filename (g_logger (g_log s))) = 256"
    and "g_ip s = 0" and "wait_fails_from N K" and "N < n" and "server_main K can_open word n argv s = (r, s')"
  shows "r = Ret EXIT_FAILURE \<or> r = Exit 1"
proof -
  from wpD [OF server_main_wp [OF assms(1-5) refl, where N = N] assms(8)] show ?thesis
    using assms(6,7) by (auto simp: server_post_def EXIT_FAILURE_def)
qed

text \<open>
  Options: a command line with an unknown option or a missing argument ends the program with
  the failure status before anything else happens; otherwise the last \<open>-i\<close> and the last \<open>-p\<close>
  count and a missing one leaves its default.
\<close>

theorem server_options:
  fixes s :: "'z srv_scheme"
  assumes "rs = getopt_results ''ip'' 1 (drop 1 argv)"
  shows "if Opt_error \<in> set rs
    then \<exists>s'. server_main K can_open word n argv s = (Ret EXIT_FAILURE, s') \<and> trace s' = trace s \<and> g_log s' = g_log s
    else server_processArgs word argv s = (Ret 0, s\<lparr>
      g_ip := (case last_opt (CHR ''i'') rs of None \<Rightarrow> g_ip s | Some a \<Rightarrow> word (oa_word a) + oa_offset a),
      g_port := (case last_opt (CHR ''p'') rs of None \<Rightarrow> g_port s | Some a \<Rightarrow> c_atoi (oa_text a))\<rparr>)"
proof (cases "Opt_error \<in> set rs")
  case True
  then show ?thesis using processArgs_run(2) [OF assms, of word s]
    by (auto simp: accepted_def server_main_def run_simps)
next
  case False
  then show ?thesis using processArgs_run(1) [OF assms, of word s]
    by (simp add: accepted_def set_options_def optarg_ptr_def cong: option.case_cong)
qed

section \<open>Concrete runs\<close>

lemma sample_wait_fails: "wait_fails_from 0 sample_kernel"
  by (simp add: wait_fails_from_def sample_kernel_def)

theorem server_serves_nobody_witness:
  "\<exists>r s'. server_main sample_kernel (\<lambda>_. True) (\<lambda>k. 140728898420736 + 16 * k) 1 [''quekka'', ''-p'', ''9999''] srv_start = (r, s') \<and>
     extends (server_event 0) [] (trace s')"
proof -
  obtain r s' where run: "server_main sample_kernel (\<lambda>_. True) (\<lambda>k. 140728898420736 + 16 * k) 1 [''quekka'', ''-p'', ''9999''] srv_start = (r, s')"
    by fastforce
  have "last_opt CHR ''i'' (getopt_results ''ip'' 1 (drop 1 [''quekka'', ''-p'', ''9999''])) = None"
    by (simp add: getopt_results.simps)
  with server_serves_nobody [OF sample_malloc_fresh sample_poll_fits srv_start_log run] run show ?thesis
    by (auto simp: srv_start_def)
qed

theorem server_ends_with_failed_wait_witness:
  "\<exists>s'. server_main sample_kernel (\<lambda>_. True) (\<lambda>k. 4096) 1 [''quekka''] srv_start = (Ret EXIT_FAILURE, s') \<or>
     server_main sample_kernel (\<lambda>_. True) (\<lambda>k. 4096) 1 [''quekka''] srv_start = (Exit 1, s')"
proof -
  obtain r s' where run: "server_main sample_kernel (\<lambda>_. True) (\<lambda>k. 4096) 1 [''quekka''] srv_start = (r, s')" by fastforce
  from server_ends_with_failed_wait [OF sample_malloc_fresh sample_poll_fits srv_start_log sample_wait_fails _ run] run
  show ?thesis by auto
qed

theorem server_options_witness:
  "\<exists>s'. server_main sample_kernel (\<lambda>_. True) (\<lambda>k. 4096) 1 [''quekka'', ''-x''] srv_start = (Ret EXIT_FAILURE, s') \<and> trace s' = []"
proof -
  have "Opt_error \<in> set (getopt_results ''ip'' 1 (drop 1 [''quekka'', ''-x'']))" by (simp add: getopt_results.simps)
  with server_options [OF refl, of "[''quekka'', ''-x'']" sample_kernel "\<lambda>_. True" "\<lambda>k. 4096" 1 srv_start]
  obtain s' where "server_main sample_kernel (\<lambda>_. True) (\<lambda>k. 4096) 1 [''quekka'', ''-x''] srv_start = (Ret EXIT_FAILURE, s')"
    "trace s' = trace srv_start" by auto
  then show ?thesis by (simp add: srv_start_def)
qed

end
