(* ===== verification/Quekka_Server_Cpp.thy ===== *)
theory Quekka_Server_Cpp
  imports Quekka_Server
begin

text \<open>
  The other server program (\<^verbatim>\<open>src/server/quekka.cpp\<close>), which the build does not compile: it
  binds the configured port and has a callback that is meant to accept or to receive. Where
  the callback needs the descriptor of the event, it has the constant 0 ("TODO").
\<close>

section \<open>The program\<close>

definition cpp_event_text :: "char list" where
  "cpp_event_text =
     ''FD [%d]'' @ [CHR 0xEC, CHR 0x97, CHR 0x90] @ '' '' @ [CHR 0xEC, CHR 0x9D, CHR 0xB4, CHR 0xEB, CHR 0xB2, CHR 0xA4, CHR 0xED, CHR 0x8A, CHR 0xB8, CHR 0xEA, CHR 0xB0, CHR 0x80] @ '' '' @ [CHR 0xEB, CHR 0xB0, CHR 0x9C, CHR 0xEC, CHR 0x83, CHR 0x9D] @ '' '' @ [CHR 0xED, CHR 0x95, CHR 0x98, CHR 0xEC, CHR 0x98, CHR 0x80, CHR 0xEC, CHR 0x8A, CHR 0xB5, CHR 0xEB, CHR 0x8B, CHR 0x88, CHR 0xEB, CHR 0x8B, CHR 0xA4] @ ''. events[%d]''"

definition cpp_callback_fn :: "kernel \<Rightarrow> 'z srv_scheme event_callback" where
  "cpp_callback_fn K p events user_data =
     then_c (log_call LOG_INFO cpp_event_text [Int_arg 0, Int_arg (sint events)])
     (bind_c (get_c g_server_fd) (\<lambda>server_fd.
     bind_c (get_c g_handler) (\<lambda>h.
     if server_fd = 0 then
       bind_c (tcp_socket_accept K server_fd zero_sockaddr) (\<lambda>(accepted_fd, _).
       bind_c (epoll_handler_add K h accepted_fd 0 EPOLLIN) (\<lambda>_. return_c ()))
     else
       bind_c (sys K (Recv 0 (1024 - 1) Msg_dontwait)) (\<lambda>r.
       case bytes_of r of
         None \<Rightarrow> log_call LOG_FATAL ''fatal[%d]'' [Int_arg (-1)]
       | Some b \<Rightarrow>
           if b = [] then
             then_c (log_call LOG_INFO ''disconnected[%d]'' [Int_arg 0])
             (bind_c (epoll_handler_remove K h 0) (\<lambda>_. sys_ignore K (Close 0)))
           else
             bind_c (require_c Out_of_bounds (c_memcpy (replicate 1024 NUL) b (length b))) (\<lambda>tmpBuffer.
             log_call LOG_INFO ''user_data[%s]'' [Str_arg (cstr tmpBuffer)])))))"

primrec cpp_option_loop :: "char list \<Rightarrow> (nat \<Rightarrow> ptr) \<Rightarrow> getopt_result list \<Rightarrow> ('z srv_scheme, int) prog" where
  "cpp_option_loop program word [] = return_c 0"
| "cpp_option_loop program word (r # rs) =
     (case r of
        Opt c a \<Rightarrow>
          if c = CHR ''i'' then
            then_c (modify_c (\<lambda>s. s\<lparr>g_ip := optarg_ptr word a\<rparr>))
            (then_c (log_call LOG_INFO ''IP address set to: %s'' [Str_arg (oa_text a)]) (cpp_option_loop program word rs))
          else if c = CHR ''p'' then
            then_c (modify_c (\<lambda>s. s\<lparr>g_port := c_atoi (oa_text a)\<rparr>))
            (then_c (log_call LOG_INFO ''Port set to: %d'' [Int_arg (c_atoi (oa_text a))]) (cpp_option_loop program word rs))
          else then_c (log_call LOG_ERROR ''Usage: %s [-i ip-address] [-p port]'' [Str_arg program]) (return_c (-1))
      | Opt_error \<Rightarrow> then_c (log_call LOG_ERROR ''Usage: %s [-i ip-address] [-p port]'' [Str_arg program]) (return_c (-1)))"

definition cpp_processArgs :: "(nat \<Rightarrow> ptr) \<Rightarrow> char list list \<Rightarrow> ('z srv_scheme, int) prog" where
  "cpp_processArgs word argv = cpp_option_loop (case argv of [] \<Rightarrow> ''(null)'' | a # _ \<Rightarrow> a) word (getopt_results ''ip'' 1 (drop 1 argv))"

text \<open>\<open>while (1)\<close>, left when \<open>epoll_handler_wait\<close> returns -1.\<close>

primrec cpp_loop :: "kernel \<Rightarrow> nat \<Rightarrow> ('z srv_scheme, int) prog" where
  "cpp_loop K 0 = fuel_c"
| "cpp_loop K (Suc n) =
     bind_c (get_c g_handler) (\<lambda>h.
     bind_c (epoll_handler_wait K h (-1) (Some (cpp_callback_fn K)) 0) (\<lambda>ret.
     if ret = -1 then return_c ret else cpp_loop K n))"

definition cpp_main ::
    "kernel \<Rightarrow> (char list \<Rightarrow> bool) \<Rightarrow> (nat \<Rightarrow> ptr) \<Rightarrow> nat \<Rightarrow> char list list \<Rightarrow> ('z srv_scheme, int) prog" where
  "cpp_main K can_open word n argv =
     bind_c (cpp_processArgs word argv) (\<lambda>r.
     if r = -1 then exit_c EXIT_FAILURE else
     then_c (on_log (logger_init can_open (Some (''quekka.log'' @ [NUL])) LOG_INFO))
     (then_c (log_call LOG_INFO ''##########################################'' [])
     (then_c (log_call LOG_INFO ''################# quekka ##################'' [])
     (then_c (log_call LOG_INFO ''##########################################'' [])
     (bind_c (get_c g_port) (\<lambda>port.
     bind_c (socket_init K) (\<lambda>server_fd.
     if server_fd < 0 then exit_c EXIT_FAILURE else
     then_c (socket_setsockopt_reuseaddr K server_fd)
     (then_c (socket_bind_address K port server_fd)
     (then_c (socket_listen K server_fd)
     (bind_c (epoll_handler_create K) (\<lambda>h.
     then_c (modify_c (\<lambda>s. s\<lparr>g_handler := h\<rparr>))
     (if h = 0 then
        then_c (log_call LOG_ERROR ''failed to epoll_handler_create'' []) (exit_c EXIT_FAILURE)
      else
      bind_c (epoll_handler_add K h server_fd 0 EPOLLIN) (\<lambda>_.
      then_c (modify_c (\<lambda>s. s\<lparr>g_server_fd := server_fd\<rparr>))
      (bind_c (cpp_loop K n) (\<lambda>ret.
      then_c (log_call LOG_ERROR ''epoll_handler_wait error[%d]), system bug'' [Int_arg ret])
        (return_c 0))))))))))))))))"

section \<open>What it does\<close>

fun cpp_event :: "16 word \<Rightarrow> event \<Rightarrow> bool" where
  "cpp_event port (Call c r) =
     (case c of Bind fd a \<Rightarrow> sin_port a = port | Accept l \<Rightarrow> False | Recv fd n f \<Rightarrow> fd = 0 | Read fd n \<Rightarrow> False
      | Send fd b f \<Rightarrow> False | Write fd b \<Rightarrow> False | _ \<Rightarrow> True)"
| "cpp_event port ev = True"

lemma server_event_cpp: "server_event port ev \<Longrightarrow> cpp_event port ev"
  by (cases "(port, ev)" rule: server_event.cases) (auto split: syscall.splits)

lemma extends_server_cpp: "extends (server_event port) tr tr' \<Longrightarrow> extends (cpp_event port) tr tr'"
  by (auto simp: extends_def server_event_cpp elim!: list.pred_mono_strong)

lemma cpp_option_loop_run:
  assumes "\<forall>c a. Opt c a \<in> set rs \<longrightarrow> c = CHR ''i'' \<or> c = CHR ''p''"
  shows "\<exists>new. list_all (server_event q) new \<and>
    (if accepted rs then cpp_option_loop program word rs s = (Ret 0, (set_options word rs s)\<lparr>trace := trace s @ new\<rparr>)
     else \<exists>s'. cpp_option_loop program word rs s = (Ret (-1), s') \<and> trace s' = trace s @ new)"
  using assms
proof (induction rs arbitrary: s)
  case Nil
  show ?case by (intro exI [of _ "[]"]) (simp add: run_simps set_options_def accepted_def)
next
  case (Cons r rs)
  show ?case
  proof (cases r)
    case (Opt c a)
    then have c: "c = CHR ''i'' \<or> c = CHR ''p''" and rs: "\<forall>c a. Opt c a \<in> set rs \<longrightarrow> c = CHR ''i'' \<or> c = CHR ''p''"
      using Cons.prems by auto
    define s1 where "s1 = (if c = CHR ''i'' then s\<lparr>g_ip := optarg_ptr word a, trace := trace s @ [Logged LOG_INFO ''IP address set to: %s'' [Str_arg (oa_text a)]]\<rparr>
      else s\<lparr>g_port := c_atoi (oa_text a), trace := trace s @ [Logged LOG_INFO ''Port set to: %d'' [Int_arg (c_atoi (oa_text a))]]\<rparr>)"
    have step: "cpp_option_loop program word (r # rs) s = cpp_option_loop program word rs s1"
      using Opt c by (auto simp: run_simps s1_def)
    define ev where "ev = (if c = CHR ''i'' then Logged LOG_INFO ''IP address set to: %s'' [Str_arg (oa_text a)]
      else Logged LOG_INFO ''Port set to: %d'' [Int_arg (c_atoi (oa_text a))])"
    have ev: "trace s1 = trace s @ [ev]" "server_event q ev" by (simp_all add: s1_def ev_def)
    from Cons.IH [OF rs, of s1] obtain new where new: "list_all (server_event q) new"
      "if accepted rs then cpp_option_loop program word rs s1 = (Ret 0, (set_options word rs s1)\<lparr>trace := trace s1 @ new\<rparr>)
       else \<exists>s'. cpp_option_loop program word rs s1 = (Ret (-1), s') \<and> trace s' = trace s1 @ new" by blast
    have "accepted (r # rs) = accepted rs" using Opt by (simp add: accepted_def)
    moreover have "(set_options word rs s1)\<lparr>trace := trace s1 @ new\<rparr> = (set_options word (r # rs) s)\<lparr>trace := trace s1 @ new\<rparr>"
      using c Opt by (auto simp: set_options_def s1_def split: option.split)
    ultimately show ?thesis
      using new ev unfolding step by (intro exI [of _ "ev # new"]) (auto split: if_splits)
  qed (auto simp: run_simps accepted_def)
qed

definition stdin_fits :: "kernel \<Rightarrow> bool" where
  "stdin_fits K \<longleftrightarrow> (\<forall>tr n f b. K tr (Recv 0 n f) = Bytes b \<longrightarrow> length b \<le> n)"

definition cpp_inv :: "16 word \<Rightarrow> event list \<Rightarrow> ptr \<Rightarrow> int \<Rightarrow> 'z srv_scheme \<Rightarrow> bool" where
  "cpp_inv port tr h ep s \<longleftrightarrow> handler_on h ep s \<and> g_handler s = h \<and> g_server_fd s \<noteq> 0 \<and> extends (cpp_event port) tr (trace s)"

lemma cpp_inv_stable: "poll_stable h ep (cpp_inv port tr h ep)"
  by (auto simp: poll_stable_def cpp_inv_def handler_on_def extends_more)

text \<open>It never ends but by returning.\<close>

abbreviation returns :: "('s \<Rightarrow> bool) \<Rightarrow> 'a outcome \<Rightarrow> 's \<Rightarrow> bool" where
  "returns I \<equiv> ends I (\<lambda>_ _. False) (\<lambda>_ _. False) I"

lemma bytes_of_Bytes: "bytes_of r = Some b \<longleftrightarrow> r = Bytes b"
  by (cases r) auto

lemma cpp_callback_returns:
  assumes "cpp_inv port tr h ep s" and "stdin_fits K"
  shows "wp (cpp_callback_fn K p ev 0) (returns (cpp_inv port tr h ep)) s"
proof -
  have "length b \<le> 1023" if "K tr (Recv 0 1023 Msg_dontwait) = Bytes b" for tr b
    using assms(2) that unfolding stdin_fits_def by blast
  then show ?thesis
    using assms(1) unfolding cpp_callback_fn_def epoll_handler_remove_def flat_simps
    by (intro wp_intros)
      (fastforce simp: cpp_inv_def handler_on_def extends_more c_memcpy_def bytes_of_Bytes split: if_splits)+
qed

lemma cpp_loop_returns:
  fixes s :: "'z srv_scheme"
  assumes "cpp_inv port tr h ep s" and "stdin_fits K" and "poll_fits K"
  shows "wp (cpp_loop K n) (returns (cpp_inv port tr h ep)) s"
  using assms(1)
proof (induction n arbitrary: s)
  case 0
  then show ?case by (simp add: wp_def run_simps)
next
  case (Suc n)
  have h: "g_handler s = h" using Suc.prems by (simp add: cpp_inv_def)
  have "wp (epoll_handler_wait K h (-1) (Some (cpp_callback_fn K)) 0) (returns (cpp_inv port tr h ep)) s"
    by (rule epoll_wait_ends [where ep = ep])
      (use assms(2,3) Suc.prems cpp_inv_stable in \<open>auto intro: cpp_callback_returns\<close>)
  then have "wp (bind_c (epoll_handler_wait K h (-1) (Some (cpp_callback_fn K)) 0)
      (\<lambda>ret. if ret = -1 then return_c ret else cpp_loop K n)) (returns (cpp_inv port tr h ep)) s"
  proof (rule ends_bind)
    fix ret :: int and s' :: "'z srv_scheme"
    assume "cpp_inv port tr h ep s'"
    from Suc.IH [OF this] this
    show "wp (if ret = -1 then return_c ret else cpp_loop K n) (returns (cpp_inv port tr h ep)) s'"
      by (cases "ret = -1") (simp_all add: wp_def run_simps)
  qed
  then show ?case using h by (simp add: wp_def run_simps)
qed

definition cpp_post :: "16 word \<Rightarrow> event list \<Rightarrow> int outcome \<Rightarrow> 'z srv_scheme \<Rightarrow> bool" where
  "cpp_post port tr r s' \<longleftrightarrow> (r = Ret 0 \<or> r = Exit 1 \<or> r = Out_of_fuel) \<and> extends (cpp_event port) tr (trace s')"

lemma cpp_serves_wp:
  fixes s :: "'z srv_scheme"
  assumes "\<exists>ep. handler_on h ep s" and "g_handler s = h" and "fd \<noteq> 0" and "stdin_fits K" and "poll_fits K"
    and "extends (cpp_event port) tr (trace s)"
  shows "wp (bind_c (epoll_handler_add K h fd 0 EPOLLIN) (\<lambda>_. bind_c (modify_c (\<lambda>s. s\<lparr>g_server_fd := fd\<rparr>)) (\<lambda>_.
      bind_c (cpp_loop K n) (\<lambda>ret. bind_c (log_call LOG_ERROR t [Int_arg ret]) (\<lambda>_. return_c 0))))) (cpp_post port tr) s"
proof -
  obtain ep where ep: "handler_on h ep s" using assms(1) by blast
  have loop: "wp (bind_c (cpp_loop K n) (\<lambda>ret. bind_c (log_call LOG_ERROR t [Int_arg ret]) (\<lambda>_. return_c 0))) (cpp_post port tr) s1"
    if "cpp_inv port tr h ep s1" for s1
    by (rule wp_bind [OF cpp_loop_returns [OF that assms(4,5)]])
      (auto simp: cpp_inv_def cpp_post_def wp_def run_simps extends_more)
  show ?thesis
    unfolding epoll_handler_add_def flat_simps
    by (intro loop wp_intros) (use ep assms(2,3,6) in \<open>auto simp: cpp_inv_def handler_on_def extends_more\<close>)
qed

lemma cpp_main_wp:
  fixes s :: "'z srv_scheme"
  assumes "poll_fits K" and "stdin_fits K" and "\<not> log_mutex (g_log s)" and "length (lg_filename (g_logger (g_log s))) = 256"
    and "rs = getopt_results ''ip'' 1 (drop 1 argv)" and "\<forall>tr. int_of (K tr Socket) \<noteq> 0"
    and "port = (case last_opt (CHR ''p'') rs of None \<Rightarrow> g_port s | Some a \<Rightarrow> c_atoi (oa_text a))"
  shows "wp (cpp_main K can_open word n argv) (cpp_post (htons (word_of_int port)) (trace s)) s"
proof -
  let ?port = "htons (word_of_int port)"
  have "\<forall>c a. Opt c a \<in> set rs \<longrightarrow> c = CHR ''i'' \<or> c = CHR ''p''"
    using getopt_results_opts [of _ _ "''ip''" 1 "drop 1 argv"] assms(5) by auto
  from cpp_option_loop_run [OF this, of ?port _ word s] obtain new where new: "list_all (server_event ?port) new"
    "if accepted rs then cpp_processArgs word argv s = (Ret 0, (set_options word rs s)\<lparr>trace := trace s @ new\<rparr>)
     else \<exists>s'. cpp_processArgs word argv s = (Ret (-1), s') \<and> trace s' = trace s @ new"
    unfolding cpp_processArgs_def assms(5) by blast
  show ?thesis
  proof (cases "accepted rs")
    case False
    then show ?thesis using new extends_server_cpp [of ?port "trace s" "trace s @ new"]
      by (auto simp: wp_def cpp_main_def run_simps cpp_post_def EXIT_FAILURE_def)
  next
    case True
    let ?s = "(set_options word rs s)\<lparr>trace := trace s @ new\<rparr>"
    have args: "cpp_processArgs word argv s = (Ret 0, ?s)" using new(2) True by simp
    have "NUL \<in> set (''quekka.log'' @ [NUL])" "cstr (''quekka.log'' @ [NUL]) \<noteq> []" "length (cstr (''quekka.log'' @ [NUL])) \<le> 255"
      "\<not> log_mutex (g_log ?s)" "length (lg_filename (g_logger (g_log ?s))) = 256"
      using assms(3,4) by (simp_all add: set_options_def)
    from logger_init_run [OF this(4,1,2,3,5), of can_open LOG_INFO]
    obtain w where "logger_init can_open (Some (''quekka.log'' @ [NUL])) LOG_INFO (g_log ?s) = (Ret (), w)" by blast
    then have log: "on_log (logger_init can_open (Some (''quekka.log'' @ [NUL])) LOG_INFO) ?s = (Ret (), ?s\<lparr>g_log := w\<rparr>)"
      by (rule on_log_run)
    define s0 where "s0 = ?s\<lparr>g_log := w, trace := trace s @ new @ [Logged LOG_INFO ''##########################################'' [],
      Logged LOG_INFO ''################# quekka ##################'' [], Logged LOG_INFO ''##########################################'' []]\<rparr>"
    have start: "wp (f ()) Q s0 \<Longrightarrow>
      wp (bind_c (log_call LOG_INFO ''##########################################'' []) (\<lambda>_.
        bind_c (log_call LOG_INFO ''################# quekka ##################'' []) (\<lambda>_.
        bind_c (log_call LOG_INFO ''##########################################'' []) f))) Q (?s\<lparr>g_log := w\<rparr>)"
      for f :: "unit \<Rightarrow> ('z srv_scheme, int) prog" and Q
      by (simp add: wp_def run_simps s0_def)
    have s0: "extends (server_event ?port) (trace s) (trace s0)" "g_port s0 = port"
      using new(1) assms(7) by (simp_all add: s0_def set_options_def)
    have exit: "cpp_post ?port (trace s) (Exit 1) s'" if "calm ?port s0 s'" for s' :: "'z srv_scheme"
      using extends_trans [OF s0(1), of "trace s'"] that
      by (simp add: cpp_post_def extends_server_cpp calm_def)
    have ext: "extends (cpp_event ?port) (trace s) tr'" if "calm ?port s0 s1" "extends (server_event ?port) (trace s1) tr'" for s1 :: "'z srv_scheme" and tr'
      using extends_trans [OF s0(1), of "trace s1"] that extends_trans extends_server_cpp by (fastforce simp: calm_def)
    have sock: "wp (socket_init K) (\<lambda>r s'. calm ?port s1 s' \<and> (\<exists>x. r = Ret x \<and> x \<noteq> 0)) s1" for s1 :: "'z srv_scheme"
      unfolding socket_init_def flat_simps by (intro wp_intros) (use assms(6) in \<open>auto simp: calm_def\<close>)
    have handler: "\<exists>ep. handler_on h ep s1 \<Longrightarrow> \<exists>ep. handler_on h ep (s1\<lparr>g_handler := h'\<rparr>)" for h h' and s1 :: "'z srv_scheme"
      by (simp add: handler_on_def)
    note step = calm_sockets(2-4) [where port = ?port, THEN calm_bind [where ?s0.0 = s0]]
    show ?thesis
      unfolding cpp_main_def flat_simps
      apply (rule wp_run, rule args)
      apply (rule wp_if)
       apply simp
      apply (rule wp_run, rule log)
      apply (rule start)
      apply (rule wp_leaf_bind)
      apply (rule wp_bind [OF sock])
         apply (intro wp_if wp_leaf step wp_leaf_bind wp_bind [OF server_polls_wp [where port = ?port]] cpp_serves_wp [OF _ _ _ assms(2,1)] wp_note)
      by (use handler ext in \<open>auto simp: EXIT_FAILURE_def s0(2) exit calm_def cpp_post_def extends_more\<close>)
  qed
qed

section \<open>Properties\<close>

text \<open>
  The server that is not built reads its own standard input. Unless the listening socket happens
  to be descriptor 0, it binds the configured port but never accepts a connection: every
  event, whatever descriptor it is for, makes the callback receive from descriptor 0, and
  when that is at its end, close it. It never faults and ends by a failed wait or \<open>exit(1)\<close>.
\<close>

theorem cpp_server_reads_stdin:
  fixes s :: "'z srv_scheme"
  assumes "poll_fits K" and "stdin_fits K" and "\<not> log_mutex (g_log s)" and "length (lg_filename (g_logger (g_log s))) = 256"
    and "\<forall>tr. int_of (K tr Socket) \<noteq> 0" and "cpp_main K can_open word n argv s = (r, s')"
  shows "(r = Ret 0 \<or> r = Exit 1 \<or> r = Out_of_fuel) \<and>
    extends (cpp_event (htons (word_of_int (case last_opt (CHR ''p'') (getopt_results ''ip'' 1 (drop 1 argv)) of
        None \<Rightarrow> g_port s | Some a \<Rightarrow> c_atoi (oa_text a))))) (trace s) (trace s')"
  using wpD [OF cpp_main_wp [OF assms(1-4) refl assms(5) refl] assms(6)] by (simp add: cpp_post_def)

theorem cpp_server_reads_stdin_witness:
  "\<exists>r s'. cpp_main sample_kernel (\<lambda>_. True) (\<lambda>k. 4096) 2 [''quekka'', ''-p8080''] srv_start = (r, s') \<and>
     extends (cpp_event (htons 8080)) [] (trace s')"
proof -
  obtain r s' where run: "cpp_main sample_kernel (\<lambda>_. True) (\<lambda>k. 4096) 2 [''quekka'', ''-p8080''] srv_start = (r, s')" by fastforce
  have fits: "stdin_fits sample_kernel" by (simp add: stdin_fits_def sample_kernel_def)
  have sock: "\<forall>tr. int_of (sample_kernel tr Socket) \<noteq> 0"
  proof
    fix tr
    show "int_of (sample_kernel tr Socket) \<noteq> 0" using fresh_fd(2) [of tr] by (simp add: sample_kernel_def)
  qed
  have o: "last_opt CHR ''p'' (getopt_results ''ip'' 1 (drop 1 [''quekka'', ''-p8080''])) = Some \<lparr>oa_word = 1, oa_offset = 2, oa_text = ''8080''\<rparr>"
    by (simp add: getopt_results.simps)
  have "c_atoi ''8080'' = 8080"
    by (simp add: c_atoi_def strtol10_def c_isspace_def c_isdigit_def decimal_value_def digit_value_def)
  with cpp_server_reads_stdin [OF sample_poll_fits fits srv_start_log(1,2) sock run] run o show ?thesis
    by (auto simp: srv_start_def)
qed

end
