(* ===== verification/Quekka_Cli.thy ===== *)
theory Quekka_Cli
  imports Libepoll Libsocket Getopt Quekka_Message
begin

text \<open>
  The command line client (\<^verbatim>\<open>src/cli/quekka-cli.cpp\<close>): options, a socket that is registered
  with epoll and connected, and a callback that reads messages. Like the C++ server, the
  callback works on descriptor 0 instead of the event's. A body buffer is an object of the
  heap whose bytes may be indeterminate.
\<close>

section \<open>State and options\<close>

record cli = mem +
  c_ip :: "char list"
  c_port :: int
  c_handler :: ptr

text \<open>
  The argument of \<open>-i\<close> is kept as a \<open>std::string\<close>, and this object is passed for \<open>%s\<close> to a
  C function with variable arguments. C++ supports that only conditionally (common compilers refuse it), and
  where it is supported \<open>%s\<close> finds no \<open>char *\<close> there, which is undefined: so it is a fault here.
\<close>

primrec cli_option_loop :: "char list \<Rightarrow> getopt_result list \<Rightarrow> ('z cli_scheme, int) prog" where
  "cli_option_loop program [] = return_c 0"
| "cli_option_loop program (r # rs) =
     (case r of
        Opt c a \<Rightarrow>
          if c = CHR ''i'' then
            then_c (modify_c (\<lambda>s. s\<lparr>c_ip := oa_text a\<rparr>)) (fault_c Bad_arguments)
          else if c = CHR ''p'' then
            then_c (modify_c (\<lambda>s. s\<lparr>c_port := c_atoi (oa_text a)\<rparr>))
            (then_c (log_call LOG_INFO ''Port set to: %d'' [Int_arg (c_atoi (oa_text a))]) (cli_option_loop program rs))
          else then_c (log_call LOG_ERROR ''Usage: %s [-i ip-address] [-p port]'' [Str_arg program]) (return_c (-1))
      | Opt_error \<Rightarrow> then_c (log_call LOG_ERROR ''Usage: %s [-i ip-address] [-p port]'' [Str_arg program]) (return_c (-1)))"

definition cli_processArgs :: "char list list \<Rightarrow> ('z cli_scheme, int) prog" where
  "cli_processArgs argv =
     cli_option_loop (case argv of [] \<Rightarrow> ''(null)'' | a # _ \<Rightarrow> a) (getopt_results ''ip'' 1 (drop 1 argv))"

section \<open>Reading messages\<close>

definition cli_event_text :: "char list" where
  "cli_event_text =
     ''quekka-cli, FD [%d]'' @ [CHR 0xEC, CHR 0x97, CHR 0x90] @ '' '' @ [CHR 0xEC, CHR 0x9D, CHR 0xB4, CHR 0xEB, CHR 0xB2, CHR 0xA4, CHR 0xED, CHR 0x8A, CHR 0xB8, CHR 0xEA, CHR 0xB0, CHR 0x80] @ '' '' @ [CHR 0xEB, CHR 0xB0, CHR 0x9C, CHR 0xEC, CHR 0x83, CHR 0x9D] @ '' '' @ [CHR 0xED, CHR 0x95, CHR 0x98, CHR 0xEC, CHR 0x98, CHR 0x80, CHR 0xEC, CHR 0x8A, CHR 0xB5, CHR 0xEB, CHR 0x8B, CHR 0x88, CHR 0xEB, CHR 0x8B, CHR 0xA4] @ ''. events[%d]''"

text \<open>The C string at the start of a buffer, when it can be read.\<close>

definition buffer_string :: "char option list \<Rightarrow> ('s, char list) prog" where
  "buffer_string v =
     (let t = takeWhile (\<lambda>x. x \<noteq> Some NUL) v in
      if None \<in> set t then fault_c Uninitialised
      else if length t = length v then fault_c Unterminated
      else return_c (map the t))"

definition processQuekkaData :: "ptr \<Rightarrow> ('z cli_scheme, int) prog" where
  "processQuekkaData p =
     bind_c (load the_buffer p) (\<lambda>v.
     bind_c (buffer_string v) (\<lambda>t.
     then_c (log_call LOG_INFO ''Quekka data: %s'' [Str_arg t]) (return_c 0)))"

text \<open>The two error paths: at end of file and at an error.\<close>

definition cli_disconnect :: "kernel \<Rightarrow> ('z cli_scheme, unit) prog" where
  "cli_disconnect K =
     then_c (log_call LOG_INFO ''disconnected[%d]'' [Int_arg 0])
     (bind_c (get_c c_handler) (\<lambda>h.
     bind_c (epoll_handler_remove K h 0) (\<lambda>_.
     sys_ignore K (Close 0))))"

definition cli_fatal :: "('z cli_scheme, 'a) prog" where
  "cli_fatal = then_c (log_call LOG_FATAL ''fatal[%d]'' [Int_arg (-1)]) (exit_c 1)"

text \<open>
  \<open>while (true)\<close>. \<open>hb\<close> is \<open>headerBuffer\<close>, 154 bytes, cleared once before the loop; the header
  read is one byte short of the struct. \<open>memset\<close> clears \<open>sizeof\<close> of a pointer plus one bytes,
  whatever the buffer's size; that it passes means that \<open>payload_len\<close> is at least 8, so
  \<open>payload_len - 1\<close> does not wrap.
\<close>

primrec cli_receive :: "kernel \<Rightarrow> nat \<Rightarrow> char list \<Rightarrow> ('z cli_scheme, unit) prog" where
  "cli_receive K 0 hb = fuel_c"
| "cli_receive K (Suc n) hb =
     bind_c (sys K (Recv 0 (QUEKKA_HEADER_SIZE - 1) Msg_dontwait)) (\<lambda>r.
     case bytes_of r of
       None \<Rightarrow> cli_fatal
     | Some b \<Rightarrow>
         if b = [] then cli_disconnect K
         else
           bind_c (require_c Out_of_bounds (c_memcpy hb b (length b))) (\<lambda>hb.
           let payload_len = unat (of_le16 (drop 148 hb)) in
           then_c (log_call LOG_INFO ''Quekka's Body Payload Len [%d]'' [Int_arg (int payload_len)])
           (bind_c (alloc_c K (payload_len + 1) (Buffer (replicate (payload_len + 1) None))) (\<lambda>body.
           if body = 0 then then_c (log_call LOG_FATAL ''malloc failed'' []) (exit_c 1)
           else
             bind_c (load the_buffer body) (\<lambda>v.
             bind_c (require_c Out_of_bounds
               (if 9 \<le> length v then Some (replicate 9 (Some NUL) @ drop 9 v) else None)) (\<lambda>v.
             then_c (store body (Buffer v))
             (bind_c (sys K (Recv 0 (payload_len - 1) Msg_waitall)) (\<lambda>r.
             case bytes_of r of
               None \<Rightarrow> cli_fatal
             | Some d \<Rightarrow>
                 if d = [] then cli_disconnect K
                 else
                   bind_c (require_c Out_of_bounds
                     (if length d \<le> length v then Some (map Some d @ drop (length d) v) else None)) (\<lambda>v.
                   then_c (store body (Buffer v))
                   (bind_c (processQuekkaData body) (\<lambda>_.
                   then_c (free_c K body) (cli_receive K n hb))))))))))))"

definition cli_callback_fn :: "kernel \<Rightarrow> nat \<Rightarrow> 'z cli_scheme event_callback" where
  "cli_callback_fn K n p events user_data =
     then_c (log_call LOG_INFO cli_event_text [Int_arg 0, Int_arg (sint events)])
       (cli_receive K n (replicate (QUEKKA_HEADER_SIZE + 1) NUL))"

section \<open>The program\<close>

primrec cli_loop :: "kernel \<Rightarrow> nat \<Rightarrow> nat \<Rightarrow> ('z cli_scheme, unit) prog" where
  "cli_loop K m 0 = fuel_c"
| "cli_loop K m (Suc n) =
     bind_c (get_c c_handler) (\<lambda>h.
     bind_c (epoll_handler_wait K h (-1) (Some (cli_callback_fn K m)) 0) (\<lambda>ret.
     if ret = -1 then return_c () else cli_loop K m n))"

definition cli_main :: "kernel \<Rightarrow> nat \<Rightarrow> nat \<Rightarrow> char list list \<Rightarrow> ('z cli_scheme, int) prog" where
  "cli_main K m n argv =
     bind_c (cli_processArgs argv) (\<lambda>r.
     if r = -1 then exit_c 1 else
     bind_c (socket_init K) (\<lambda>fd.
     if fd = -1 then then_c (log_call LOG_ERROR ''socket init failed'' []) (exit_c 1) else
     bind_c (get_c (\<lambda>s. (c_ip s, c_port s))) (\<lambda>(ip, port).
     let clientAddr = socket_set_server_address ip port in
     bind_c (epoll_handler_create K) (\<lambda>h.
     then_c (modify_c (\<lambda>s. s\<lparr>c_handler := h\<rparr>))
     (if h = 0 then then_c (log_call LOG_ERROR ''failed to epoll_handler_create'' []) (exit_c 1) else
      bind_c (epoll_handler_add K h fd 0 EPOLLIN) (\<lambda>_.
      then_c (socket_connect K clientAddr fd)
      (then_c (cli_loop K m n)
      (then_c (log_call LOG_ERROR ''epoll_handler_wait error, system bug'' [])
        (return_c 0)))))))))"

section \<open>What it does\<close>

fun cli_event :: "sockaddr_in \<Rightarrow> event \<Rightarrow> bool" where
  "cli_event addr (Call c r) =
     (case c of Connect fd a \<Rightarrow> a = addr | Recv fd n f \<Rightarrow> fd = 0 | Read fd n \<Rightarrow> False | Accept l \<Rightarrow> False
      | Send fd b f \<Rightarrow> False | Write fd b \<Rightarrow> False | _ \<Rightarrow> True)"
| "cli_event addr ev = True"

definition cli_inv :: "sockaddr_in \<Rightarrow> event list \<Rightarrow> ptr \<Rightarrow> int \<Rightarrow> 'z cli_scheme \<Rightarrow> bool" where
  "cli_inv addr tr h ep s \<longleftrightarrow> handler_on h ep s \<and> c_handler s = h \<and> h \<in> allocated (trace s) \<and> extends (cli_event addr) tr (trace s)"

lemma cli_inv_stable: "poll_stable h ep (cli_inv addr tr h ep)"
  by (auto simp: poll_stable_def cli_inv_def handler_on_def extends_more)

text \<open>Any end, as long as only such events happened; and a return comes right after \<open>close(0)\<close>.\<close>

abbreviation only :: "sockaddr_in \<Rightarrow> event list \<Rightarrow> 'z cli_scheme \<Rightarrow> bool" where
  "only addr tr s \<equiv> extends (cli_event addr) tr (trace s)"

abbreviation cli_ends :: "sockaddr_in \<Rightarrow> event list \<Rightarrow> ('z cli_scheme \<Rightarrow> bool) \<Rightarrow> 'a outcome \<Rightarrow> 'z cli_scheme \<Rightarrow> bool" where
  "cli_ends addr tr I \<equiv> ends I (\<lambda>n s. n = 1 \<and> only addr tr s) (\<lambda>e s. only addr tr s) (only addr tr)"

definition just_closed :: "'z cli_scheme \<Rightarrow> bool" where
  "just_closed s \<longleftrightarrow> (\<exists>tr q. trace s = tr @ [Call (Close 0) q])"

lemma cli_ends_wp:
  fixes s :: "'z cli_scheme"
  assumes "cli_inv addr tr h ep s"
  shows "wp (cli_disconnect K) (cli_ends addr tr (\<lambda>s. cli_inv addr tr h ep s \<and> just_closed s)) s"
    "wp (cli_fatal :: ('z cli_scheme, 'a) prog) (cli_ends addr tr I) s"
  using assms unfolding cli_disconnect_def cli_fatal_def epoll_handler_remove_def flat_simps
  by (intro wp_intros; fastforce simp: cli_inv_def handler_on_def extends_more just_closed_def)+

lemma processQuekkaData_wp:
  fixes s :: "'z cli_scheme"
  assumes "cli_inv addr tr h ep s"
  shows "wp (processQuekkaData p) (cli_ends addr tr (\<lambda>s'. cli_inv addr tr h ep s' \<and> heap s' = heap s)) s"
  using assms unfolding processQuekkaData_def buffer_string_def Let_def flat_simps
  by (intro wp_intros) (auto simp: cli_inv_def handler_on_def extends_more)

lemma cli_free_wp:
  fixes s :: "'z cli_scheme"
  assumes "cli_inv addr tr h ep s" and "p \<noteq> h"
  shows "wp (free_c K p) (cli_ends addr tr (cli_inv addr tr h ep)) s"
  using assms by (intro wp_intros) (auto simp: cli_inv_def handler_on_def extends_more)

text \<open>Steps that keep the invariant, with the state after them left abstract.\<close>

lemma cli_steps:
  fixes s :: "'z cli_scheme"
  assumes "cli_inv addr tr h ep s"
  shows "(\<And>r s'. cli_inv addr tr h ep s' \<Longrightarrow> wp (f r) Q s') \<Longrightarrow> wp (bind_c (sys K (Recv 0 n fl)) f) Q s"
    "(\<And>s'. cli_inv addr tr h ep s' \<Longrightarrow> wp (g ()) Q s') \<Longrightarrow> wp (bind_c (log_call l u as) g) Q s"
    "p \<noteq> h \<Longrightarrow> (\<And>s'. cli_inv addr tr h ep s' \<Longrightarrow> wp (g ()) Q s') \<Longrightarrow> wp (bind_c (store p v) g) Q s"
  using assms by (auto intro!: wp_intros simp: cli_inv_def handler_on_def extends_more)

lemma cli_alloc:
  fixes s :: "'z cli_scheme"
  assumes "cli_inv addr tr h ep s" and "malloc_fresh K"
    and "\<And>s'. cli_inv addr tr h ep s' \<Longrightarrow> wp (f 0) Q s'" and "\<And>p s'. cli_inv addr tr h ep s' \<Longrightarrow> p \<noteq> 0 \<Longrightarrow> p \<noteq> h \<Longrightarrow> wp (f p) Q s'"
  shows "wp (bind_c (alloc_c K m v) f) Q s"
proof -
  have "ptr_of (K (trace s) (Malloc m)) \<noteq> h" using assms(1,2) by (metis malloc_fresh_def cli_inv_def)
  then show ?thesis using assms(1,3,4)
    by (intro wp_intros) (auto simp: cli_inv_def handler_on_def extends_more)
qed

lemma cli_receive_wp:
  fixes s :: "'z cli_scheme"
  assumes "malloc_fresh K" and "cli_inv addr tr h ep s"
  shows "wp (cli_receive K n hb) (cli_ends addr tr (\<lambda>s. cli_inv addr tr h ep s \<and> just_closed s)) s"
  using assms(2)
proof (induction n arbitrary: s hb)
  case 0
  then show ?case by (simp add: wp_def run_simps cli_inv_def)
next
  case (Suc n)
  let ?Q = "cli_ends addr tr (\<lambda>s :: 'z cli_scheme. cli_inv addr tr h ep s \<and> just_closed s)"
  have only: "only addr tr s'" if "cli_inv addr tr h ep s'" for s' :: "'z cli_scheme" using that by (simp add: cli_inv_def)
  have rest: "wp (bind_c (processQuekkaData p) (\<lambda>_. bind_c (free_c K p) (\<lambda>_. cli_receive K n hb))) ?Q s'"
    if "cli_inv addr tr h ep s'" "p \<noteq> h" for p hb and s' :: "'z cli_scheme"
    by (rule ends_bind [OF processQuekkaData_wp [OF that(1)]], elim conjE, rule ends_bind [OF cli_free_wp])
      (use that(2) Suc.IH in auto)
  show ?case
    unfolding cli_receive.simps Let_def flat_simps
    by (rule cli_steps(1) [OF Suc.prems], intro wp_if wp_option wp_require cli_ends_wp cli_steps cli_alloc [OF _ assms(1)] wp_load rest wp_leaf)
      (auto simp: only)
qed

lemma cli_callback_wp:
  fixes s :: "'z cli_scheme"
  assumes "malloc_fresh K" and "cli_inv addr tr h ep s"
  shows "wp (cli_callback_fn K n p ev 0) (cli_ends addr tr (\<lambda>s. cli_inv addr tr h ep s \<and> just_closed s)) s"
  unfolding cli_callback_fn_def flat_simps
  by (rule cli_steps(2) [OF assms(2)]) (rule cli_receive_wp [OF assms(1)])

lemma cli_loop_wp:
  fixes s :: "'z cli_scheme"
  assumes "malloc_fresh K" and "poll_fits K" and "cli_inv addr tr h ep s"
  shows "wp (cli_loop K m n) (cli_ends addr tr (cli_inv addr tr h ep)) s"
  using assms(3)
proof (induction n arbitrary: s)
  case 0
  then show ?case by (simp add: wp_def run_simps cli_inv_def)
next
  case (Suc n)
  have cb: "wp (cli_callback_fn K m p ev 0) (cli_ends addr tr (cli_inv addr tr h ep)) s1"
    if "cli_inv addr tr h ep s1" for p ev and s1 :: "'z cli_scheme"
  proof (rule wp_mono [OF cli_callback_wp [OF assms(1) that]])
    fix r :: "unit outcome" and s' :: "'z cli_scheme"
    assume "cli_ends addr tr (\<lambda>s. cli_inv addr tr h ep s \<and> just_closed s) r s'"
    then show "cli_ends addr tr (cli_inv addr tr h ep) r s'" by (cases r) auto
  qed
  have "wp (epoll_handler_wait K h (-1) (Some (cli_callback_fn K m)) 0) (cli_ends addr tr (cli_inv addr tr h ep)) s"
    by (rule epoll_wait_ends [where ep = ep]) (use assms(2) Suc.prems cli_inv_stable cb in auto)
  then have "wp (bind_c (epoll_handler_wait K h (-1) (Some (cli_callback_fn K m)) 0)
      (\<lambda>ret. if ret = -1 then return_c () else cli_loop K m n)) (cli_ends addr tr (cli_inv addr tr h ep)) s"
  proof (rule ends_bind)
    fix ret :: int and s' :: "'z cli_scheme"
    assume "cli_inv addr tr h ep s'"
    from Suc.IH [OF this] this
    show "wp (if ret = -1 then return_c () else cli_loop K m n) (cli_ends addr tr (cli_inv addr tr h ep)) s'"
      by (cases "ret = -1") (simp_all add: wp_def run_simps)
  qed
  moreover have "c_handler s = h" using Suc.prems by (simp add: cli_inv_def)
  ultimately show ?case by (simp add: wp_def run_simps)
qed

lemma cli_option_loop_wp:
  fixes s :: "'z cli_scheme"
  assumes "\<forall>c a. Opt c a \<in> set rs \<longrightarrow> c = CHR ''i'' \<or> c = CHR ''p''"
    and "extends (cli_event addr) tr (trace s)" and "c_ip s = ip"
  shows "wp (cli_option_loop program rs) (\<lambda>r s'. extends (cli_event addr) tr (trace s') \<and>
    (r = Ret (-1) \<or> r = Fault Bad_arguments \<or>
     r = Ret 0 \<and> c_ip s' = ip \<and> c_port s' = (case last_opt (CHR ''p'') rs of None \<Rightarrow> c_port s | Some a \<Rightarrow> c_atoi (oa_text a)))) s"
  using assms
proof (induction rs arbitrary: s)
  case Nil
  then show ?case by (simp add: wp_def run_simps)
next
  case (Cons r rs)
  show ?case
  proof (cases r)
    case (Opt c a)
    then have c: "c = CHR ''i'' \<or> c = CHR ''p''" and rs: "\<forall>c a. Opt c a \<in> set rs \<longrightarrow> c = CHR ''i'' \<or> c = CHR ''p''"
      using Cons.prems(1) by auto
    let ?s = "s\<lparr>c_port := c_atoi (oa_text a), trace := trace s @ [Logged LOG_INFO ''Port set to: %d'' [Int_arg (c_atoi (oa_text a))]]\<rparr>"
    have "extends (cli_event addr) tr (trace ?s)" "c_ip ?s = ip" using Cons.prems(2,3) by (simp_all add: extends_more)
    from Cons.IH [OF rs this] show ?thesis
      using c Opt Cons.prems(2) by (auto simp: wp_def run_simps split: option.splits)
  qed (use Cons.prems(2) in \<open>simp add: wp_def run_simps extends_more\<close>)
qed

definition cli_post :: "sockaddr_in \<Rightarrow> event list \<Rightarrow> int outcome \<Rightarrow> 'z cli_scheme \<Rightarrow> bool" where
  "cli_post addr tr r s \<longleftrightarrow> extends (cli_event addr) tr (trace s) \<and> (r = Ret 0 \<or> r = Exit 1 \<or> r = Out_of_fuel \<or> (\<exists>e. r = Fault e))"

lemma cli_polls_wp:
  fixes s :: "'z cli_scheme"
  assumes "extends (cli_event addr) tr (trace s)"
  shows "wp (epoll_handler_create K) (\<lambda>r s'. extends (cli_event addr) tr (trace s') \<and>
    (r = Ret 0 \<or> (\<exists>h ep. r = Ret h \<and> handler_on h ep s' \<and> h \<in> allocated (trace s')))) s"
  using assms unfolding epoll_handler_create_def flat_simps
  by (intro wp_intros) (auto simp: handler_on_def extends_more)

lemma cli_serves_wp:
  fixes s :: "'z cli_scheme"
  assumes "malloc_fresh K" and "poll_fits K" and "cli_inv addr tr h ep s"
  shows "wp (bind_c (epoll_handler_add K h fd 0 EPOLLIN) (\<lambda>_. bind_c (socket_connect K addr fd) (\<lambda>_.
      bind_c (cli_loop K m n) (\<lambda>_. bind_c (log_call LOG_ERROR t []) (\<lambda>_. return_c 0))))) (cli_post addr tr) s"
proof -
  have loop: "wp (bind_c (cli_loop K m n) (\<lambda>_. bind_c (log_call LOG_ERROR t []) (\<lambda>_. return_c 0))) (cli_post addr tr) s1"
    if "cli_inv addr tr h ep s1" for s1
    by (rule wp_bind [OF cli_loop_wp [OF assms(1,2) that]])
      (auto simp: cli_inv_def cli_post_def wp_def run_simps extends_more)
  show ?thesis
    using assms(3) unfolding epoll_handler_add_def socket_connect_def fail_exit_def flat_simps
    by (intro loop wp_intros) (auto simp: cli_inv_def cli_post_def handler_on_def extends_more)
qed

definition cli_ready :: "sockaddr_in \<Rightarrow> event list \<Rightarrow> 'z cli_scheme \<Rightarrow> bool" where
  "cli_ready addr tr s \<longleftrightarrow> only addr tr s \<and> socket_set_server_address (c_ip s) (c_port s) = addr"

lemma cli_ready_bind:
  fixes s :: "'z cli_scheme"
  assumes "cli_ready addr tr s"
  shows "(\<And>fd s'. cli_ready addr tr s' \<Longrightarrow> wp (f fd) Q s') \<Longrightarrow> wp (bind_c (socket_init K) f) Q s"
    and "(\<And>s'. only addr tr s' \<Longrightarrow> wp (g addr) Q s') \<Longrightarrow>
      wp (bind_c (get_c (\<lambda>s. (c_ip s, c_port s))) (\<lambda>(ip, port). g (socket_set_server_address ip port))) Q s"
  using assms unfolding socket_init_def flat_simps
  by (intro wp_intros; auto simp: cli_ready_def extends_more)+

lemma cli_start_wp:
  fixes s :: "'z cli_scheme"
  assumes "malloc_fresh K" and "poll_fits K" and "only addr tr s"
  shows "wp (bind_c (epoll_handler_create K) (\<lambda>h. bind_c (modify_c (\<lambda>s. s\<lparr>c_handler := h\<rparr>)) (\<lambda>_.
      if h = 0 then bind_c (log_call LOG_ERROR u []) (\<lambda>_. exit_c 1)
      else bind_c (epoll_handler_add K h fd 0 EPOLLIN) (\<lambda>_. bind_c (socket_connect K addr fd) (\<lambda>_.
      bind_c (cli_loop K m n) (\<lambda>_. bind_c (log_call LOG_ERROR t []) (\<lambda>_. return_c 0))))))) (cli_post addr tr) s"
proof (rule wp_bind [OF cli_polls_wp [OF assms(3)]])
  fix h and s1 :: "'z cli_scheme"
  assume "only addr tr s1 \<and> (Ret h = Ret 0 \<or> (\<exists>h' ep. Ret h = Ret h' \<and> handler_on h' ep s1 \<and> h' \<in> allocated (trace s1)))"
  then consider "h = 0" "only addr tr s1" | ep where "h \<noteq> 0" "cli_inv addr tr h ep (s1\<lparr>c_handler := h\<rparr>)"
    by (auto simp: cli_inv_def handler_on_def)
  then show "wp (bind_c (modify_c (\<lambda>s. s\<lparr>c_handler := h\<rparr>)) (\<lambda>_.
      if h = 0 then bind_c (log_call LOG_ERROR u []) (\<lambda>_. exit_c 1)
      else bind_c (epoll_handler_add K h fd 0 EPOLLIN) (\<lambda>_. bind_c (socket_connect K addr fd) (\<lambda>_.
      bind_c (cli_loop K m n) (\<lambda>_. bind_c (log_call LOG_ERROR t []) (\<lambda>_. return_c 0)))))) (cli_post addr tr) s1"
  proof cases
    case 1
    then show ?thesis by (auto simp: wp_def run_simps cli_post_def extends_more)
  next
    case 2
    show ?thesis
      by (rule wp_leaf_bind(2), rule wp_if, use 2(1) in simp, rule cli_serves_wp [OF assms(1,2) 2(2)])
  qed
qed auto

lemma cli_main_wp:
  fixes s :: "'z cli_scheme"
  assumes "malloc_fresh K" and "poll_fits K"
    and "port = (case last_opt (CHR ''p'') (getopt_results ''ip'' 1 (drop 1 argv)) of None \<Rightarrow> c_port s | Some a \<Rightarrow> c_atoi (oa_text a))"
  shows "wp (cli_main K m n argv) (cli_post (socket_set_server_address (c_ip s) port) (trace s)) s"
proof -
  let ?addr = "socket_set_server_address (c_ip s) port"
  have opts: "\<forall>c a. Opt c a \<in> set (getopt_results ''ip'' 1 (drop 1 argv)) \<longrightarrow> c = CHR ''i'' \<or> c = CHR ''p''"
    using getopt_results_opts [of _ _ "''ip''" 1 "drop 1 argv"] by auto
  have ext: "extends (cli_event ?addr) (trace s) (trace s)" by simp
  have log: "only addr tr s' \<Longrightarrow> wp (bind_c (log_call LOG_ERROR u []) (\<lambda>_. exit_c 1)) (cli_post addr tr) s'"
    for u addr tr and s' :: "'z cli_scheme"
    by (simp add: wp_def run_simps cli_post_def extends_more)
  have only: "only ?addr (trace s) s'" if "cli_ready ?addr (trace s) s'" for s' :: "'z cli_scheme"
    using that by (simp add: cli_ready_def)
  show ?thesis
    unfolding cli_main_def cli_processArgs_def flat_simps Let_def
    by (rule wp_bind [OF cli_option_loop_wp [OF opts ext refl, folded assms(3)]])
      (auto simp: cli_post_def cli_ready_def intro!: wp_if wp_leaf cli_ready_bind cli_start_wp [OF assms(1,2)] log only)
qed

section \<open>One message\<close>

text \<open>What the calls that read one message answer.\<close>

definition cli_gets :: "kernel \<Rightarrow> event list \<Rightarrow> char list \<Rightarrow> char list \<Rightarrow> nat \<Rightarrow> ptr \<Rightarrow> char list \<Rightarrow> bool" where
  "cli_gets K tr hb b len p d \<longleftrightarrow>
     (let tr1 = tr @ [Call (Recv 0 152 Msg_dontwait) (Bytes b), Logged LOG_INFO ''Quekka's Body Payload Len [%d]'' [Int_arg (int len)]];
          tr2 = tr1 @ [Call (Malloc (len + 1)) (K tr1 (Malloc (len + 1)))] in
      length hb = 154 \<and> b \<noteq> [] \<and> length b \<le> 152 \<and> len = unat (of_le16 (drop 148 (b @ drop (length b) hb))) \<and>
      K tr (Recv 0 152 Msg_dontwait) = Bytes b \<and>
      ptr_of (K tr1 (Malloc (len + 1))) = p \<and> p \<noteq> 0 \<and>
      K tr2 (Recv 0 (len - 1) Msg_waitall) = Bytes d \<and> d \<noteq> [] \<and> length d \<le> len - 1)"

text \<open>The text of a body buffer that was cleared for nine bytes and then received \<open>d\<close>.\<close>

lemma takeWhile_map_Some: "takeWhile (\<lambda>x. x \<noteq> Some NUL) (map Some d) = map Some (takeWhile (\<lambda>x. x \<noteq> NUL) d)"
  by (induction d) auto

lemma buffer_string_run:
  shows "NUL \<in> set d \<Longrightarrow> buffer_string (map Some d @ w) s = (Ret (takeWhile (\<lambda>x. x \<noteq> NUL) d), s)"
    and "NUL \<notin> set d \<Longrightarrow> buffer_string (map Some d @ Some NUL # w) s = (Ret d, s)"
    and "NUL \<notin> set d \<Longrightarrow> buffer_string (map Some d @ None # w) s = (Fault Uninitialised, s)"
proof -
  assume nul: "NUL \<in> set d"
  then have "Some NUL \<in> set (map Some d)" by simp
  then have t: "takeWhile (\<lambda>x. x \<noteq> Some NUL) (map Some d @ w) = map Some (takeWhile (\<lambda>x. x \<noteq> NUL) d)"
    using takeWhile_map_Some by (subst takeWhile_append1) auto
  moreover have "length (takeWhile (\<lambda>x. x \<noteq> NUL) d) < length d" using nul by (intro length_takeWhile_less) auto
  ultimately show "buffer_string (map Some d @ w) s = (Ret (takeWhile (\<lambda>x. x \<noteq> NUL) d), s)"
    by (auto simp: buffer_string_def run_simps Let_def comp_def)
next
  assume "NUL \<notin> set d"
  then have t: "takeWhile (\<lambda>x. x \<noteq> Some NUL) (map Some d @ w) = map Some d @ takeWhile (\<lambda>x. x \<noteq> Some NUL) w" for w
    by (subst takeWhile_append2) auto
  show "buffer_string (map Some d @ Some NUL # w) s = (Ret d, s)"
    and "buffer_string (map Some d @ None # w) s = (Fault Uninitialised, s)"
    by (simp_all add: buffer_string_def run_simps Let_def t comp_def)
qed

lemma drop_cleared:
  assumes "n < 9 + m"
  shows "drop n (replicate 9 (Some NUL) @ replicate m None) =
    (if n < 9 then Some NUL # replicate (8 - n) (Some NUL) @ replicate m None else None # replicate (8 + m - n) None)"
proof (cases "n < 9")
  case True
  then have "9 - n = Suc (8 - n)" by simp
  then show ?thesis using True by (simp only: drop_append drop_replicate replicate_Suc length_replicate) simp
next
  case False
  then have "m - (n - 9) = Suc (8 + m - n)" using assms by simp
  then show ?thesis using False by (simp only: drop_append drop_replicate replicate_Suc length_replicate) simp
qed

lemma buffer_string_received:
  assumes "v = map Some d @ drop (length d) (replicate 9 (Some NUL) @ replicate m None)" and "length d < 9 + m"
  shows "buffer_string v s = ((if NUL \<in> set d \<or> length d < 9 then Ret (takeWhile (\<lambda>x. x \<noteq> NUL) d) else Fault Uninitialised), s)"
proof (cases "NUL \<in> set d")
  case True
  then show ?thesis unfolding assms(1) by (simp only: buffer_string_run(1) simp_thms if_True)
next
  case False
  then have "takeWhile (\<lambda>x. x \<noteq> NUL) d = d" by auto
  then show ?thesis using False unfolding assms(1) drop_cleared [OF assms(2)]
    by (auto simp only: buffer_string_run(2,3) [OF False] simp_thms if_True if_False split: if_splits)
qed

lemma cli_gets_short:
  fixes s :: "'z cli_scheme"
  assumes "cli_gets K (trace s) hb b len p d" and "len < 8"
  shows "fst (cli_receive K (Suc n) hb s) = Fault Out_of_bounds"
  using assms by (auto simp: cli_gets_def run_simps QUEKKA_HEADER_SIZE_def c_memcpy_def Let_def alloc_c_def)

lemma processQuekkaData_run:
  fixes s :: "'z cli_scheme"
  assumes "p \<noteq> 0" and "heap s p = Some (Buffer v)" and "buffer_string v s = (Ret u, s)"
  shows "processQuekkaData p s = (Ret 0, s\<lparr>trace := trace s @ [Logged LOG_INFO ''Quekka data: %s'' [Str_arg u]]\<rparr>)"
  using assms by (simp add: processQuekkaData_def run_simps)

text \<open>Up to the received body in its buffer.\<close>

lemma cli_body_received:
  fixes s :: "'z cli_scheme"
  assumes g: "cli_gets K (trace s) hb b len p d" and "8 \<le> len"
  defines "v \<equiv> map Some d @ drop (length d) (replicate 9 (Some NUL) @ replicate (len - 8) None)"
  shows "\<exists>s1. cli_receive K (Suc n) hb s =
      bind_c (processQuekkaData p) (\<lambda>_. then_c (free_c K p) (cli_receive K n (b @ drop (length b) hb))) s1 \<and>
    (\<exists>q. trace s1 = trace s @ [Call (Recv 0 152 Msg_dontwait) (Bytes b),
      Logged LOG_INFO ''Quekka's Body Payload Len [%d]'' [Int_arg (int len)], Call (Malloc (len + 1)) q,
      Call (Recv 0 (len - 1) Msg_waitall) (Bytes d)]) \<and>
    heap s1 = (heap s)(p \<mapsto> Buffer v)"
proof -
  have r: "replicate (len + 1) None = replicate 9 None @ replicate (len - 8) (None :: char option)"
    using assms(2) by (simp add: replicate_add [symmetric])
  define W where "W = replicate 9 (Some NUL) @ replicate (len - 8) (None :: char option)"
  have v0: "replicate 9 (Some NUL) @ drop 9 (replicate (Suc len) None) = W" "length W = Suc len"
    using r assms(2) by (simp_all add: W_def del: replicate.simps)
  have v: "v = map Some d @ drop (length d) W" by (simp only: v_def W_def)
  note g = g [unfolded cli_gets_def Let_def]
  have "length b \<le> 152" "length d \<le> len - 1" using g by blast+
  then have le: "length b \<le> 154" "length d \<le> Suc len" by simp_all
  have f: "length hb = 154" "b \<noteq> []" "K (trace s) (Recv 0 152 Msg_dontwait) = Bytes b" "p \<noteq> 0" "d \<noteq> []" using g by blast+
  have len: "len = unat (of_le16 (drop 148 (b @ drop (length b) hb)))" using g by blast
  have "QUEKKA_HEADER_SIZE - Suc 0 = 152" "uint (of_le16 (drop 148 (b @ drop (length b) hb))) = int len"
    by (simp add: QUEKKA_HEADER_SIZE_def) (simp only: len, simp)
  note f = this f le len [symmetric]
  note calls = g [simplified append_assoc append_Cons append_Nil]
  show ?thesis
    unfolding cli_receive.simps then_c_def
    using calls assms(2) by (simp add: run_simps f c_memcpy_def alloc_c_def v0 v Let_def del: replicate.simps drop_append drop_drop drop_replicate)
      (intro exI conjI, rule refl, simp_all)
qed
section \<open>Properties\<close>

text \<open>The static variables as the process starts with them.\<close>

definition cli_start :: cli where
  "cli_start = \<lparr>trace = [], errno = 0, heap = Map.empty, c_ip = ''127.0.0.1'', c_port = 9999, c_handler = 0\<rparr>"

text \<open>
  C26. The command line client works on standard input instead of the socket it connects. Whatever the kernel answers, it
  connects to the configured address only, receives from descriptor 0 only and sends nothing; it ends
  with result 0, with \<open>exit(1)\<close> or in undefined behaviour (or its loops go on beyond the bound). So
  unless \<open>socket\<close> answers 0, the connected socket is never read.
\<close>

theorem cli_reads_stdin:
  fixes s :: "'z cli_scheme"
  assumes "malloc_fresh K" and "poll_fits K" and "cli_main K m n argv s = (r, s')"
  shows "(r = Ret 0 \<or> r = Exit 1 \<or> r = Out_of_fuel \<or> (\<exists>e. r = Fault e)) \<and>
    extends (cli_event (socket_set_server_address (c_ip s)
        (case last_opt (CHR ''p'') (getopt_results ''ip'' 1 (drop 1 argv)) of None \<Rightarrow> c_port s | Some a \<Rightarrow> c_atoi (oa_text a))))
      (trace s) (trace s')"
  using wpD [OF cli_main_wp [OF assms(1,2) refl] assms(3)] by (auto simp: cli_post_def)

text \<open>
  The client survives an event only by closing descriptor 0: the callback returns exactly when
  the peer ended the stream, and otherwise ends the program, because \<open>EAGAIN\<close>, which a
  non-blocking receive answers once the queued messages are read, is treated as fatal.
\<close>

theorem cli_callback_ends:
  fixes s :: "'z cli_scheme"
  assumes "malloc_fresh K" and "handler_on h ep s" and "c_handler s = h" and "h \<in> allocated (trace s)"
    and "cli_callback_fn K n p ev 0 s = (r, s')"
  shows "(r = Ret () \<longrightarrow> just_closed s') \<and> (\<forall>c. r = Exit c \<longrightarrow> c = 1)"
proof -
  have "cli_inv addr (trace s) h ep s" for addr using assms(2-4) by (simp add: cli_inv_def)
  from wpD [OF cli_callback_wp [OF assms(1) this] assms(5)] show ?thesis by (cases r) auto
qed

text \<open>
  C25. What the client makes of one message, when its header (or the part of it that arrived)
  and its body are received. A \<open>payload_len\<close> below 8 overflows the body buffer, because nine
  bytes are cleared whatever its size; otherwise the text up to the first NUL is logged, the
  buffer freed and the next header awaited, except that nine bytes or more without a NUL are
  read on into memory that was never set.
\<close>

theorem cli_message:
  fixes s :: "'z cli_scheme"
  assumes "cli_gets K (trace s) hb b len p d"
  shows "(len < 8 \<longrightarrow> fst (cli_receive K (Suc n) hb s) = Fault Out_of_bounds) \<and>
    (8 \<le> len \<and> NUL \<notin> set d \<and> 9 \<le> length d \<longrightarrow> fst (cli_receive K (Suc n) hb s) = Fault Uninitialised) \<and>
    (8 \<le> len \<and> (NUL \<in> set d \<or> length d < 9) \<longrightarrow>
      (\<exists>s' q f. cli_receive K (Suc n) hb s = cli_receive K n (b @ drop (length b) hb) s' \<and>
        trace s' = trace s @ [Call (Recv 0 152 Msg_dontwait) (Bytes b),
          Logged LOG_INFO ''Quekka's Body Payload Len [%d]'' [Int_arg (int len)], Call (Malloc (len + 1)) q,
          Call (Recv 0 (len - 1) Msg_waitall) (Bytes d),
          Logged LOG_INFO ''Quekka data: %s'' [Str_arg (takeWhile (\<lambda>x. x \<noteq> NUL) d)], Call (Free p) f] \<and>
        heap s' = (heap s)(p := None)))"
proof (cases "len < 8")
  case True
  then show ?thesis using cli_gets_short [OF assms True] by simp
next
  case False
  then have le: "8 \<le> len" by simp
  define v where "v = map Some d @ drop (length d) (replicate 9 (Some NUL) @ replicate (len - 8) None)"
  obtain s1 q where run: "cli_receive K (Suc n) hb s =
      bind_c (processQuekkaData p) (\<lambda>_. then_c (free_c K p) (cli_receive K n (b @ drop (length b) hb))) s1"
    and tr: "trace s1 = trace s @ [Call (Recv 0 152 Msg_dontwait) (Bytes b),
      Logged LOG_INFO ''Quekka's Body Payload Len [%d]'' [Int_arg (int len)], Call (Malloc (len + 1)) q,
      Call (Recv 0 (len - 1) Msg_waitall) (Bytes d)]"
    and hp: "heap s1 = (heap s)(p \<mapsto> Buffer v)"
    using cli_body_received [OF assms le] unfolding v_def by blast
  have g: "length d \<le> len - 1" "p \<noteq> 0" using assms by (auto simp: cli_gets_def Let_def)
  then have "length d < 9 + (len - 8)" using le by simp
  note read = buffer_string_received [OF v_def this, of s1]
  show ?thesis
  proof (cases "NUL \<in> set d \<or> length d < 9")
    case True
    with read processQuekkaData_run [OF g(2), of s1 v] hp
    have "processQuekkaData p s1 =
        (Ret 0, s1\<lparr>trace := trace s1 @ [Logged LOG_INFO ''Quekka data: %s'' [Str_arg (takeWhile (\<lambda>x. x \<noteq> NUL) d)]]\<rparr>)" by simp
    moreover obtain f s2 where "free_c K p (s1\<lparr>trace := trace s1 @ [Logged LOG_INFO ''Quekka data: %s'' [Str_arg (takeWhile (\<lambda>x. x \<noteq> NUL) d)]]\<rparr>) = (Ret (), s2)"
      and s2: "trace s2 = trace s1 @ [Logged LOG_INFO ''Quekka data: %s'' [Str_arg (takeWhile (\<lambda>x. x \<noteq> NUL) d)], Call (Free p) f]"
        "heap s2 = (heap s)(p := None)"
      using free_exact [where K = K and p = p and s = "s1\<lparr>trace := trace s1 @ [Logged LOG_INFO ''Quekka data: %s'' [Str_arg (takeWhile (\<lambda>x. x \<noteq> NUL) d)]]\<rparr>"] hp by auto
    ultimately have "cli_receive K (Suc n) hb s = cli_receive K n (b @ drop (length b) hb) s2"
      unfolding run by (simp add: run_simps del: cli_receive.simps)
    with True le s2 tr show ?thesis by auto
  next
    case False
    with read have "fst (cli_receive K (Suc n) hb s) = Fault Uninitialised"
      unfolding run using hp g(2) by (simp add: processQuekkaData_def run_simps)
    then show ?thesis using False le by auto
  qed
qed

definition one_message_kernel :: kernel where
  "one_message_kernel tr c =
     (case c of
        Recv fd n f \<Rightarrow> Bytes (case f of Msg_dontwait \<Rightarrow> replicate 148 NUL @ le16 11 @ replicate 2 NUL | _ \<Rightarrow> ''hello'')
      | _ \<Rightarrow> sample_kernel tr c)"

theorem cli_reads_stdin_witness:
  "\<exists>r s'. cli_main sample_kernel 3 3 [''quekka-cli''] cli_start = (r, s') \<and>
     extends (cli_event (socket_set_server_address ''127.0.0.1'' 9999)) [] (trace s')"
proof -
  obtain r s' where run: "cli_main sample_kernel 3 3 [''quekka-cli''] cli_start = (r, s')" by fastforce
  from cli_reads_stdin [OF sample_malloc_fresh sample_poll_fits run] run show ?thesis
    by (auto simp: cli_start_def getopt_results.simps)
qed

theorem cli_message_witness:
  "\<exists>s'. cli_receive one_message_kernel (Suc 2) (replicate 154 NUL) cli_start =
      cli_receive one_message_kernel 2 (replicate 148 NUL @ le16 11 @ replicate 2 NUL @ replicate 2 NUL) s' \<and>
    Logged LOG_INFO ''Quekka data: %s'' [Str_arg ''hello''] \<in> set (trace s')"
proof -
  have "cli_gets one_message_kernel (trace cli_start) (replicate 154 NUL) (replicate 148 NUL @ le16 11 @ replicate 2 NUL) 11 4160 ''hello''"
    by (simp add: cli_gets_def Let_def one_message_kernel_def sample_kernel_def ptr_of_def cli_start_def)
  from cli_message [OF this, of 2] show ?thesis by (auto simp del: cli_receive.simps)
qed

definition cli_polling :: cli where
  "cli_polling = cli_start\<lparr>trace := [Call (Malloc 784) (Val 4160)], c_handler := 4160,
     heap := [4160 \<mapsto> Handler \<lparr>eh_epoll_fd = 3, eh_events = replicate 64 (0, 0)\<rparr>]\<rparr>"

theorem cli_callback_ends_witness:
  "\<exists>r s'. cli_callback_fn sample_kernel 3 0 EPOLLIN 0 cli_polling = (r, s') \<and> r \<noteq> Ret () \<and> (\<forall>c. r = Exit c \<longrightarrow> c = 1)"
proof -
  obtain r s' where run: "cli_callback_fn sample_kernel 3 0 EPOLLIN 0 cli_polling = (r, s')" by fastforce
  have "\<not> just_closed s'" using run
    by (auto simp: cli_callback_fn_def numeral_3_eq_3 run_simps cli_polling_def cli_start_def sample_kernel_def cli_fatal_def just_closed_def)
  moreover have "handler_on 4160 3 cli_polling" "c_handler cli_polling = 4160" "4160 \<in> allocated (trace cli_polling)"
    by (simp_all add: handler_on_def cli_polling_def EPOLL_MAX_EVENTS_def allocated_def ptr_of_def)
  from cli_callback_ends [OF sample_malloc_fresh this run] run calculation show ?thesis by auto
qed

end
