(* ===== verification/Spec2Isabelle.thy ===== *)
theory Spec2Isabelle
  imports Server_Traffic Quekka_Producer Quekka_Log_Threads Quekka_Quecode Quekka_Message Quekka_Config
    Delivery Quekka_Mdb Quekka_Server_Cpp Quekka_Cli
begin

text \<open>
  A verification library for Quekka, a small message broker in C and C++: a producer that cuts
  payloads into fixed-size frames, a socket server driven by epoll, two server programs, a command
  line client, and the parts they share.

  \<^bold>\<open>How programs are modelled.\<close> A C function is a state-passing function (\<open>prog\<close> in
  \<open>Prelude\<close>) that returns (\<open>Ret\<close>), calls \<open>exit\<close> (\<open>Exit\<close>), runs into undefined behaviour
  (\<open>Fault\<close>, with the kind: null pointer, dangling pointer, access out of bounds, missing
  terminator, uninitialised read, bad arguments, deadlock) or runs out of the fuel a loop was given. Integers
  whose width matters are words. Strings are the buffers the pointers point into, and every access is
  checked against them (\<open>Clib\<close>: \<open>strlen\<close>, \<open>strncpy\<close>, \<open>memcpy\<close>, \<open>memset\<close>, \<open>atoi\<close>,
  \<open>strftime\<close>, \<open>htons\<close>; \<open>Getopt\<close>: \<open>getopt\<close>). The operating system is a parameter
  \<open>K\<close> of type \<open>kernel\<close> (\<open>Kernel\<close>): any function from what happened so far and the next call to a
  reply; calls, their replies and log calls are recorded in a trace, from which the
  open descriptors, those in non-blocking mode, allocated addresses and bytes sent are computed. Theorems hold for every \<open>K\<close>, up
  to documented facts such as that \<open>malloc\<close> answers a fresh address (\<open>malloc_fresh\<close>) and \<open>epoll_wait\<close> no more
  events than asked for (\<open>poll_fits\<close>); \<open>sample_kernel\<close> satisfies them. Objects behind pointers
  (\<open>Heap\<close>) live in a store from addresses to tagged objects; a freed address is dangling.

  \<^bold>\<open>The parts\<close>, with their files under \<^verbatim>\<open>src/\<close> (headers under \<^verbatim>\<open>include/quekka\<close> and
  \<^verbatim>\<open>src/internal\<close>) and their theories:
  \<^item> Message format, \<^verbatim>\<open>Quekka_message.h\<close>: \<open>Quekka_Message\<close>. The packed structs as records with their memory image;
    the locale \<open>fixed_codec\<close> says what cutting a stream into records needs and gives.
  \<^item> Error codes, \<^verbatim>\<open>Quekka_quecode.c\<close>: \<open>Quekka_Quecode\<close>, with the locale \<open>thread_cell\<close> for
    thread-local variables, which the producer pointer instantiates too.
  \<^item> Configuration, \<^verbatim>\<open>Quekka_config.c\<close>: \<open>Quekka_Config\<close>. The address scan and the setters write into a 16-byte array.
  \<^item> Logger, \<^verbatim>\<open>Quekka_log.c\<close>: \<open>Quekka_Log\<close>. Its world is the logger, the mutex, the console and the files; a
    \<open>va_list\<close> is used up by the first \<open>vfprintf\<close>. \<open>Quekka_Log_Threads\<close> cuts its operations into the steps between lock and
    unlock, with the level test before them, and runs them in any number of threads; \<open>Monitor\<close> holds the step relation and the
    locales \<open>monitor\<close> and \<open>steady_monitor\<close>: what a mutex needs to make operations whole.
  \<^item> Socket helpers, \<^verbatim>\<open>libsocket.c\<close> lines 1-175 and 521-560: \<open>Libsocket\<close>.
  \<^item> Client registry, \<^verbatim>\<open>libsocket.c\<close> lines 176-272: \<open>Client_Manager\<close>. The linked list in the store, refined by an
    abstract sequence of entries.
  \<^item> Epoll handler, \<^verbatim>\<open>libepoll.c\<close>: \<open>Libepoll\<close>, with the callback as a parameter and rules for callbacks that keep an invariant.
  \<^item> Socket server, \<^verbatim>\<open>libsocket.c\<close> lines 275-520: \<open>Socket_Server\<close> (accepting, receiving, dispatching),
    \<open>Server_Life\<close> (creation, the loop, stopping, destruction) and \<open>Server_Traffic\<close> (the bytes that pass through a whole run,
    and which calls may make the loop wait); the user's callbacks are parameters.
  \<^item> Producer, \<^verbatim>\<open>Quekka_producer.c\<close>: \<open>Quekka_Producer\<close>. Creation of the thread's producer and \<open>Quekka_publish\<close>.
  \<^item> In-memory tables, \<^verbatim>\<open>Quekka_mdb.hpp\<close>: \<open>Quekka_Mdb\<close>. Columns and tables as maps (locale \<open>kv_store\<close>), the database as a
    store of tables, the detached callback threads as pending notices that a step relation may run in any order. The parameter \<open>T\<close> says
    for which of them the system can start a thread; where it cannot, the constructor of \<open>std::thread\<close> throws.
  \<^item> Server program, \<^verbatim>\<open>quekka.c\<close> (the one that is built): \<open>Quekka_Server\<close>; its unused C++ predecessor \<^verbatim>\<open>quekka.cpp\<close>: \<open>Quekka_Server_Cpp\<close>.
  \<^item> Command line client, \<^verbatim>\<open>quekka-cli.cpp\<close>: \<open>Quekka_Cli\<close>.
  \<^item> \<open>Delivery\<close> puts producer and socket server together: what \<open>send\<close> accepts of a publication, and what
    \<open>on_received\<close> gets of it in a run of the server. The connection between the two is a hypothesis on the bytes that arrive.
  This theory holds what else spans components: a published frame at the command line client, a producer from creation to publication, and the server's error
  messages in the logger it has set up.

  \<^bold>\<open>What the lemmas show.\<close> For each component: what its operations return on every branch; the
  invariants they keep (registered clients are open, watched descriptors in non-blocking mode, the mutex is released, the heap
  holds what was allocated); that creation acquires all resources or none, and what the whole life of a
  server leaves behind; that a run of the server hands every received chunk to its user once and in order and never reads where it
  could block; that copying a message to the wire and back loses nothing, and that a publication whose bytes all arrive reaches the
  server's user message by message; that log calls of several threads are whole and in order and never
  run into a deadlock; that loops end; and, where the code departs from its purpose, exactly how: frames never
  carry the last-message flag, topics are cut to four characters, one byte in 3943 is lost, failed and
  partial sends go unnoticed, lines and changes of the log level can cross, \<open>accept\<close> is
  called on a blocking descriptor until it finds nothing, the server programs serve nobody, and so on.

  \<^bold>\<open>Fuel.\<close> Loops that the kernel decides about take a bound on their iterations and report
  \<open>Out_of_fuel\<close> when it is reached: \<open>receive_loop\<close>, \<open>handle_accept\<close>, \<open>event_loop\<close>,
  \<open>comm_handle_data\<close>, \<open>socket_connect_with_client\<close>, \<open>server_loop\<close>, \<open>cpp_loop\<close>, \<open>cli_receive\<close>, \<open>cli_loop\<close>. Safety theorems hold for every bound; the
  termination theorems say which bound is enough: the number of pending connections plus one for
  \<open>handle_accept\<close>, and one more than the number of the first failing wait for the server program.
  The loops over the client list have the fuel \<open>LIST_FUEL\<close>, one more than the 1000 clients the registry
  admits, which is never used up on a registry. The publication loop needs none: its remaining length decreases.

  \<^bold>\<open>Not modelled.\<close> The subscriber (\<^verbatim>\<open>Quekka_sub.c\<close>, \<^verbatim>\<open>Quekka_sub.h\<close>) consists of empty files. The bodies of
  \<^verbatim>\<open>Quekka_protocol.c\<close> stand between \<open>#if 0\<close> and \<open>#endif\<close>, are in no build, and would not compile: they are not part of the program. The unit
  tests, the build files and the documents contain no program logic; where they disagree with the
  code this is noted among the findings. \<open>comm_context_t\<close> and \<open>MAX_CLIENTS\<close> of \<^verbatim>\<open>comm.h\<close> are used nowhere.
  Signals, partial writes of the C library's streams, C++ memory exhaustion (\<open>std::bad_alloc\<close>), and data races of the in-memory tables between
  threads are outside the model: a table operation is one step. The logger's steps are single reads, writes
  and prints; what a torn or reordered read of \<open>g_logger.level\<close>, which is made without the mutex, could
  give beyond the races of such steps is not modelled.
\<close>

section \<open>A published frame at its receivers\<close>

text \<open>The frames of a publication, with the fields a receiver looks at.\<close>

lemma frames_sent_cases:
  assumes "publishable K t topic payload s p now"
    and "Quekka_publish K t topic payload (length (cstr payload)) s = (r, s')" and "f \<in> set (frames_sent s s')"
  obtains k where "f = message_bytes (wire_message (wire_header (cstr topic) now) (cstr payload) k)"
    and "wf_message (wire_message (wire_header (cstr topic) now) (cstr payload) k)"
  using assms wf_wire_message wf_wire_header
  by (auto simp: publish_frames(2) [OF assms(1,2)] publishable_def)

lemma message_bytes_parts:
  assumes "wf_message m"
  shows "take 153 (message_bytes m) = header_bytes (m_header m)" "drop 153 (message_bytes m) = m_payload m"
    "take 2 (drop 148 (message_bytes m)) = le16 (h_payload_len (m_header m))"
    "drop 152 (message_bytes m) = byte8 (h_flags (m_header m)) @ m_payload m"
    "length (message_bytes m) = 4096"
proof -
  have "length (header_bytes (m_header m)) = 153" "length (message_bytes m) = 4096"
    using assms by (simp_all add: wf_message_def length_header_bytes message_codec.enc_length [OF assms] size_defs)
  then show "take 153 (message_bytes m) = header_bytes (m_header m)" "drop 153 (message_bytes m) = m_payload m"
    "length (message_bytes m) = 4096"
    by (simp_all add: message_bytes_def)
  have t: "length (h_topic (m_header m)) = 128" "length (h_message_id (m_header m)) = 18"
    using assms by (simp_all add: wf_message_def wf_header_def size_defs)
  then show "take 2 (drop 148 (message_bytes m)) = le16 (h_payload_len (m_header m))"
    "drop 152 (message_bytes m) = byte8 (h_flags (m_header m)) @ m_payload m"
    by (simp_all add: message_bytes_def header_bytes_def)
qed

lemma frame_payload_len:
  assumes "wf_message m" and "f = message_bytes m"
  shows "of_le16 (drop 148 (take 152 f @ X)) = h_payload_len (m_header m)"
proof -
  note parts = message_bytes_parts [OF assms(1), folded assms(2)]
  have "drop 148 (take 152 f @ X) = take 2 (drop 148 f) @ take 2 (drop 150 f) @ X"
    using parts(5) take_add [of 2 2 "drop 148 f"] by (simp add: drop_take)
  then show ?thesis using parts(3) by simp
qed

text \<open>
  C27. The command line client shows none of the payload: given the bytes of a published frame in
  order, it logs an empty text, because it reads one header byte too few and takes the
  flags byte, always 0, for the first character of the body. What the frame announces as left, its 16-bit
  length field, decides the rest: below 8 the client overflows its buffer instead; below 3945 part of the
  frame stays in the stream and is then read as the next header.
\<close>

theorem cli_shows_no_payload:
  fixes c :: "'z cli_scheme"
  assumes "publishable K t topic payload s p now"
    and "Quekka_publish K t topic payload (length (cstr payload)) s = (r, s')" and "f \<in> set (frames_sent s s')"
    and "cli_gets K' (trace c) hb (take 152 f) len q (take (len - 1) (drop 152 f))"
  shows "message_of_bytes f \<noteq> None \<and> len = unat (h_payload_len (m_header (the (message_of_bytes f)))) \<and>
    (len < 8 \<longrightarrow> fst (cli_receive K' (Suc n) hb c) = Fault Out_of_bounds) \<and>
    (8 \<le> len \<longrightarrow> (\<exists>hb' c'. cli_receive K' (Suc n) hb c = cli_receive K' n hb' c' \<and>
       (\<exists>old ev. trace c' = trace c @ old @ [Logged LOG_INFO ''Quekka data: %s'' [Str_arg []], ev]))) \<and>
    (len < 3945 \<longrightarrow> drop (152 + (len - 1)) f \<noteq> [])"
proof -
  obtain k where f: "f = message_bytes (wire_message (wire_header (cstr topic) now) (cstr payload) k)"
    and wf: "wf_message (wire_message (wire_header (cstr topic) now) (cstr payload) k)" (is "wf_message ?m")
    by (rule frames_sent_cases [OF assms(1-3)])
  note parts = message_bytes_parts [OF wf, folded f]
  have "drop 152 f = NUL # m_payload ?m"
    using parts(4) by (simp add: wire_message_fields QUEKKA_FLAG_MORE_def byte8_def char_of_def)
  then have body: "8 \<le> len \<Longrightarrow> NUL \<in> set (take (len - 1) (drop 152 f)) \<and> takeWhile (\<lambda>x. x \<noteq> NUL) (take (len - 1) (drop 152 f)) = []"
    by (cases "len - 1") auto
  have "len = unat (h_payload_len (m_header ?m))"
    using assms(4) frame_payload_len [OF wf f] parts(5) by (simp add: cli_gets_def Let_def)
  moreover have "message_of_bytes f = Some ?m" using message_codec.dec_enc_exact [OF wf] by (simp add: f)
  moreover have "\<exists>hb' c'. cli_receive K' (Suc n) hb c = cli_receive K' n hb' c' \<and>
       (\<exists>old ev. trace c' = trace c @ old @ [Logged LOG_INFO ''Quekka data: %s'' [Str_arg []], ev])" if le: "8 \<le> len"
  proof -
    obtain c' x y where "cli_receive K' (Suc n) hb c = cli_receive K' n (take 152 f @ drop (length (take 152 f)) hb) c'"
      and "trace c' = trace c @ [Call (Recv 0 152 Msg_dontwait) (Bytes (take 152 f)),
          Logged LOG_INFO ''Quekka's Body Payload Len [%d]'' [Int_arg (int len)], Call (Malloc (len + 1)) x,
          Call (Recv 0 (len - 1) Msg_waitall) (Bytes (take (len - 1) (drop 152 f)))] @
          [Logged LOG_INFO ''Quekka data: %s'' [Str_arg []], Call (Free q) y]"
      using cli_message [OF assms(4), of n] body [OF le] le by (auto simp del: cli_receive.simps)
    then show ?thesis by blast
  qed
  ultimately show ?thesis using cli_message [OF assms(4), of n] parts(5) by (auto simp del: cli_receive.simps)
qed

section \<open>A producer from creation to publication\<close>

text \<open>
  C16. A thread that has no producer, creates one for a configured address and publishes: given the
  socket, the connection and the memory, and where the configuration object is followed by six
  readable bytes, the calls are exactly a socket, the connection to the configured address, the memory for the
  producer, the time, and one \<open>send\<close> per started 3943 bytes of payload on the connected descriptor. Frame
  \<open>k\<close> has 4096 bytes; as the packed struct it carries the first four characters of the topic, the
  topic's length, the year as message id, the sequence number \<open>k\<close>, the length of the payload from its chunk
  on (both modulo 2^16), flag 0, and the first 3942 bytes of its chunk. The producer stays and no
  error code is set.
\<close>

theorem producer_session:
  fixes s :: "'z pub_state_scheme"
  assumes "g_producer s t = None" and "grants K (trace s) config fd q" and "wf_config config" and "6 \<le> length beyond"
    and "NUL \<in> set topic" and "NUL \<in> set payload" and "0 < length (cstr topic)" and "length (cstr topic) < 65535"
    and "tm_of (K (trace s @ map2 Call (producer_calls config fd) [Val fd, Val 0, Val q]) Time) = Some now" and "four_digit_year now"
  shows "\<exists>p s1 s2 now' fs qs. Quekka_producer_init K t beyond config s = (Ret (Some p), s1) \<and> p_fd p = fd \<and>
    p_publish p = Fn_Quekka_publish \<and>
    Quekka_publish K t topic payload (length (cstr payload)) s1 = (Ret 0, s2) \<and>
    g_producer s2 t = Some p \<and> quecode s2 = quecode s \<and>
    trace s2 = trace s @ [Call Socket (Val fd),
        Call (Connect fd (socket_set_server_address (cfg_ip config) (uint (cfg_port config)))) (Val 0),
        Call (Malloc SIZEOF_PRODUCER) (Val q), Call Time now'] @ send_events fd fs qs \<and>
    length qs = length fs \<and> length fs = (length (cstr payload) + 3942) div 3943 \<and>
    (\<forall>k < length fs. length (fs ! k) = 4096 \<and>
       (\<exists>m. message_of_bytes (fs ! k) = Some m \<and>
          m_header m = \<lparr>h_topic = take 4 (cstr topic) @ replicate (128 - min 4 (length (cstr topic))) NUL,
            h_message_id = show_int (tm_year now + 1900) @ replicate 14 NUL,
            h_topic_len = word_of_nat (length (cstr topic)),
            h_payload_len = word_of_nat (length (cstr payload) - k mod 65536 * 3943),
            h_seq = word_of_nat k, h_flags = QUEKKA_FLAG_MORE\<rparr> \<and>
          cstr (m_payload m) = take 3942 (drop (k mod 65536 * 3943) (cstr payload))))"
proof -
  define p where "p = \<lparr>p_fd = fd, p_config = take 8 (drop 8 (cfg_ip config)), p_publish = Fn_Quekka_publish\<rparr>"
  define s1 where "s1 = put_producer t (Some p) (s\<lparr>trace := trace s @ map2 Call (producer_calls config fd) [Val fd, Val 0, Val q]\<rparr>)"
  have init: "Quekka_producer_init K t beyond config s = (Ret (Some p), s1)"
    using producer_init_run [OF assms(1-3), of beyond] assms(4) by (simp add: p_def s1_def Let_def)
  have s1: "trace s1 = trace s @ map2 Call (producer_calls config fd) [Val fd, Val 0, Val q]"
    "g_producer s1 t = Some p" "quecode s1 = quecode s" by (simp_all add: s1_def)
  have p: "p_fd p = fd" "p_publish p = Fn_Quekka_publish" by (simp_all add: p_def)
  have pub: "publishable K t topic payload s1 p now"
    using assms(5-10) by (simp add: publishable_def s1)
  define m where "m = wire_message (wire_header (cstr topic) now) (cstr payload)"
  define fs where "fs = map (\<lambda>k. message_bytes (m k)) [0..<chunk_count (cstr payload)]"
  obtain qs s2 where s2: "Quekka_publish K t topic payload (length (cstr payload)) s1 = (Ret 0, s2)"
    "length qs = length fs" "trace s2 = trace s1 @ Call Time (K (trace s1) Time) # send_events fd fs qs"
    "g_producer s2 = g_producer s1" "quecode s2 = quecode s1"
    using publish_run_calls [OF pub] unfolding fs_def m_def p by auto
  have "length fs = (length (cstr payload) + 3942) div 3943" by (simp add: fs_def chunk_count_def PAYLOAD_MAX_eq)
  moreover have "length (fs ! k) = 4096 \<and> message_of_bytes (fs ! k) = Some (m k) \<and>
    cstr (m_payload (m k)) = take 3942 (drop (k mod 65536 * 3943) (cstr payload))" if "k < length fs" for k
    using that publish_frame_decodes [OF pub] by (simp add: fs_def m_def cstr_wire_payload)
  moreover have "m_header (m k) = \<lparr>h_topic = take 4 (cstr topic) @ replicate (128 - min 4 (length (cstr topic))) NUL,
      h_message_id = show_int (tm_year now + 1900) @ replicate 14 NUL,
      h_topic_len = word_of_nat (length (cstr topic)),
      h_payload_len = word_of_nat (length (cstr payload) - k mod 65536 * 3943),
      h_seq = word_of_nat k, h_flags = QUEKKA_FLAG_MORE\<rparr>" for k
    by (simp add: m_def wire_message_def wire_header_def zero_header_def Let_def PAYLOAD_MAX_eq)
  moreover have "trace s2 = trace s @ [Call Socket (Val fd),
        Call (Connect fd (socket_set_server_address (cfg_ip config) (uint (cfg_port config)))) (Val 0),
        Call (Malloc SIZEOF_PRODUCER) (Val q), Call Time (K (trace s1) Time)] @ send_events fd fs qs"
    by (simp add: s2(3) s1(1) producer_calls_def)
  ultimately show ?thesis using init s2(1,2,4,5) s1(2,3) p by metis
qed

section \<open>The server and its log\<close>

text \<open>The log calls of a trace.\<close>

fun logs :: "event list \<Rightarrow> (LogLevel \<times> char list \<times> log_arg list) list" where
  "logs [] = []"
| "logs (Logged l u as # tr) = (l, u, as) # logs tr"
| "logs (ev # tr) = logs tr"

lemma logs_append [simp]: "logs (tr @ tr') = logs tr @ logs tr'"
  by (induction tr rule: logs.induct) auto

lemma error_log_undefined:
  assumes "\<not> log_mutex w" and "lg_console_output (g_logger w) \<noteq> 0" and "lg_file_output (g_logger w) \<noteq> 0"
    and "lg_file (g_logger w) \<noteq> None" and "lg_level (g_logger w) = LOG_INFO"
  shows "fst (log_write err (Some now) LOG_ERROR file func line ''bind failed: %s'' [Strerror_arg e] w) = Fault Bad_arguments"
proof -
  have "vformat err ''bind failed: %s'' [Strerror_arg e] = Some (''bind failed: '' @ err e, [])"
    "vformat err ''bind failed: %s'' [] = None" by simp_all
  then show ?thesis
    using assms by (auto simp: log_write_def log_run_simps vfprintf_args_def Let_def less_LogLevel_def)
qed

text \<open>
  C32. The server cannot report why it fails to start. With the logger as the process finds it, writing to
  the console and to the file, a server whose \<open>bind\<close> is refused exits with 1 after one error line;
  carrying out this log call in the logger the server has set up is undefined behaviour,
  whatever its source position, time and error texts.
\<close>

theorem server_bind_error_log_undefined:
  fixes s :: "'z srv_scheme"
  assumes "server_processArgs word argv s = (Ret 0, s)"
    and "g_log s = \<lparr>g_logger = g_logger_initial, log_mutex = False, console = con, disk = files\<rparr>"
    and "can_open ''quekka.log''" and "\<forall>tr. K tr Socket = Val fd" and "0 \<le> fd"
    and "\<forall>tr. K tr (Setsockopt_reuseaddr fd) = Val 0" and "\<forall>tr a. K tr (Bind fd a) = Err e"
  shows "\<exists>s'. server_main K can_open word n argv s = (Exit 1, s') \<and>
    logs (trace s') = logs (trace s) @ [(LOG_INFO, ''########## quekka server start ##########'', []),
      (LOG_ERROR, ''bind failed: %s'', [Strerror_arg e])] \<and>
    fst (log_write err (Some now) LOG_ERROR file func line ''bind failed: %s'' [Strerror_arg e] (g_log s')) = Fault Bad_arguments"
proof -
  let ?f = "''quekka.log'' @ [NUL]"
  have f: "NUL \<in> set ?f" "cstr ?f \<noteq> []" "length (cstr ?f) \<le> 255" by simp_all
  have c: "cstr ?f = ''quekka.log''" by (simp add: cstr_def)
  have w: "\<not> log_mutex (g_log s)" "length (lg_filename (g_logger (g_log s))) = 256"
    using assms(2) by (simp_all add: g_logger_initial_def MAX_FILENAME_LEN_def)
  from logger_init_run [OF w(1) f w(2), of can_open LOG_INFO] assms(3) c
  obtain b where "logger_init can_open (Some ?f) LOG_INFO (g_log s) =
      (Ret (), (g_log s)\<lparr>g_logger := (g_logger (g_log s))\<lparr>lg_filename := b, lg_file := Some ''quekka.log'', lg_level := LOG_INFO\<rparr>,
        disk := (disk (g_log s))(''quekka.log'' \<mapsto> with_bom (disk (g_log s) ''quekka.log''))\<rparr>)" by auto
  then obtain w1 where log: "on_log (logger_init can_open (Some ?f) LOG_INFO) s = (Ret (), s\<lparr>g_log := w1\<rparr>)"
    and w1: "\<not> log_mutex w1" "lg_console_output (g_logger w1) = 1" "lg_file_output (g_logger w1) = 1"
      "lg_file (g_logger w1) = Some ''quekka.log''" "lg_level (g_logger w1) = LOG_INFO"
    using assms(2) by (simp add: on_log_run g_logger_initial_def)
  define s1 where "s1 = s\<lparr>g_log := w1, trace := trace s @ [Logged LOG_INFO ''########## quekka server start ##########'' []]\<rparr>"
  have start: "log_call LOG_INFO ''########## quekka server start ##########'' [] (s\<lparr>g_log := w1\<rparr>) = (Ret (), s1)"
    by (simp add: s1_def run_simps)
  have "\<exists>s2. server_main K can_open word n argv s = (Exit 1, s2) \<and> logs (trace s2) = logs (trace s1) @ [(LOG_ERROR, ''bind failed: %s'', [Strerror_arg e])] \<and> g_log s2 = w1"
    using assms(1,4-7) log start
    by (simp add: server_main_def run_simps socket_defs EXIT_FAILURE_def err_of_def) (simp add: s1_def)
  moreover have "logs (trace s1) = logs (trace s) @ [(LOG_INFO, ''########## quekka server start ##########'', [])]" by (simp add: s1_def)
  ultimately show ?thesis using w1 by (auto intro!: error_log_undefined)
qed

section \<open>Witnesses\<close>

text \<open>A kernel whose descriptor 0 delivers a given frame, cut as its reader asks.\<close>

definition frame_kernel :: "char list \<Rightarrow> kernel" where
  "frame_kernel f tr c =
     (case c of
        Recv fd n w \<Rightarrow> Bytes (take n (case w of Msg_dontwait \<Rightarrow> f | _ \<Rightarrow> drop 152 f))
      | _ \<Rightarrow> sample_kernel tr c)"

definition hello_world :: "char list" where "hello_world = ''hello world'' @ [NUL]"

lemma cstr_hello_world: "cstr hello_world = ''hello world''"
  by (simp add: hello_world_def)

lemma sample_publishable_hello_world:
  "publishable sample_kernel 0 sample_topic hello_world sample_pub_state sample_producer sample_tm"
  by (rule sample_publishable) (simp_all add: sample_topic_def hello_world_def)

text \<open>Its publication is one frame, which announces 11 bytes.\<close>

lemma hello_world_frame:
  obtains s' f m where "Quekka_publish sample_kernel 0 sample_topic hello_world (length (cstr hello_world)) sample_pub_state = (Ret 0, s')"
    and "frames_sent sample_pub_state s' = [f]" and "f = message_bytes m" and "wf_message m" and "h_payload_len (m_header m) = 11"
proof -
  note pub = sample_publishable_hello_world
  obtain r s' where run: "Quekka_publish sample_kernel 0 sample_topic hello_world (length (cstr hello_world)) sample_pub_state = (r, s')"
    by fastforce
  have "chunk_count (cstr hello_world) = Suc 0" by (simp add: chunk_count_def PAYLOAD_MAX_eq cstr_hello_world)
  then obtain f where f: "frames_sent sample_pub_state s' = [f]" using publish_frames(2) [OF pub run] by simp
  then have "f \<in> set (frames_sent sample_pub_state s')" by simp
  from frames_sent_cases [OF pub run this]
  obtain k where m: "f = message_bytes (wire_message (wire_header (cstr sample_topic) sample_tm) (cstr hello_world) k)"
    "wf_message (wire_message (wire_header (cstr sample_topic) sample_tm) (cstr hello_world) k)" by blast
  have "f = message_bytes (wire_message (wire_header (cstr sample_topic) sample_tm) (cstr hello_world) 0)"
    using publish_frames(2) [OF pub run] f \<open>chunk_count (cstr hello_world) = Suc 0\<close> by simp
  moreover have "wf_message (wire_message (wire_header (cstr sample_topic) sample_tm) (cstr hello_world) 0)"
    using pub by (simp add: publishable_def wf_wire_message wf_wire_header)
  ultimately show ?thesis
    using that [of s' f] run publish_frames(1) [OF pub run] f by (simp add: wire_message_fields cstr_hello_world)
qed

theorem cli_shows_no_payload_witness:
  "\<exists>s' f hb' c' old ev. Quekka_publish sample_kernel 0 sample_topic hello_world (length (cstr hello_world)) sample_pub_state = (Ret 0, s') \<and>
     frames_sent sample_pub_state s' = [f] \<and>
     cli_receive (frame_kernel f) (Suc 1) (replicate 154 NUL) cli_start = cli_receive (frame_kernel f) 1 hb' c' \<and>
     trace c' = old @ [Logged LOG_INFO ''Quekka data: %s'' [Str_arg []], ev]"
proof -
  obtain s' f m where run: "Quekka_publish sample_kernel 0 sample_topic hello_world (length (cstr hello_world)) sample_pub_state = (Ret 0, s')"
    and f: "frames_sent sample_pub_state s' = [f]" "f = message_bytes m" "wf_message m" "h_payload_len (m_header m) = 11"
    by (rule hello_world_frame)
  have len: "length f = 4096" using message_bytes_parts(5) [OF f(3)] f(2) by simp
  have t: "trace cli_start = []" by (simp add: cli_start_def)
  from len have "drop 152 f \<noteq> []" "f \<noteq> []" by auto
  then have "cli_gets (frame_kernel f) (trace cli_start) (replicate 154 NUL) (take 152 f) 11 4160 (take (11 - 1) (drop 152 f))"
    using len frame_payload_len [OF f(3,2)] f(4)
    by (simp add: cli_gets_def Let_def frame_kernel_def sample_kernel_def ptr_of_def cli_start_def min_def del: drop_append)
  moreover have "f \<in> set (frames_sent sample_pub_state s')" using f(1) by simp
  ultimately show ?thesis
    using cli_shows_no_payload [OF sample_publishable_hello_world run, of f "frame_kernel f" cli_start "replicate 154 NUL" 11 4160 1] run f(1) t
    by (simp del: cli_receive.simps)
qed

theorem producer_session_witness:
  "\<exists>p s1 s2 f m a b c d q. Quekka_producer_init sample_kernel 0 (replicate 6 NUL) zero_config no_producer = (Ret (Some p), s1) \<and>
     Quekka_publish sample_kernel 0 sample_topic sample_payload (length (cstr sample_payload)) s1 = (Ret 0, s2) \<and>
     trace s2 = [a, b, c, Call Time d] @ send_events 3 [f] [q] \<and> length f = 4096 \<and> message_of_bytes f = Some m \<and>
     cstr (m_payload m) = ''hello''"
proof -
  have h: "g_producer no_producer 0 = None" "grants sample_kernel (trace no_producer) zero_config 3 4160" "wf_config zero_config"
    "6 \<le> length (replicate 6 NUL)" "NUL \<in> set sample_topic" "NUL \<in> set sample_payload" "0 < length (cstr sample_topic)"
    "length (cstr sample_topic) < 65535"
    "tm_of (sample_kernel (trace no_producer @ map2 Call (producer_calls zero_config 3) [Val 3, Val 0, Val 4160]) Time) = Some sample_tm"
    "four_digit_year sample_tm"
    using sample_grants
    by (simp_all add: no_producer_def sample_pub_state_def sample_topic_def sample_payload_def sample_kernel_def
        four_digit_year_def sample_tm_def)
  from producer_session [OF h] obtain p s1 s2 now' fs qs where r:
    "Quekka_producer_init sample_kernel 0 (replicate 6 NUL) zero_config no_producer = (Ret (Some p), s1)"
    "Quekka_publish sample_kernel 0 sample_topic sample_payload (length (cstr sample_payload)) s1 = (Ret 0, s2)"
    "trace s2 = trace no_producer @ [Call Socket (Val 3),
        Call (Connect 3 (socket_set_server_address (cfg_ip zero_config) (uint (cfg_port zero_config)))) (Val 0),
        Call (Malloc SIZEOF_PRODUCER) (Val 4160), Call Time now'] @ send_events 3 fs qs"
    "length qs = length fs" "length fs = (length (cstr sample_payload) + 3942) div 3943"
    and f: "\<forall>k < length fs. length (fs ! k) = 4096 \<and> (\<exists>m. message_of_bytes (fs ! k) = Some m \<and> cstr (m_payload m) =
      take 3942 (drop (k mod 65536 * 3943) (cstr sample_payload)))" by blast
  then have "length fs = Suc 0" "length qs = Suc 0" by simp_all
  moreover from this f have "length (fs ! 0) = 4096" "\<exists>m. message_of_bytes (fs ! 0) = Some m \<and> cstr (m_payload m) = ''hello''" by auto
  ultimately show ?thesis using r(1-3) by (auto simp: length_Suc_conv no_producer_def sample_pub_state_def simp del: cstr_sample)
qed

definition busy_kernel :: kernel where
  "busy_kernel tr c = (case c of Socket \<Rightarrow> Val 3 | Bind fd a \<Rightarrow> Err 98 | _ \<Rightarrow> Val 0)"

theorem server_bind_error_log_undefined_witness:
  "\<exists>s'. server_main busy_kernel (\<lambda>_. True) (\<lambda>_. 4096) 1 [''quekka''] srv_start = (Exit 1, s') \<and>
    fst (log_write (\<lambda>_. ''Address already in use'') (Some sample_tm) LOG_ERROR ''libsocket.c'' ''socket_bind_address'' 41
      ''bind failed: %s'' [Strerror_arg 98] (g_log s')) = Fault Bad_arguments"
proof -
  have "server_processArgs (\<lambda>_. 4096) [''quekka''] srv_start = (Ret 0, srv_start)"
    by (simp add: server_processArgs_def getopt_results.simps run_simps)
  moreover have "g_log srv_start = \<lparr>g_logger = g_logger_initial, log_mutex = False, console = [], disk = Map.empty\<rparr>"
    by (simp add: srv_start_def)
  ultimately have "\<exists>s'. server_main busy_kernel (\<lambda>_. True) (\<lambda>_. 4096) 1 [''quekka''] srv_start = (Exit 1, s') \<and>
    logs (trace s') = logs (trace srv_start) @ [(LOG_INFO, ''########## quekka server start ##########'', []),
      (LOG_ERROR, ''bind failed: %s'', [Strerror_arg 98])] \<and>
    fst (log_write (\<lambda>_. ''Address already in use'') (Some sample_tm) LOG_ERROR ''libsocket.c'' ''socket_bind_address'' 41
      ''bind failed: %s'' [Strerror_arg 98] (g_log s')) = Fault Bad_arguments"
    by (rule server_bind_error_log_undefined [where fd = 3]) (simp_all add: busy_kernel_def)
  then show ?thesis by blast
qed

end
